(* ===== verification/Prelude.thy ===== *)
theory Prelude
  imports Main "HOL-Library.Word" "HOL-Library.Sublist"
begin

text \<open>
  The vocabulary every component shares: the Go scalars the program uses, the error values of
  the four domain packages and of the ports, the part of \<open>fmt\<close> and \<open>errors\<close> the source calls,
  and the lemmas on lists and words that carry the component proofs.

  \<^item> \<open>int64\<close> is a 64-bit word; Go compares it as a signed number, so comparisons read it by
    \<open>sint\<close>, and \<open>+\<close>, \<open>-\<close> and unary minus wrap around as they do in Go;
  \<^item> \<open>uuid\<close> is the 16-byte array of \<open>google/uuid\<close>, as a 128-bit word;
  \<^item> \<open>time\<close> is a UTC instant in nanoseconds;
  \<^item> a Go function returning \<open>(T, error)\<close> has the type \<open>go_error + 'T\<close>, one returning only
    \<open>error\<close> the type \<open>go_error option\<close> with \<open>None\<close> for nil.

  The package \<open>google/uuid\<close> is not part of the repository: \<open>uuid_Parse\<close> and
  \<open>uuid_String\<close> are the two fields of a parameter record \<open>uuid_lib\<close>, and \<open>uuid_ok\<close> states the one
  documented fact the program relies on, that parsing the text of a UUID gives it back.
\<close>

section \<open>Scalars\<close>

type_synonym int64 = "64 word"
type_synonym uuid = "128 word"
type_synonym time = int

text \<open>\<open>v++\<close> on a Go \<open>int\<close>, which has 64 bits and wraps around.\<close>

definition inc64 :: "int \<Rightarrow> int" where
  "inc64 v = (if v = 2 ^ 63 - 1 then - (2 ^ 63) else v + 1)"

lemma inc64_less: "v < 2 ^ 63 - 1 \<Longrightarrow> inc64 v = v + 1"
  by (simp add: inc64_def)

lemma inc64_word: "word_of_int (inc64 v) = (word_of_int v + 1 :: int64)"
proof -
  have "(word_of_int (- (2 ^ 63)) :: int64) = word_of_int (2 ^ 63 - 1) + 1" by simp
  then show ?thesis by (simp add: inc64_def)
qed

named_theorems go_simps \<open>unfolding rules for the Go run-time vocabulary\<close>

section \<open>Error values\<close>

text \<open>One datatype per \<open>errors.go\<close>, with the source's names; the last three are the port's, the
  circuit breaker's and the library sentinels the program compares against.\<close>

datatype money_sentinel = ErrNegativeAmount | ErrCurrencyMismatch | ErrInsufficientFunds

datatype account_sentinel = ErrAccountNotFound | ErrAccountNotTransactable

datatype ledger_sentinel = ErrDoubleEntryViolation

datatype transfer_sentinel =
    ErrTransferNotFound
  | ErrInvalidStateTransition
  | ErrIdempotencyKeyRequired
  | ErrIdempotencyKeyReused
  | ErrTransferAlreadyCompleted

datatype port_sentinel = ErrBankGatewayUnavailable

datatype breaker_sentinel = ErrCircuitOpen

datatype lib_sentinel = pgx_ErrNoRows | goredis_Nil | http_ErrServerClosed

datatype sentinel =
    MoneyErr money_sentinel
  | AccountErr account_sentinel
  | LedgerErr ledger_sentinel
  | TransferErr transfer_sentinel
  | PortErr port_sentinel
  | BreakerErr breaker_sentinel
  | LibErr lib_sentinel

primrec money_message :: "money_sentinel \<Rightarrow> string" where
  "money_message ErrNegativeAmount = ''amount must be non-negative''"
| "money_message ErrCurrencyMismatch = ''currency mismatch''"
| "money_message ErrInsufficientFunds = ''insufficient funds''"

primrec account_message :: "account_sentinel \<Rightarrow> string" where
  "account_message ErrAccountNotFound = ''account not found''"
| "account_message ErrAccountNotTransactable = ''account cannot transact''"

primrec ledger_message :: "ledger_sentinel \<Rightarrow> string" where
  "ledger_message ErrDoubleEntryViolation = ''ledger entries do not sum to zero''"

primrec transfer_message :: "transfer_sentinel \<Rightarrow> string" where
  "transfer_message ErrTransferNotFound = ''transfer not found''"
| "transfer_message ErrInvalidStateTransition = ''invalid state transition''"
| "transfer_message ErrIdempotencyKeyRequired = ''idempotency key is required''"
| "transfer_message ErrIdempotencyKeyReused = ''idempotency_key_reused_with_different_payload''"
| "transfer_message ErrTransferAlreadyCompleted = ''transfer already completed''"

primrec port_message :: "port_sentinel \<Rightarrow> string" where
  "port_message ErrBankGatewayUnavailable = ''bank gateway unavailable''"

primrec breaker_message :: "breaker_sentinel \<Rightarrow> string" where
  "breaker_message ErrCircuitOpen = ''circuit breaker is open''"

primrec lib_message :: "lib_sentinel \<Rightarrow> string" where
  "lib_message pgx_ErrNoRows = ''no rows in result set''"
| "lib_message goredis_Nil = ''redis: nil''"
| "lib_message http_ErrServerClosed = ''http: Server closed''"

primrec sentinel_message :: "sentinel \<Rightarrow> string" where
  "sentinel_message (MoneyErr e) = money_message e"
| "sentinel_message (AccountErr e) = account_message e"
| "sentinel_message (LedgerErr e) = ledger_message e"
| "sentinel_message (TransferErr e) = transfer_message e"
| "sentinel_message (PortErr e) = port_message e"
| "sentinel_message (BreakerErr e) = breaker_message e"
| "sentinel_message (LibErr e) = lib_message e"

text \<open>
  A Go error is a sentinel made by \<open>errors.New\<close> (identified by its address, here by its
  constructor) or the result of \<open>fmt.Errorf\<close>: its formatted text and, when the format has a
  \<open>%w\<close>, the error it wraps. An error of a driver is an \<open>Errorf\<close> that wraps nothing.
\<close>

datatype go_error = Sentinel sentinel | Errorf string "go_error option"

primrec Error :: "go_error \<Rightarrow> string" where
  "Error (Sentinel s) = sentinel_message s"
| "Error (Errorf m w) = m"

text \<open>\<open>errors.Is\<close> follows the chain of wrapped errors.\<close>

fun errors_Is :: "go_error \<Rightarrow> sentinel \<Rightarrow> bool" where
  "errors_Is (Sentinel s) target = (s = target)"
| "errors_Is (Errorf m None) target = False"
| "errors_Is (Errorf m (Some e)) target = errors_Is e target"

text \<open>\<open>fmt.Errorf("ctx: %w", err)\<close>, the form every layer boundary uses.\<close>

definition wrap :: "string \<Rightarrow> go_error \<Rightarrow> go_error" where
  "wrap ctx e = Errorf (ctx @ '': '' @ Error e) (Some e)"

lemma errors_Is_wrap [simp]: "errors_Is (wrap ctx e) target = errors_Is e target"
  by (simp add: wrap_def)

section \<open>Formatting\<close>

text \<open>The verb \<open>%d\<close>.\<close>

definition digit :: "nat \<Rightarrow> char" where
  "digit d = char_of (48 + d)"

fun show_nat :: "nat \<Rightarrow> string" where
  "show_nat n = (if n < 10 then [digit n] else show_nat (n div 10) @ [digit (n mod 10)])"

declare show_nat.simps [simp del]

definition show_int :: "int \<Rightarrow> string" where
  "show_int i = (if i < 0 then ''-'' @ show_nat (nat (- i)) else show_nat (nat i))"

text \<open>Reading decimal text back.\<close>

definition digit_value :: "char \<Rightarrow> nat" where
  "digit_value c = of_char c - 48"

definition read_nat :: "string \<Rightarrow> nat" where
  "read_nat s = foldl (\<lambda>n c. 10 * n + digit_value c) 0 s"

definition read_int :: "string \<Rightarrow> int" where
  "read_int s = (case s of [] \<Rightarrow> 0
     | c # cs \<Rightarrow> if c = CHR ''-'' then - int (read_nat cs) else int (read_nat s))"

lemma digit_value_digit: "d < 10 \<Longrightarrow> digit_value (digit d) = d"
  by (simp add: digit_value_def digit_def of_char_of)

lemma read_nat_snoc: "read_nat (s @ [c]) = 10 * read_nat s + digit_value c"
  by (simp add: read_nat_def)

lemma read_nat_show_nat: "read_nat (show_nat n) = n"
proof (induction n rule: show_nat.induct)
  case (1 n)
  show ?case
  proof (cases "n < 10")
    case True
    then show ?thesis
      by (simp add: show_nat.simps [of n] read_nat_def digit_value_digit)
  next
    case False
    with "1.IH" show ?thesis
      by (simp add: show_nat.simps [of n] read_nat_snoc digit_value_digit)
  qed
qed

lemma digit_not_minus: "d < 10 \<Longrightarrow> digit d \<noteq> CHR ''-''"
proof
  assume d: "d < 10" and eq: "digit d = CHR ''-''"
  from eq have "of_char (digit d) = (45 :: nat)" by simp
  with d show False by (simp add: digit_def of_char_of)
qed

lemma show_nat_digits: "set (show_nat n) \<subseteq> digit ` {..<10}"
proof (induction n rule: show_nat.induct)
  case (1 n)
  then show ?case by (subst show_nat.simps) auto
qed

lemma show_nat_ne: "show_nat n \<noteq> []"
  by (subst show_nat.simps) simp

lemma hd_show_nat: "show_nat n = c # cs \<Longrightarrow> c \<noteq> CHR ''-''"
  using show_nat_digits [of n] digit_not_minus by auto

lemma read_int_show_int [simp]: "read_int (show_int i) = i"
proof (cases "i < 0")
  case True
  then show ?thesis by (simp add: show_int_def read_int_def read_nat_show_nat)
next
  case False
  then obtain c cs where s: "show_nat (nat i) = c # cs"
    using show_nat_ne by (cases "show_nat (nat i)") auto
  with False hd_show_nat [OF s] read_nat_show_nat [of "nat i"] show ?thesis
    by (simp add: show_int_def read_int_def)
qed

lemma show_int_inject: "show_int i = show_int j \<longleftrightarrow> i = j"
  by (metis read_int_show_int)

text \<open>
  The verb \<open>%q\<close>: a double-quoted Go literal. The escapes are those of \<open>strconv.Quote\<close> for ASCII;
  bytes from 128 on (the encoding of a printable non-ASCII rune) stand for themselves.
\<close>

definition hex_digit :: "nat \<Rightarrow> char" where
  "hex_digit d = (if d < 10 then digit d else char_of (87 + d))"

definition quote_char :: "char \<Rightarrow> string" where
  "quote_char c = (let n = of_char c :: nat in
     if n = 34 \<or> n = 92 then [char_of (92::nat), c]
     else if n = 7 then [char_of (92::nat), CHR ''a'']
     else if n = 8 then [char_of (92::nat), CHR ''b'']
     else if n = 9 then [char_of (92::nat), CHR ''t'']
     else if n = 10 then [char_of (92::nat), CHR ''n'']
     else if n = 11 then [char_of (92::nat), CHR ''v'']
     else if n = 12 then [char_of (92::nat), CHR ''f'']
     else if n = 13 then [char_of (92::nat), CHR ''r'']
     else if n < 32 \<or> n = 127 then
       [char_of (92::nat), CHR ''x'', hex_digit (n div 16), hex_digit (n mod 16)]
     else [c])"

definition quote :: "string \<Rightarrow> string" where
  "quote s = char_of (34::nat) # concat (map quote_char s) @ [char_of (34::nat)]"

section \<open>The UUID package\<close>

record uuid_lib =
  uuid_Parse :: "string \<Rightarrow> go_error + uuid"
  uuid_String :: "uuid \<Rightarrow> string"

definition uuid_ok :: "uuid_lib \<Rightarrow> bool" where
  "uuid_ok U \<longleftrightarrow> (\<forall>u. uuid_Parse U (uuid_String U u) = Inr u)"

lemma uuid_okD [simp]: "uuid_ok U \<Longrightarrow> uuid_Parse U (uuid_String U u) = Inr u"
  by (simp add: uuid_ok_def)

lemma uuid_String_inject: "uuid_ok U \<Longrightarrow> uuid_String U u = uuid_String U v \<longleftrightarrow> u = v"
  by (metis uuid_okD sum.inject(2))

text \<open>An instance with the documented behaviour: the decimal text of the number.\<close>

definition decimal_uuid :: uuid_lib where
  "decimal_uuid = \<lparr>
     uuid_Parse = (\<lambda>s. if s = show_nat (unat (of_nat (read_nat s) :: uuid))
                       then Inr (of_nat (read_nat s))
                       else Inl (Errorf ''invalid UUID'' None)),
     uuid_String = (\<lambda>u. show_nat (unat u))\<rparr>"

lemma decimal_uuid_ok: "uuid_ok decimal_uuid"
  by (simp add: uuid_ok_def decimal_uuid_def read_nat_show_nat)

section \<open>Signed 64-bit arithmetic\<close>

lemma sint64_bounds: "- (2 ^ 63) \<le> sint (x :: int64)" "sint (x :: int64) < 2 ^ 63"
  using sint_ge [of x] sint_lt [of x] by simp_all

lemma sint64_exact:
  fixes i :: int
  assumes "- (2 ^ 63) \<le> i" and "i < 2 ^ 63"
  shows "sint (word_of_int i :: int64) = i"
  using assms by (simp add: sint_sbintrunc' signed_take_bit_int_eq_self)

lemma sint64_add:
  fixes a b :: int64
  assumes "- (2 ^ 63) \<le> sint a + sint b" and "sint a + sint b < 2 ^ 63"
  shows "sint (a + b) = sint a + sint b"
  using assms by (simp add: sint_word_ariths signed_take_bit_int_eq_self)

lemma sint64_diff:
  fixes a b :: int64
  assumes "- (2 ^ 63) \<le> sint a - sint b" and "sint a - sint b < 2 ^ 63"
  shows "sint (a - b) = sint a - sint b"
  using assms by (simp add: sint_word_ariths signed_take_bit_int_eq_self)

lemma sint64_uminus:
  fixes a :: int64
  assumes "0 \<le> sint a"
  shows "sint (- a) = - sint a"
  using assms sint64_bounds [of a] by (simp add: sint_word_ariths signed_take_bit_int_eq_self)

lemma sint64_0_iff: "sint (a :: int64) = 0 \<longleftrightarrow> a = 0"
  by (metis sint_0 signed_word_eqI)

section \<open>Lists as tables\<close>

text \<open>A table is the list of its rows, oldest first; a key column has no duplicates.\<close>

lemma sum_list_filter_append:
  "sum_list (map f (filter P (xs @ ys))) =
     sum_list (map f (filter P xs)) + sum_list (map f (filter P ys))"
  by simp

lemma map_key_update:
  assumes "\<And>x. P x \<Longrightarrow> key (f x) = key x"
  shows "map key (map (\<lambda>x. if P x then f x else x) xs) = map key xs"
  using assms by (induction xs) auto

lemma find_map_key:
  assumes "\<And>x. key (f x) = key x"
  shows "find (\<lambda>x. key x = k) (map f xs) = map_option f (find (\<lambda>x. key x = k) xs)"
  using assms by (induction xs) auto

lemma find_key_unique:
  assumes "distinct (map key xs)" and "x \<in> set xs"
  shows "find (\<lambda>y. key y = key x) xs = Some x"
  using assms by (induction xs) auto

lemma find_key_append:
  "find P (xs @ ys) = (case find P xs of None \<Rightarrow> find P ys | Some x \<Rightarrow> Some x)"
  by (induction xs) auto

lemma find_SomeD: "find P xs = Some x \<Longrightarrow> x \<in> set xs \<and> P x"
  by (auto simp: find_Some_iff)

end
