(* ===== verification/Money.thy ===== *)
theory Money
  imports Prelude
begin

text \<open>
  Package \<open>internal/domain/money\<close>: the value object \<open>Money\<close>. An amount is a signed 64-bit number of
  the smallest unit, a currency an ISO-4217 code kept as a string. The lemmas say when the checked
  and the unchecked operations stay within the non-negative amounts, and that the printed form
  determines the value.
\<close>

section \<open>Definitions\<close>

type_synonym Currency = string

definition CurrencyIDR :: Currency where
  "CurrencyIDR = ''IDR''"

definition CurrencyUSD :: Currency where
  "CurrencyUSD = ''USD''"

record Money =
  m_Amount :: int64
  m_Currency :: Currency

definition money_New :: "int64 \<Rightarrow> Currency \<Rightarrow> go_error + Money" where
  "money_New amount currency =
     (if sint amount < 0 then Inl (Sentinel (MoneyErr ErrNegativeAmount))
      else Inr \<lparr>m_Amount = amount, m_Currency = currency\<rparr>)"

text \<open>\<open>Must\<close> panics on an error: \<open>None\<close> is the panic.\<close>

definition money_Must :: "int64 \<Rightarrow> Currency \<Rightarrow> Money option" where
  "money_Must amount currency =
     (case money_New amount currency of Inl err \<Rightarrow> None | Inr m \<Rightarrow> Some m)"

definition currency_mismatch :: "Money \<Rightarrow> Money \<Rightarrow> go_error" where
  "currency_mismatch m other =
     Errorf (Error (Sentinel (MoneyErr ErrCurrencyMismatch)) @ '': '' @ m_Currency m @ '' vs '' @
             m_Currency other)
       (Some (Sentinel (MoneyErr ErrCurrencyMismatch)))"

definition money_Add :: "Money \<Rightarrow> Money \<Rightarrow> go_error + Money" where
  "money_Add m other =
     (if m_Currency m \<noteq> m_Currency other then Inl (currency_mismatch m other)
      else Inr \<lparr>m_Amount = m_Amount m + m_Amount other, m_Currency = m_Currency m\<rparr>)"

definition money_Sub :: "Money \<Rightarrow> Money \<Rightarrow> go_error + Money" where
  "money_Sub m other =
     (if m_Currency m \<noteq> m_Currency other then Inl (currency_mismatch m other)
      else if sint (m_Amount m) < sint (m_Amount other)
      then Inl (Sentinel (MoneyErr ErrInsufficientFunds))
      else Inr \<lparr>m_Amount = m_Amount m - m_Amount other, m_Currency = m_Currency m\<rparr>)"

definition money_IsZero :: "Money \<Rightarrow> bool" where
  "money_IsZero m \<longleftrightarrow> m_Amount m = 0"

definition money_Equals :: "Money \<Rightarrow> Money \<Rightarrow> bool" where
  "money_Equals m o' \<longleftrightarrow> m_Amount m = m_Amount o' \<and> m_Currency m = m_Currency o'"

definition money_String :: "Money \<Rightarrow> string" where
  "money_String m = m_Currency m @ '' '' @ show_int (sint (m_Amount m))"

definition money_Validate :: "Money \<Rightarrow> go_error option" where
  "money_Validate m =
     (if sint (m_Amount m) < 0 then Some (Sentinel (MoneyErr ErrNegativeAmount))
      else if m_Currency m = [] then Some (Errorf ''currency is required'' None)
      else None)"

lemmas money_defs = money_New_def money_Must_def money_Add_def money_Sub_def money_IsZero_def
  money_Equals_def money_Validate_def

section \<open>Lemmas\<close>

lemma money_Equals_iff [simp]: "money_Equals m n \<longleftrightarrow> m = n"
  by (cases m; cases n) (simp add: money_Equals_def)

lemma money_Validate_None:
  "money_Validate m = None \<longleftrightarrow> 0 \<le> sint (m_Amount m) \<and> m_Currency m \<noteq> []"
  by (auto simp: money_Validate_def)

lemma valid_nonzero_positive:
  "money_Validate m = None \<Longrightarrow> \<not> money_IsZero m \<Longrightarrow> 0 < sint (m_Amount m)"
  using sint64_0_iff [of "m_Amount m"]
  by (auto simp: money_Validate_None money_IsZero_def)

lemma money_IsZero_iff: "money_IsZero m \<longleftrightarrow> sint (m_Amount m) = 0"
  by (simp add: money_IsZero_def sint64_0_iff)

lemma money_New_Validate:
  "money_New a c = Inr m \<Longrightarrow> c \<noteq> [] \<Longrightarrow> money_Validate m = None"
  by (auto simp: money_New_def money_Validate_None split: if_splits)

text \<open>Past the largest \<open>int64\<close> the unchecked sum of two amounts is a negative number.\<close>

lemma sint64_add_overflow:
  fixes a b :: int64
  assumes "0 \<le> sint a" and "0 \<le> sint b" and "2 ^ 63 \<le> sint a + sint b"
  shows "sint (a + b) = sint a + sint b - 2 ^ 64"
proof -
  have "sint (a + b) = (sint a + sint b + 2 ^ 63) mod 2 ^ 64 - 2 ^ 63"
    by (simp add: sint_word_ariths signed_take_bit_eq_take_bit_shift take_bit_eq_mod)
  moreover have "(sint a + sint b + 2 ^ 63) mod 2 ^ 64 = sint a + sint b + 2 ^ 63 - 2 ^ 64"
  proof -
    have "sint a + sint b + 2 ^ 63 = (sint a + sint b + 2 ^ 63 - 2 ^ 64) + 2 ^ 64" by simp
    moreover have "0 \<le> sint a + sint b + 2 ^ 63 - 2 ^ 64" using assms by simp
    moreover have "sint a + sint b + 2 ^ 63 - 2 ^ 64 < 2 ^ 64"
      using sint64_bounds(2) [of a] sint64_bounds(2) [of b] by simp
    ultimately show ?thesis by (metis mod_add_self2 mod_pos_pos_trivial)
  qed
  ultimately show ?thesis by simp
qed

text \<open>The last word of the printed form has no blank, so the form can be cut at its last blank.\<close>

definition last_word :: "string \<Rightarrow> string" where
  "last_word s = rev (takeWhile (\<lambda>c. c \<noteq> CHR '' '') (rev s))"

lemma show_nat_no_blank: "CHR '' '' \<notin> set (show_nat n)"
proof
  assume "CHR '' '' \<in> set (show_nat n)"
  then obtain d where d: "d < 10" "digit d = CHR '' ''" using show_nat_digits [of n] by auto
  then have "of_char (digit d) = (32 :: nat)" by simp
  with d(1) show False by (simp add: digit_def of_char_of)
qed

lemma show_int_no_blank: "CHR '' '' \<notin> set (show_int i)"
  by (auto simp: show_int_def show_nat_no_blank)

lemma last_word_append:
  assumes "CHR '' '' \<notin> set w"
  shows "last_word (s @ '' '' @ w) = w"
proof -
  have "takeWhile (\<lambda>c. c \<noteq> CHR '' '') (rev w @ CHR '' '' # rev s) = rev w"
    using assms by (subst takeWhile_append2) auto
  then show ?thesis by (simp add: last_word_def)
qed

lemma last_word_money_String: "last_word (money_String m) = show_int (sint (m_Amount m))"
  unfolding money_String_def by (rule last_word_append [OF show_int_no_blank])

section \<open>Properties\<close>

text \<open>
  Addition of non-negative amounts of one currency: the sum is exact when it fits an \<open>int64\<close>;
  when it does not, \<open>Add\<close> still succeeds, but the result is negative and \<open>Validate\<close> refuses it, so
  an overflow cannot pass for an amount.
\<close>

lemma money_Add_bounds:
  assumes "m_Currency m = m_Currency n" and "0 \<le> sint (m_Amount m)" and "0 \<le> sint (m_Amount n)"
  shows "\<exists>s. money_Add m n = Inr s \<and> m_Currency s = m_Currency m \<and>
    (if sint (m_Amount m) + sint (m_Amount n) < 2 ^ 63
     then sint (m_Amount s) = sint (m_Amount m) + sint (m_Amount n)
     else money_Validate s = Some (Sentinel (MoneyErr ErrNegativeAmount)))"
proof (cases "sint (m_Amount m) + sint (m_Amount n) < 2 ^ 63")
  case True
  with assms show ?thesis by (simp add: money_Add_def sint64_add)
next
  case False
  with assms sint64_bounds(2) [of "m_Amount m"] sint64_bounds(2) [of "m_Amount n"] show ?thesis
    by (simp add: money_Add_def sint64_add_overflow money_Validate_def)
qed

text \<open>
  (C31) Subtraction never goes below zero: for non-negative amounts of one currency \<open>Sub\<close> fails with
  \<open>ErrInsufficientFunds\<close> exactly when the second is larger, and otherwise gives the exact difference, a
  valid amount that \<open>Add\<close> turns back into the first.
\<close>

theorem money_Sub_exact:
  assumes "m_Currency m = m_Currency n" and "0 \<le> sint (m_Amount m)" and "0 \<le> sint (m_Amount n)"
  shows "if sint (m_Amount m) < sint (m_Amount n)
    then money_Sub m n = Inl (Sentinel (MoneyErr ErrInsufficientFunds))
    else \<exists>d. money_Sub m n = Inr d \<and> sint (m_Amount d) = sint (m_Amount m) - sint (m_Amount n) \<and>
      0 \<le> sint (m_Amount d) \<and> money_Add d n = Inr m"
  using assms sint64_bounds [of "m_Amount m"] sint64_bounds [of "m_Amount n"]
  by (cases m) (auto simp: money_Sub_def money_Add_def sint64_diff)

theorem money_Sub_exact_witness:
  "(\<exists>d. money_Sub \<lparr>m_Amount = 5, m_Currency = CurrencyUSD\<rparr> \<lparr>m_Amount = 3, m_Currency = CurrencyUSD\<rparr> = Inr d \<and>
      sint (m_Amount d) = 2) \<and>
   money_Sub \<lparr>m_Amount = 3, m_Currency = CurrencyUSD\<rparr> \<lparr>m_Amount = 5, m_Currency = CurrencyUSD\<rparr> =
     Inl (Sentinel (MoneyErr ErrInsufficientFunds))"
  using money_Sub_exact [of "\<lparr>m_Amount = 5, m_Currency = CurrencyUSD\<rparr>" "\<lparr>m_Amount = 3, m_Currency = CurrencyUSD\<rparr>"]
    money_Sub_exact [of "\<lparr>m_Amount = 3, m_Currency = CurrencyUSD\<rparr>" "\<lparr>m_Amount = 5, m_Currency = CurrencyUSD\<rparr>"]
  by auto

text \<open>
  (C32) The printed form determines the value: two amounts have the same \<open>String\<close> if and only if they
  are equal, whatever the currency text is.
\<close>

theorem money_String_inject: "money_String m = money_String n \<longleftrightarrow> m = n"
proof
  assume eq: "money_String m = money_String n"
  then have "last_word (money_String m) = last_word (money_String n)" by simp
  then have "sint (m_Amount m) = sint (m_Amount n)"
    by (simp add: last_word_money_String show_int_inject)
  then have "m_Amount m = m_Amount n" by (rule signed_word_eqI)
  with eq show "m = n" by (cases m; cases n) (simp add: money_String_def)
qed simp

end
