(* ===== verification/Account.thy ===== *)
theory Account
  imports Money
begin

text \<open>
  Package \<open>internal/domain/account\<close>: the account aggregate, its typed identity and the clearing
  (float) accounts of the two currencies. A balance is not a field: it is computed from the ledger.
\<close>

section \<open>Definitions\<close>

datatype AccountID = AccountID (acc_uuid: uuid)

definition NewAccountID :: "uuid \<Rightarrow> AccountID" where
  "NewAccountID u = AccountID u"

definition AccountID_String :: "uuid_lib \<Rightarrow> AccountID \<Rightarrow> string" where
  "AccountID_String U a = uuid_String U (acc_uuid a)"

definition ParseAccountID :: "uuid_lib \<Rightarrow> string \<Rightarrow> go_error + AccountID" where
  "ParseAccountID U s =
     (case uuid_Parse U s of
        Inl err \<Rightarrow> Inl (wrap (''invalid account ID '' @ quote s) err)
      | Inr u \<Rightarrow> Inr (AccountID u))"

text \<open>
  The map literal \<open>FloatAccounts\<close>. Its values are the UUIDs whose canonical text the source spells
  out, the numbers 1 and 2. Reading a key that is not in a Go map gives the zero value, so every
  other currency has the all-zero account.
\<close>

definition FloatAccounts :: "Currency \<Rightarrow> AccountID" where
  "FloatAccounts c =
     (if c = CurrencyIDR then AccountID 1 else if c = CurrencyUSD then AccountID 2
      else AccountID 0)"

datatype Status = StatusActive | StatusFrozen | StatusClosed

primrec status_string :: "Status \<Rightarrow> string" where
  "status_string StatusActive = ''ACTIVE''"
| "status_string StatusFrozen = ''FROZEN''"
| "status_string StatusClosed = ''CLOSED''"

record Account =
  a_ID :: AccountID
  a_OwnerName :: string
  a_Currency :: Currency
  a_Status :: Status
  a_CreatedAt :: time
  a_UpdatedAt :: time

text \<open>\<open>now\<close> is what \<open>time.Now().UTC()\<close> returns.\<close>

definition account_New :: "time \<Rightarrow> AccountID \<Rightarrow> string \<Rightarrow> Currency \<Rightarrow> go_error + Account" where
  "account_New now i ownerName currency =
     (if ownerName = [] then Inl (Errorf ''owner name is required'' None)
      else Inr \<lparr>a_ID = i, a_OwnerName = ownerName, a_Currency = currency,
                a_Status = StatusActive, a_CreatedAt = now, a_UpdatedAt = now\<rparr>)"

definition CanTransact :: "uuid_lib \<Rightarrow> Account \<Rightarrow> go_error option" where
  "CanTransact U a =
     (case a_Status a of
        StatusActive \<Rightarrow> None
      | _ \<Rightarrow> Some (Errorf
          (Error (Sentinel (AccountErr ErrAccountNotTransactable)) @ '': account '' @
           AccountID_String U (a_ID a) @ '' has status '' @ status_string (a_Status a))
          (Some (Sentinel (AccountErr ErrAccountNotTransactable)))))"

section \<open>Lemmas\<close>

lemma ParseAccountID_String [simp]:
  "uuid_ok U \<Longrightarrow> ParseAccountID U (AccountID_String U a) = Inr a"
  by (simp add: ParseAccountID_def AccountID_String_def)

lemma AccountID_String_inject:
  "uuid_ok U \<Longrightarrow> AccountID_String U a = AccountID_String U b \<longleftrightarrow> a = b"
  by (cases a; cases b) (simp add: AccountID_String_def uuid_String_inject)

lemma CanTransact_None [simp]: "CanTransact U a = None \<longleftrightarrow> a_Status a = StatusActive"
  by (cases "a_Status a") (simp_all add: CanTransact_def)

lemma CanTransact_is:
  "CanTransact U a = Some e \<Longrightarrow> errors_Is e (AccountErr ErrAccountNotTransactable)"
  by (cases "a_Status a") (auto simp: CanTransact_def)

lemma account_New_active: "account_New now i n c = Inr a \<Longrightarrow> CanTransact U a = None"
  by (auto simp: account_New_def split: if_splits)

lemma FloatAccounts_range: "FloatAccounts c \<in> {AccountID 0, AccountID 1, AccountID 2}"
  by (simp add: FloatAccounts_def)

end
