(* ===== verification/Ledger.thy ===== *)
theory Ledger
  imports Account
begin

text \<open>
  Package \<open>internal/domain/ledger\<close>: ledger lines and the double-entry posting. A posting is built
  only by \<open>NewPosting\<close>, so \<open>posting_ok\<close> is the invariant of the type; \<open>entry_value\<close> is the exact
  signed value of a line (\<open>SignedAmount\<close> is the same value as a wrapping \<open>int64\<close>), and
  \<open>entries_total\<close> and \<open>entries_balance\<close> are the two sums the system is about: per currency, and
  per account and currency.
\<close>

section \<open>Definitions\<close>

subsection \<open>entry.go\<close>

datatype EntryType = EntryTypeDebit | EntryTypeCredit

datatype LedgerEntryID = LedgerEntryID (le_uuid: uuid)

definition NewLedgerEntryID :: "uuid \<Rightarrow> LedgerEntryID" where
  "NewLedgerEntryID u = LedgerEntryID u"

definition ParseLedgerEntryID :: "uuid_lib \<Rightarrow> string \<Rightarrow> go_error + LedgerEntryID" where
  "ParseLedgerEntryID U s =
     (case uuid_Parse U s of
        Inl err \<Rightarrow> Inl (wrap (''invalid ledger entry ID '' @ quote s) err)
      | Inr u \<Rightarrow> Inr (LedgerEntryID u))"

datatype TransactionID = TransactionID (tx_uuid: uuid)

definition NewTransactionID :: "uuid \<Rightarrow> TransactionID" where
  "NewTransactionID u = TransactionID u"

definition ParseTransactionID :: "uuid_lib \<Rightarrow> string \<Rightarrow> go_error + TransactionID" where
  "ParseTransactionID U s =
     (case uuid_Parse U s of
        Inl err \<Rightarrow> Inl (wrap (''invalid transaction ID '' @ quote s) err)
      | Inr u \<Rightarrow> Inr (TransactionID u))"

record LedgerEntry =
  e_ID :: LedgerEntryID
  e_TransactionID :: TransactionID
  e_AccountID :: AccountID
  e_Type :: EntryType
  e_Amount :: Money
  e_Description :: string
  e_CreatedAt :: time

definition SignedAmount :: "LedgerEntry \<Rightarrow> int64" where
  "SignedAmount e =
     (if e_Type e = EntryTypeDebit then - m_Amount (e_Amount e) else m_Amount (e_Amount e))"

subsection \<open>ledger.go\<close>

record Posting =
  p_TransactionID :: TransactionID
  p_Debit :: LedgerEntry
  p_Credit :: LedgerEntry

text \<open>\<open>now\<close> is the result of \<open>time.Now().UTC()\<close>, \<open>u1\<close> and \<open>u2\<close> those of the two calls of \<open>uuid.New\<close>.\<close>

definition NewPosting ::
  "time \<Rightarrow> uuid \<Rightarrow> uuid \<Rightarrow> TransactionID \<Rightarrow> AccountID \<Rightarrow> AccountID \<Rightarrow> Money \<Rightarrow> string \<Rightarrow>
   go_error + Posting" where
  "NewPosting now u1 u2 txID src dst amount description =
     (case money_Validate amount of
        Some err \<Rightarrow> Inl (wrap ''posting amount invalid'' err)
      | None \<Rightarrow>
        if money_IsZero amount then Inl (Errorf ''posting amount must be non-zero'' None)
        else if src = dst
        then Inl (Errorf ''source and destination accounts must differ'' None)
        else
          let debit = \<lparr>e_ID = NewLedgerEntryID u1, e_TransactionID = txID, e_AccountID = src,
                       e_Type = EntryTypeDebit, e_Amount = amount,
                       e_Description = description, e_CreatedAt = now\<rparr>;
              credit = \<lparr>e_ID = NewLedgerEntryID u2, e_TransactionID = txID, e_AccountID = dst,
                        e_Type = EntryTypeCredit, e_Amount = amount,
                        e_Description = description, e_CreatedAt = now\<rparr>
          in if SignedAmount debit + SignedAmount credit \<noteq> 0
             then Inl (Sentinel (LedgerErr ErrDoubleEntryViolation))
             else Inr \<lparr>p_TransactionID = txID, p_Debit = debit, p_Credit = credit\<rparr>)"

definition Entries :: "Posting \<Rightarrow> LedgerEntry list" where
  "Entries p = [p_Debit p, p_Credit p]"

definition Reversal ::
  "uuid_lib \<Rightarrow> time \<Rightarrow> uuid \<Rightarrow> uuid \<Rightarrow> Posting \<Rightarrow> TransactionID \<Rightarrow> go_error + Posting" where
  "Reversal U now u1 u2 p newTxID =
     NewPosting now u1 u2 newTxID
       (e_AccountID (p_Credit p)) (e_AccountID (p_Debit p)) (e_Amount (p_Debit p))
       (''REVERSAL of tx '' @ uuid_String U (tx_uuid (p_TransactionID p)))"

section \<open>What a posting is\<close>

definition posting_ok :: "Posting \<Rightarrow> bool" where
  "posting_ok p \<longleftrightarrow>
     e_Type (p_Debit p) = EntryTypeDebit \<and> e_Type (p_Credit p) = EntryTypeCredit \<and>
     e_Amount (p_Debit p) = e_Amount (p_Credit p) \<and>
     0 < sint (m_Amount (e_Amount (p_Debit p))) \<and> m_Currency (e_Amount (p_Debit p)) \<noteq> [] \<and>
     e_AccountID (p_Debit p) \<noteq> e_AccountID (p_Credit p) \<and>
     e_TransactionID (p_Debit p) = p_TransactionID p \<and>
     e_TransactionID (p_Credit p) = p_TransactionID p"

text \<open>The two lines of one posting, as they are handed to the repository.\<close>

definition posting_entries :: "LedgerEntry list \<Rightarrow> bool" where
  "posting_entries es \<longleftrightarrow>
     (case es of
        [d, c] \<Rightarrow> posting_ok \<lparr>p_TransactionID = e_TransactionID d, p_Debit = d, p_Credit = c\<rparr>
      | _ \<Rightarrow> False)"

text \<open>The exact signed value of a line, and the sums over a list of lines.\<close>

definition entry_value :: "LedgerEntry \<Rightarrow> int" where
  "entry_value e =
     (if e_Type e = EntryTypeDebit then - sint (m_Amount (e_Amount e))
      else sint (m_Amount (e_Amount e)))"

definition entries_total :: "Currency \<Rightarrow> LedgerEntry list \<Rightarrow> int" where
  "entries_total c es = sum_list (map entry_value (filter (\<lambda>e. m_Currency (e_Amount e) = c) es))"

definition entries_balance :: "AccountID \<Rightarrow> Currency \<Rightarrow> LedgerEntry list \<Rightarrow> int" where
  "entries_balance a c es =
     sum_list (map entry_value
       (filter (\<lambda>e. e_AccountID e = a \<and> m_Currency (e_Amount e) = c) es))"

section \<open>Lemmas\<close>

lemma SignedAmount_value:
  "0 \<le> sint (m_Amount (e_Amount e)) \<Longrightarrow> sint (SignedAmount e) = entry_value e"
  by (simp add: SignedAmount_def entry_value_def sint64_uminus)

lemma SignedAmount_of_int: "SignedAmount e = word_of_int (entry_value e)"
  by (simp add: SignedAmount_def entry_value_def wi_hom_neg [symmetric])

lemma posting_ok_entries [simp]: "posting_ok p \<Longrightarrow> posting_entries (Entries p)"
  by (auto simp: posting_entries_def Entries_def posting_ok_def)

lemma posting_entriesE:
  assumes "posting_entries es"
  obtains p where "posting_ok p" and "es = Entries p"
  using assms that
  by (auto simp: posting_entries_def Entries_def split: list.splits)

text \<open>The exact outcome of \<open>NewPosting\<close>: the zero-sum test after construction never fires.\<close>

lemma NewPosting_eq:
  "NewPosting now u1 u2 txID src dst amount description =
     (case money_Validate amount of
        Some err \<Rightarrow> Inl (wrap ''posting amount invalid'' err)
      | None \<Rightarrow>
        if money_IsZero amount then Inl (Errorf ''posting amount must be non-zero'' None)
        else if src = dst
        then Inl (Errorf ''source and destination accounts must differ'' None)
        else Inr \<lparr>p_TransactionID = txID,
           p_Debit = \<lparr>e_ID = LedgerEntryID u1, e_TransactionID = txID, e_AccountID = src,
                       e_Type = EntryTypeDebit, e_Amount = amount,
                       e_Description = description, e_CreatedAt = now\<rparr>,
           p_Credit = \<lparr>e_ID = LedgerEntryID u2, e_TransactionID = txID, e_AccountID = dst,
                        e_Type = EntryTypeCredit, e_Amount = amount,
                        e_Description = description, e_CreatedAt = now\<rparr>\<rparr>)"
  by (simp add: NewPosting_def NewLedgerEntryID_def SignedAmount_def split: option.split)

lemma NewPosting_Inr_iff:
  "(\<exists>p. NewPosting now u1 u2 txID src dst amount description = Inr p) \<longleftrightarrow>
     0 < sint (m_Amount amount) \<and> m_Currency amount \<noteq> [] \<and> src \<noteq> dst"
  by (auto simp: NewPosting_eq money_Validate_def money_IsZero_iff split: if_splits)

lemma NewPosting_fields:
  assumes "NewPosting now u1 u2 txID src dst amount description = Inr p"
  shows "posting_ok p" and "e_AccountID (p_Debit p) = src" and "e_AccountID (p_Credit p) = dst"
    and "e_Amount (p_Debit p) = amount" and "e_Amount (p_Credit p) = amount"
    and "p_TransactionID p = txID"
    and "e_Description (p_Debit p) = description" and "e_Description (p_Credit p) = description"
    and "e_ID (p_Debit p) = LedgerEntryID u1" and "e_ID (p_Credit p) = LedgerEntryID u2"
  using assms valid_nonzero_positive [of amount]
  by (auto simp: NewPosting_eq posting_ok_def money_Validate_None
      split: option.splits if_splits)

lemma NewPosting_ErrDoubleEntry_unreachable:
  "NewPosting now u1 u2 txID src dst amount d \<noteq> Inl (Sentinel (LedgerErr ErrDoubleEntryViolation))"
  by (auto simp: NewPosting_eq wrap_def split: option.splits)

lemma NewPosting_total:
  assumes "NewPosting now u1 u2 txID src dst amount description = Inr p"
  shows "entries_total c (Entries p) = 0"
  using NewPosting_fields [OF assms]
  by (simp add: entries_total_def Entries_def posting_ok_def entry_value_def)

lemma NewPosting_balance:
  assumes "NewPosting now u1 u2 txID src dst amount description = Inr p"
  shows "entries_balance a c (Entries p) =
    (if c = m_Currency amount
     then (if a = dst then sint (m_Amount amount) else 0) -
          (if a = src then sint (m_Amount amount) else 0)
     else 0)"
  using NewPosting_fields [OF assms]
  by (auto simp: entries_balance_def Entries_def posting_ok_def entry_value_def)

lemma entries_total_append [simp]:
  "entries_total c (xs @ ys) = entries_total c xs + entries_total c ys"
  by (simp add: entries_total_def)

lemma entries_balance_append [simp]:
  "entries_balance a c (xs @ ys) = entries_balance a c xs + entries_balance a c ys"
  by (simp add: entries_balance_def)

lemma entries_total_Nil [simp]: "entries_total c [] = 0"
  by (simp add: entries_total_def)

lemma entries_balance_Nil [simp]: "entries_balance a c [] = 0"
  by (simp add: entries_balance_def)

lemma entries_balance_Cons:
  "entries_balance a c (e # es) =
     (if e_AccountID e = a \<and> m_Currency (e_Amount e) = c then entry_value e else 0) +
     entries_balance a c es"
  by (simp add: entries_balance_def)

lemma entries_total_Cons:
  "entries_total c (e # es) =
     (if m_Currency (e_Amount e) = c then entry_value e else 0) + entries_total c es"
  by (simp add: entries_total_def)

lemma Reversal_Inr:
  assumes "posting_ok p"
  shows "\<exists>q. Reversal U now u1 u2 p newTxID = Inr q"
  unfolding Reversal_def NewPosting_Inr_iff using assms by (auto simp: posting_ok_def)

lemma posting_ok_balance:
  assumes "posting_ok p"
  shows "entries_balance a c (Entries p) =
    (if c = m_Currency (e_Amount (p_Debit p))
     then (if a = e_AccountID (p_Credit p) then sint (m_Amount (e_Amount (p_Debit p))) else 0) -
          (if a = e_AccountID (p_Debit p) then sint (m_Amount (e_Amount (p_Debit p))) else 0)
     else 0)"
  using assms by (auto simp: entries_balance_def Entries_def posting_ok_def entry_value_def)

section \<open>Properties\<close>

text \<open>
  (C17) A posting is exactly a transfer of money between two accounts: \<open>NewPosting\<close> succeeds if and only
  if the amount is positive, has a currency and the accounts differ; its own zero-sum test never
  fires; and the two entries add nothing to any currency's total, subtract the amount from the source,
  add it to the destination and touch no other account.
\<close>

theorem new_posting_moves:
  "((\<exists>p. NewPosting now u1 u2 txID src dst amount d = Inr p) \<longleftrightarrow>
      0 < sint (m_Amount amount) \<and> m_Currency amount \<noteq> [] \<and> src \<noteq> dst) \<and>
   NewPosting now u1 u2 txID src dst amount d \<noteq> Inl (Sentinel (LedgerErr ErrDoubleEntryViolation)) \<and>
   (\<forall>p. NewPosting now u1 u2 txID src dst amount d = Inr p \<longrightarrow>
      entries_total c (Entries p) = 0 \<and>
      entries_balance a c (Entries p) =
        (if c = m_Currency amount
         then (if a = dst then sint (m_Amount amount) else 0) -
              (if a = src then sint (m_Amount amount) else 0)
         else 0))"
  by (intro conjI allI impI NewPosting_Inr_iff NewPosting_ErrDoubleEntry_unreachable
      NewPosting_total NewPosting_balance)

theorem new_posting_moves_witness:
  "\<exists>p. NewPosting 0 1 2 (TransactionID 3) (AccountID 10) (AccountID 11)
      \<lparr>m_Amount = 7, m_Currency = ''IDR''\<rparr> ''rent'' = Inr p \<and>
    entries_total ''IDR'' (Entries p) = 0 \<and> entries_balance (AccountID 10) ''IDR'' (Entries p) = - 7"
proof -
  note post = new_posting_moves [of 0 1 2 "TransactionID 3" "AccountID 10" "AccountID 11"
      "\<lparr>m_Amount = 7, m_Currency = ''IDR''\<rparr>" "''rent''" "''IDR''" "AccountID 10"]
  then obtain p where "NewPosting 0 1 2 (TransactionID 3) (AccountID 10) (AccountID 11)
      \<lparr>m_Amount = 7, m_Currency = ''IDR''\<rparr> ''rent'' = Inr p" by auto
  with post show ?thesis by auto
qed

text \<open>
  (C18) A reversal undoes a posting: it always exists, is itself a posting, and the four entries together
  leave the balance of every account in every currency as it was.
\<close>

theorem reversal_cancels:
  assumes "posting_ok p"
  shows "\<exists>q. Reversal U now u1 u2 p newTxID = Inr q \<and> posting_ok q \<and> p_TransactionID q = newTxID \<and>
    (\<forall>a c. entries_balance a c (Entries p @ Entries q) = 0)"
proof -
  obtain q where q: "Reversal U now u1 u2 p newTxID = Inr q" using Reversal_Inr [OF assms] by blast
  note f = NewPosting_fields [OF q [unfolded Reversal_def]]
  have "entries_balance a c (Entries p @ Entries q) = 0" for a c
    using posting_ok_balance [OF assms, of a c] posting_ok_balance [OF f(1), of a c] f(2-4) by simp
  with q f(1,6) show ?thesis by blast
qed

theorem reversal_cancels_witness:
  "\<exists>p q. NewPosting 0 1 2 (TransactionID 3) (AccountID 10) (AccountID 11)
      \<lparr>m_Amount = 7, m_Currency = ''IDR''\<rparr> ''rent'' = Inr p \<and>
    Reversal decimal_uuid 5 6 7 p (TransactionID 8) = Inr q \<and>
    entries_balance (AccountID 10) ''IDR'' (Entries p @ Entries q) = 0"
proof -
  obtain p where p: "NewPosting 0 1 2 (TransactionID 3) (AccountID 10) (AccountID 11)
      \<lparr>m_Amount = 7, m_Currency = ''IDR''\<rparr> ''rent'' = Inr p"
    by (simp add: NewPosting_eq money_Validate_def money_IsZero_def)
  show ?thesis
    using p reversal_cancels [OF NewPosting_fields(1) [OF p], of decimal_uuid 5 6 7 "TransactionID 8"]
    by blast
qed

end
