(* ===== verification/Transfer_Domain.thy ===== *)
theory Transfer_Domain
  imports Account
begin

text \<open>
  Package \<open>internal/domain/transfer\<close>: the transfer aggregate with its state machine and its domain
  events. \<open>State\<close> is ordered by a linear extension of the edges of \<open>validTransitions\<close>, so every legal
  transition moves strictly upwards; that order bounds the length of a transfer's life.
\<close>

section \<open>Definitions\<close>

subsection \<open>transfer.go\<close>

datatype TransferID = TransferID (tr_uuid: uuid)

definition NewTransferID :: "uuid \<Rightarrow> TransferID" where
  "NewTransferID u = TransferID u"

definition TransferID_String :: "uuid_lib \<Rightarrow> TransferID \<Rightarrow> string" where
  "TransferID_String U t = uuid_String U (tr_uuid t)"

definition ParseTransferID :: "uuid_lib \<Rightarrow> string \<Rightarrow> go_error + TransferID" where
  "ParseTransferID U s =
     (case uuid_Parse U s of
        Inl err \<Rightarrow> Inl (wrap (''invalid transfer ID '' @ quote s) err)
      | Inr u \<Rightarrow> Inr (TransferID u))"

datatype State =
    StatePending
  | StateDebited
  | StateBankCalled
  | StateCredited
  | StateCompleted
  | StateFailed
  | StateCompensating

primrec state_string :: "State \<Rightarrow> string" where
  "state_string StatePending = ''PENDING''"
| "state_string StateDebited = ''DEBITED''"
| "state_string StateBankCalled = ''BANK_CALLED''"
| "state_string StateCredited = ''CREDITED''"
| "state_string StateCompleted = ''COMPLETED''"
| "state_string StateFailed = ''FAILED''"
| "state_string StateCompensating = ''COMPENSATING''"

record Transfer =
  t_ID :: TransferID
  t_IdempotencyKey :: string
  t_SourceAccountID :: AccountID
  t_DestAccountID :: AccountID
  t_Amount :: Money
  t_State :: State
  t_ExternalRef :: string
  t_FailureReason :: string
  t_DebitPosted :: bool
  t_CreditPosted :: bool
  t_CreatedAt :: time
  t_UpdatedAt :: time
  t_Version :: int

text \<open>A state absent from the map has no successors (the nil slice).\<close>

primrec validTransitions :: "State \<Rightarrow> State list" where
  "validTransitions StatePending = [StateDebited, StateFailed]"
| "validTransitions StateDebited = [StateBankCalled, StateCompensating]"
| "validTransitions StateBankCalled = [StateCredited, StateCompensating]"
| "validTransitions StateCredited = [StateCompleted, StateCompensating]"
| "validTransitions StateCompensating = [StateFailed]"
| "validTransitions StateCompleted = []"
| "validTransitions StateFailed = []"

text \<open>The three bytes of the arrow in the error text.\<close>

definition arrow :: string where
  "arrow = [char_of (0xE2 :: nat), char_of (0x86 :: nat), char_of (0x92 :: nat)]"

definition Transition :: "time \<Rightarrow> Transfer \<Rightarrow> State \<Rightarrow> go_error + Transfer" where
  "Transition now t next' =
     (if next' \<in> set (validTransitions (t_State t))
      then Inr (t\<lparr>t_State := next', t_UpdatedAt := now, t_Version := inc64 (t_Version t)\<rparr>)
      else Inl (Errorf
        (Error (Sentinel (TransferErr ErrInvalidStateTransition)) @ '': '' @
         state_string (t_State t) @ '' '' @ arrow @ '' '' @ state_string next')
        (Some (Sentinel (TransferErr ErrInvalidStateTransition)))))"

definition transfer_New ::
  "time \<Rightarrow> TransferID \<Rightarrow> string \<Rightarrow> AccountID \<Rightarrow> AccountID \<Rightarrow> Money \<Rightarrow> go_error + Transfer" where
  "transfer_New now i idempotencyKey src dst amount =
     (if idempotencyKey = [] then Inl (Sentinel (TransferErr ErrIdempotencyKeyRequired))
      else case money_Validate amount of
        Some err \<Rightarrow> Inl (wrap ''invalid amount'' err)
      | None \<Rightarrow>
        if money_IsZero amount then Inl (Errorf ''transfer amount must be non-zero'' None)
        else if src = dst
        then Inl (Errorf ''source and destination accounts must differ'' None)
        else Inr \<lparr>t_ID = i, t_IdempotencyKey = idempotencyKey,
                  t_SourceAccountID = src, t_DestAccountID = dst,
                  t_Amount = amount, t_State = StatePending,
                  t_ExternalRef = [], t_FailureReason = [],
                  t_DebitPosted = False, t_CreditPosted = False,
                  t_CreatedAt = now, t_UpdatedAt = now, t_Version = 1\<rparr>)"

subsection \<open>events.go\<close>

datatype EventType =
    EventTransferRequested
  | EventTransferDebited
  | EventTransferBankCalled
  | EventTransferCredited
  | EventTransferCompleted
  | EventTransferFailed

primrec event_string :: "EventType \<Rightarrow> string" where
  "event_string EventTransferRequested = ''transfer.requested''"
| "event_string EventTransferDebited = ''transfer.debited''"
| "event_string EventTransferBankCalled = ''transfer.bank_called''"
| "event_string EventTransferCredited = ''transfer.credited''"
| "event_string EventTransferCompleted = ''transfer.completed''"
| "event_string EventTransferFailed = ''transfer.failed''"

record TransferEvent =
  ev_EventID :: string
  ev_TransferID :: TransferID
  ev_Type :: EventType
  ev_State :: State
  ev_Amount :: Money
  ev_OccurredAt :: time
  ev_Metadata :: "(string \<times> string) list"

text \<open>\<open>u\<close> is the result of \<open>uuid.New\<close>, \<open>now\<close> that of \<open>time.Now().UTC()\<close>.\<close>

definition NewEvent :: "uuid_lib \<Rightarrow> uuid \<Rightarrow> time \<Rightarrow> Transfer \<Rightarrow> EventType \<Rightarrow> TransferEvent" where
  "NewEvent U u now t typ =
     \<lparr>ev_EventID = TransferID_String U (NewTransferID u), ev_TransferID = t_ID t, ev_Type = typ,
      ev_State = t_State t, ev_Amount = t_Amount t, ev_OccurredAt = now, ev_Metadata = []\<rparr>"

section \<open>The order of the states\<close>

primrec state_rank :: "State \<Rightarrow> nat" where
  "state_rank StatePending = 0"
| "state_rank StateDebited = 1"
| "state_rank StateBankCalled = 2"
| "state_rank StateCredited = 3"
| "state_rank StateCompleted = 4"
| "state_rank StateCompensating = 5"
| "state_rank StateFailed = 6"

lemma state_rank_inject [simp]: "state_rank s = state_rank s' \<longleftrightarrow> s = s'"
  by (cases s; cases s') simp_all

instantiation State :: linorder
begin

definition less_eq_State :: "State \<Rightarrow> State \<Rightarrow> bool" where
  "less_eq_State s s' \<longleftrightarrow> state_rank s \<le> state_rank s'"

definition less_State :: "State \<Rightarrow> State \<Rightarrow> bool" where
  "less_State s s' \<longleftrightarrow> state_rank s < state_rank s'"

instance
  by standard (auto simp: less_eq_State_def less_State_def)

end

text \<open>A terminal state, and the well-formedness of a transfer that was built by \<open>New\<close>.\<close>

definition terminal :: "State \<Rightarrow> bool" where
  "terminal s \<longleftrightarrow> validTransitions s = []"

definition transfer_wf :: "Transfer \<Rightarrow> bool" where
  "transfer_wf t \<longleftrightarrow>
     t_IdempotencyKey t \<noteq> [] \<and> 0 < sint (m_Amount (t_Amount t)) \<and>
     m_Currency (t_Amount t) \<noteq> [] \<and> t_SourceAccountID t \<noteq> t_DestAccountID t"

text \<open>The fields no operation of a transfer's life writes.\<close>

definition same_order :: "Transfer \<Rightarrow> Transfer \<Rightarrow> bool" where
  "same_order t t' \<longleftrightarrow>
     t_ID t' = t_ID t \<and> t_IdempotencyKey t' = t_IdempotencyKey t \<and>
     t_SourceAccountID t' = t_SourceAccountID t \<and> t_DestAccountID t' = t_DestAccountID t \<and>
     t_Amount t' = t_Amount t \<and> t_CreatedAt t' = t_CreatedAt t"

text \<open>One legal edge of the machine, with the version it costs.\<close>

definition legal_move :: "Transfer \<Rightarrow> Transfer \<Rightarrow> bool" where
  "legal_move t t' \<longleftrightarrow>
     same_order t t' \<and> t_State t' \<in> set (validTransitions (t_State t)) \<and>
     t_Version t' = inc64 (t_Version t)"

section \<open>Lemmas\<close>

lemma validTransitions_increase: "s' \<in> set (validTransitions s) \<Longrightarrow> s < s'"
  by (cases s) (auto simp: less_State_def)

lemma terminal_iff [simp]: "terminal s \<longleftrightarrow> s = StateCompleted \<or> s = StateFailed"
  by (cases s) (simp_all add: terminal_def)

lemma TransferID_String_inject:
  "uuid_ok U \<Longrightarrow> TransferID_String U a = TransferID_String U b \<longleftrightarrow> a = b"
  by (cases a; cases b) (simp add: TransferID_String_def uuid_String_inject)

lemma ParseTransferID_String [simp]:
  "uuid_ok U \<Longrightarrow> ParseTransferID U (TransferID_String U t) = Inr t"
  by (simp add: ParseTransferID_def TransferID_String_def)

lemma Transition_Inr:
  "Transition now t s = Inr t' \<longleftrightarrow>
     s \<in> set (validTransitions (t_State t)) \<and>
     t' = t\<lparr>t_State := s, t_UpdatedAt := now, t_Version := inc64 (t_Version t)\<rparr>"
  by (auto simp: Transition_def)

lemma Transition_Inl_is:
  "Transition now t s = Inl e \<Longrightarrow> errors_Is e (TransferErr ErrInvalidStateTransition)"
  by (auto simp: Transition_def split: if_splits)

lemma Transition_legal: "Transition now t s = Inr t' \<Longrightarrow> legal_move t t' \<and> t_State t' = s"
  by (auto simp: Transition_Inr legal_move_def same_order_def)

lemma transfer_New_Inr_iff:
  "(\<exists>t. transfer_New now i key src dst amount = Inr t) \<longleftrightarrow>
     key \<noteq> [] \<and> 0 < sint (m_Amount amount) \<and> m_Currency amount \<noteq> [] \<and> src \<noteq> dst"
  by (auto simp: transfer_New_def money_Validate_def money_IsZero_iff)

lemma transfer_New_fields:
  assumes "transfer_New now i key src dst amount = Inr t"
  shows "transfer_wf t" and "t_ID t = i" and "t_IdempotencyKey t = key"
    and "t_SourceAccountID t = src" and "t_DestAccountID t = dst" and "t_Amount t = amount"
    and "t_State t = StatePending" and "t_Version t = 1"
    and "\<not> t_DebitPosted t" and "\<not> t_CreditPosted t"
  using assms valid_nonzero_positive [of amount]
  by (auto simp: transfer_New_def transfer_wf_def money_Validate_None
      split: option.splits if_splits)

lemma same_order_refl [simp]: "same_order t t"
  by (simp add: same_order_def)

lemma same_order_trans: "same_order t t' \<Longrightarrow> same_order t' t'' \<Longrightarrow> same_order t t''"
  by (simp add: same_order_def)

lemma same_order_wf: "same_order t t' \<Longrightarrow> transfer_wf t' \<longleftrightarrow> transfer_wf t"
  by (simp add: same_order_def transfer_wf_def)

subsection \<open>Runs of the machine\<close>

text \<open>Applying \<open>Transition\<close> along a list of targets, stopping at the first error.\<close>

fun run_transitions :: "time \<Rightarrow> Transfer \<Rightarrow> State list \<Rightarrow> go_error + Transfer" where
  "run_transitions now t [] = Inr t"
| "run_transitions now t (s # ss) =
     (case Transition now t s of Inl e \<Rightarrow> Inl e | Inr t' \<Rightarrow> run_transitions now t' ss)"

text \<open>How many moves a state still allows: the length of the longest path that leaves it.\<close>

primrec moves_left :: "State \<Rightarrow> nat" where
  "moves_left StatePending = 5"
| "moves_left StateDebited = 4"
| "moves_left StateBankCalled = 3"
| "moves_left StateCredited = 2"
| "moves_left StateCompensating = 1"
| "moves_left StateCompleted = 0"
| "moves_left StateFailed = 0"

lemma moves_left_decreases:
  "s' \<in> set (validTransitions s) \<Longrightarrow> moves_left s' < moves_left s"
  by (cases s) auto

text \<open>The version after a number of increments.\<close>

lemma inc64_pow: "v + int n < 2 ^ 63 \<Longrightarrow> (inc64 ^^ n) v = v + int n"
  by (induction n) (simp_all add: inc64_less)

lemma inc64_pow_word: "word_of_int ((inc64 ^^ n) v) = (word_of_int v + of_nat n :: int64)"
  by (induction n) (simp_all add: inc64_word algebra_simps)

lemma run_transitions_bound:
  "run_transitions now t ss = Inr t' \<Longrightarrow>
     length ss + moves_left (t_State t') \<le> moves_left (t_State t) \<and>
     t_Version t' = (inc64 ^^ length ss) (t_Version t) \<and> same_order t t' \<and>
     (if ss = [] then t' = t else t_State t < t_State t')"
proof (induction ss arbitrary: t)
  case Nil
  then show ?case by simp
next
  case (Cons s ss)
  from Cons.prems obtain t1 where t1: "Transition now t s = Inr t1"
    and rest: "run_transitions now t1 ss = Inr t'"
    by (auto split: sum.splits)
  from t1 have valid: "s \<in> set (validTransitions (t_State t))" and st: "t_State t1 = s"
    and v: "t_Version t1 = inc64 (t_Version t)" and so: "same_order t t1"
    by (auto simp: Transition_Inr same_order_def)
  have "moves_left s < moves_left (t_State t)" and "t_State t < s"
    using valid by (rule moves_left_decreases, rule validTransitions_increase)
  then show ?case
    using Cons.IH [OF rest] st v so by (auto simp: funpow_swap1 intro: same_order_trans split: if_splits)
qed

section \<open>Properties\<close>

text \<open>
  (C19) The state machine terminates and never forgets its order: a transfer that went through any
  sequence of transitions made at most five, no more than its first state allows, each raising the
  version by one in 64 bits, which wraps around only for versions among the last five; its state only grew in the order of the machine, nothing else of the order changed,
  and a terminal state allows no transition at all.
\<close>

theorem transitions_terminate:
  assumes "run_transitions now t ss = Inr t'"
  shows "length ss \<le> moves_left (t_State t) \<and> length ss \<le> 5 \<and>
    word_of_int (t_Version t') = (word_of_int (t_Version t) + of_nat (length ss) :: int64) \<and>
    (t_Version t + 5 < 2 ^ 63 \<longrightarrow> t_Version t' = t_Version t + int (length ss)) \<and>
    same_order t t' \<and> t_State t \<le> t_State t' \<and>
    (terminal (t_State t) \<longrightarrow> t' = t)"
proof -
  have "moves_left (t_State t) \<le> 5" by (cases "t_State t") simp_all
  moreover have "terminal (t_State t) \<Longrightarrow> moves_left (t_State t) = 0" by auto
  moreover note bound = run_transitions_bound [OF assms]
  moreover have "word_of_int (t_Version t') = (word_of_int (t_Version t) + of_nat (length ss) :: int64)"
    using bound by (simp add: inc64_pow_word)
  moreover have "t_Version t + 5 < 2 ^ 63 \<longrightarrow> t_Version t' = t_Version t + int (length ss)"
    using bound calculation(1) inc64_pow [of "t_Version t" "length ss"] by auto
  ultimately show ?thesis by (auto split: if_splits)
qed

theorem transitions_terminate_witness:
  "\<exists>t t'. transfer_New 0 (TransferID 1) ''k'' (AccountID 10) (AccountID 11)
      \<lparr>m_Amount = 7, m_Currency = ''IDR''\<rparr> = Inr t \<and>
    run_transitions 9 t [StateDebited, StateBankCalled, StateCredited, StateCompensating, StateFailed] = Inr t' \<and>
    t_Version t' = 6 \<and> t_State t \<le> t_State t'"
proof -
  obtain t where t: "transfer_New 0 (TransferID 1) ''k'' (AccountID 10) (AccountID 11)
      \<lparr>m_Amount = 7, m_Currency = ''IDR''\<rparr> = Inr t"
    by (simp add: transfer_New_def money_Validate_def money_IsZero_def)
  then have s: "t_State t = StatePending" "t_Version t = 1" using transfer_New_fields [OF t] by simp_all
  obtain t' where run: "run_transitions 9 t
      [StateDebited, StateBankCalled, StateCredited, StateCompensating, StateFailed] = Inr t'"
    using s by (simp add: Transition_def)
  from transitions_terminate [OF run] s t run show ?thesis by auto
qed

end
