(* ===== verification/Json.thy ===== *)
theory Json
  imports Transfer_Domain
begin

text \<open>
  The part of \<open>encoding/json\<close> the program uses. A JSON document is a tree; a byte slice is either
  the text of one document or text no decoder accepts, so printing and lexing are not modelled and
  encoding followed by decoding is exact. What is modelled is how Go maps structs to objects:
  field names and tags, \<open>omitempty\<close>, unknown and repeated keys, case-insensitive key matching,
  null, type errors, and the RFC 3339 text of a time with its range check.
\<close>

section \<open>Documents\<close>

datatype json =
    JNull
  | JBool bool
  | JInt int
  | JFloat string
  | JStr string
  | JArr "json list"
  | JObj "(string \<times> json) list"

datatype bytes = JSON json | NotJSON string

section \<open>Times\<close>

text \<open>The proleptic Gregorian date of a day number counted from 1970-01-01.\<close>

definition civil_from_days :: "int \<Rightarrow> int \<times> int \<times> int" where
  "civil_from_days z =
     (let z' = z + 719468; era = z' div 146097; doe = z' mod 146097;
          yoe = (doe - doe div 1460 + doe div 36524 - doe div 146096) div 365;
          doy = doe - (365 * yoe + yoe div 4 - yoe div 100);
          mp = (5 * doy + 2) div 153;
          d = doy - (153 * mp + 2) div 5 + 1;
          m = (if mp < 10 then mp + 3 else mp - 9);
          y = yoe + era * 400 + (if m \<le> 2 then 1 else 0)
      in (y, m, d))"

definition pad :: "nat \<Rightarrow> int \<Rightarrow> string" where
  "pad n i = (let s = show_int i in replicate (n - length s) (CHR ''0'') @ s)"

text \<open>The fraction of a second without its trailing zeros, empty when it is zero.\<close>

definition fraction :: "int \<Rightarrow> string" where
  "fraction ns =
     (if ns = 0 then [] else CHR ''.'' # rev (dropWhile (\<lambda>c. c = CHR ''0'') (rev (pad 9 ns))))"

definition rfc3339 :: "time \<Rightarrow> string" where
  "rfc3339 t =
     (let secs = t div 1000000000; ns = t mod 1000000000;
          (y, m, d) = civil_from_days (secs div 86400); sod = secs mod 86400
      in pad 4 y @ ''-'' @ pad 2 m @ ''-'' @ pad 2 d @ ''T'' @
         pad 2 (sod div 3600) @ '':'' @ pad 2 (sod mod 3600 div 60) @ '':'' @ pad 2 (sod mod 60) @
         fraction ns @ ''Z'')"

definition time_MarshalJSON :: "time \<Rightarrow> go_error + json" where
  "time_MarshalJSON t =
     (let (y, m, d) = civil_from_days (t div 1000000000 div 86400)
      in if y < 0 \<or> y \<ge> 10000
         then Inl (Errorf ''Time.MarshalJSON: year outside of range [0,9999]'' None)
         else Inr (JStr (rfc3339 t)))"

section \<open>Decoding an object into a struct\<close>

text \<open>
  A key selects the field with exactly that name, or else the one with the same folded name.
  Folding maps ASCII letters to upper case, and the two runes outside ASCII that fold to an ASCII
  letter (the long s and the Kelvin sign) to that letter; other bytes stay.
\<close>

definition upper :: "char \<Rightarrow> char" where
  "upper c = (let n = of_char c :: nat in if 97 \<le> n \<and> n \<le> 122 then char_of (n - 32) else c)"

fun foldName :: "string \<Rightarrow> string" where
  "foldName [] = []"
| "foldName [a] = [upper a]"
| "foldName [a, b] = (if a = CHR 0xC5 \<and> b = CHR 0xBF then ''S'' else [upper a, upper b])"
| "foldName (a # b # c # cs) =
     (if a = CHR 0xC5 \<and> b = CHR 0xBF then CHR ''S'' # foldName (c # cs)
      else if a = CHR 0xE2 \<and> b = CHR 0x84 \<and> c = CHR 0xAA then CHR ''K'' # foldName cs
      else upper a # foldName (b # c # cs))"

definition key_matches :: "string \<Rightarrow> string \<Rightarrow> bool" where
  "key_matches tag key \<longleftrightarrow> key = tag \<or> foldName key = foldName tag"

definition type_error :: go_error where
  "type_error = Errorf ''json: cannot unmarshal value into Go struct field'' None"

text \<open>
  The value of one field after all keys have been seen, and whether some value had the wrong type.
  A null leaves the field as it is; of several values the last one stays.
\<close>

fun string_field :: "string \<Rightarrow> (string \<times> json) list \<Rightarrow> string \<Rightarrow> string" where
  "string_field tag [] v = v"
| "string_field tag ((k, j) # kvs) v =
     string_field tag kvs
       (if key_matches tag k then (case j of JStr s \<Rightarrow> s | _ \<Rightarrow> v) else v)"

fun bool_field :: "string \<Rightarrow> (string \<times> json) list \<Rightarrow> bool \<Rightarrow> bool" where
  "bool_field tag [] v = v"
| "bool_field tag ((k, j) # kvs) v =
     bool_field tag kvs
       (if key_matches tag k then (case j of JBool b \<Rightarrow> b | _ \<Rightarrow> v) else v)"

definition int64_range :: "int \<Rightarrow> bool" where
  "int64_range i \<longleftrightarrow> - (2 ^ 63) \<le> i \<and> i < 2 ^ 63"

fun int64_field :: "string \<Rightarrow> (string \<times> json) list \<Rightarrow> int64 \<Rightarrow> int64" where
  "int64_field tag [] v = v"
| "int64_field tag ((k, j) # kvs) v =
     int64_field tag kvs
       (if key_matches tag k
        then (case j of JInt i \<Rightarrow> if int64_range i then word_of_int i else v | _ \<Rightarrow> v) else v)"

datatype field_type = FString | FBool | FInt64

fun json_fits :: "field_type \<Rightarrow> json \<Rightarrow> bool" where
  "json_fits ty JNull = True"
| "json_fits FString (JStr s) = True"
| "json_fits FBool (JBool b) = True"
| "json_fits FInt64 (JInt i) = int64_range i"
| "json_fits ty j = False"

definition fields_fit :: "(string \<times> field_type) list \<Rightarrow> (string \<times> json) list \<Rightarrow> bool" where
  "fields_fit tags kvs \<longleftrightarrow>
     list_all (\<lambda>(k, j). list_all (\<lambda>(tag, ty). key_matches tag k \<longrightarrow> json_fits ty j) tags) kvs"

text \<open>The key-value pairs of a document decoded into a struct with these fields, or the error.\<close>

definition Unmarshal_object ::
  "(string \<times> field_type) list \<Rightarrow> bytes \<Rightarrow> go_error + (string \<times> json) list" where
  "Unmarshal_object tags data =
     (case data of
        NotJSON s \<Rightarrow> Inl (Errorf ''invalid character'' None)
      | JSON j \<Rightarrow>
        (case j of
           JObj kvs \<Rightarrow> if fields_fit tags kvs then Inr kvs else Inl type_error
         | JNull \<Rightarrow> Inr []
         | _ \<Rightarrow> Inl type_error))"

section \<open>Encoding the program's values\<close>

definition money_json :: "Money \<Rightarrow> json" where
  "money_json m = JObj [(''Amount'', JInt (sint (m_Amount m))), (''Currency'', JStr (m_Currency m))]"

text \<open>
  \<open>TransferEvent\<close> has no tags, so the keys are the Go field names; a typed identity embeds a UUID
  and encodes as its text.
\<close>

definition TransferEvent_json :: "uuid_lib \<Rightarrow> TransferEvent \<Rightarrow> go_error + json" where
  "TransferEvent_json U e =
     (case time_MarshalJSON (ev_OccurredAt e) of
        Inl err \<Rightarrow> Inl err
      | Inr ts \<Rightarrow> Inr (JObj
          [(''EventID'', JStr (ev_EventID e)),
           (''TransferID'', JStr (TransferID_String U (ev_TransferID e))),
           (''Type'', JStr (event_string (ev_Type e))),
           (''State'', JStr (state_string (ev_State e))),
           (''Amount'', money_json (ev_Amount e)),
           (''OccurredAt'', ts),
           (''Metadata'', JObj (map (\<lambda>(k, v). (k, JStr v)) (ev_Metadata e)))]))"

section \<open>Lemmas\<close>

lemma key_matches_refl [simp]: "key_matches tag tag"
  by (simp add: key_matches_def)

lemma TransferEvent_json_keys:
  "TransferEvent_json U e = Inr (JObj kvs) \<Longrightarrow>
     map fst kvs = [''EventID'', ''TransferID'', ''Type'', ''State'', ''Amount'', ''OccurredAt'',
       ''Metadata'']"
  by (auto simp: TransferEvent_json_def split: sum.splits)

lemma TransferEvent_json_obj: "TransferEvent_json U e = Inr j \<Longrightarrow> \<exists>kvs. j = JObj kvs"
  by (auto simp: TransferEvent_json_def split: sum.splits)

text \<open>A key that differs from the tag in more than letter case is not seen by the decoder.\<close>

lemma string_field_unmatched:
  "\<forall>k \<in> set (map fst kvs). \<not> key_matches tag k \<Longrightarrow> string_field tag kvs v = v"
  by (induction kvs arbitrary: v) auto

text \<open>Plain ASCII names fold letter by letter.\<close>

definition ascii :: "string \<Rightarrow> bool" where
  "ascii s \<longleftrightarrow> list_all (\<lambda>c. of_char c < (128 :: nat)) s"

lemma length_foldName: "ascii s \<Longrightarrow> length (foldName s) = length s"
  by (induction s rule: foldName.induct) (auto simp: ascii_def)

lemma ascii_not_matches:
  "ascii tag \<Longrightarrow> ascii key \<Longrightarrow> length tag \<noteq> length key \<Longrightarrow> \<not> key_matches tag key"
  unfolding key_matches_def using length_foldName by metis

end
