(* ===== verification/Ports.thy ===== *)
theory Ports
  imports Ledger Json
begin

text \<open>
  Package \<open>internal/application/port\<close>: the interfaces between the application layer and the
  infrastructure. Every method of a port is a constructor of \<open>call\<close>, its result a constructor of
  \<open>reply\<close>. The application layer (the saga, the command handler, the relay) is written as a program
  over these calls: \<open>Call c k\<close> performs \<open>c\<close> and continues with \<open>k\<close> on its result. The infrastructure
  (theories \<open>Postgres\<close> and \<open>Runtime\<close>) says what a call does to the world. One definition of a handler
  thus serves for its sequential run and for every interleaving of several handlers, in which a
  call is the unit of atomicity, as a method of a pooled connection is in the code.

  Besides the ports there are the clock, the UUID generator, and the two SQL statements that
  \<open>cmd/outbox-relay\<close> issues itself.
\<close>

section \<open>The bank port\<close>

record BankCallRequest =
  b_TransferID :: TransferID
  b_SourceAccountID :: AccountID
  b_DestAccountID :: AccountID
  b_Amount :: Money
  b_Description :: string

record BankCallResult =
  b_ExternalRef :: string

section \<open>A pending row of the outbox, as the relay scans it\<close>

record outboxRow =
  o_ID :: int
  o_Subject :: string
  o_Payload :: bytes

section \<open>Calls and replies\<close>

datatype call =
    C_Now
  | C_NewUUID
  | C_Transfers_FindByID TransferID
  | C_Transfers_FindByIdempotencyKey string
  | C_Transfers_Save Transfer
  | C_Transfers_UpdateState Transfer
  | C_Accounts_FindByID AccountID
  | C_Accounts_LockForUpdate AccountID
  | C_Accounts_Save Account
  | C_PostEntries "LedgerEntry list"
  | C_GetBalance AccountID Currency
  | C_GetAllEntries
  | C_Events_Append TransferEvent
  | C_Events_FindByTransferID TransferID
  | C_Outbox_Write string "bytes option"
  | C_InitiateTransfer BankCallRequest
  | C_Idempotency_Get string
  | C_Idempotency_SetIfAbsent string bytes time
  | C_Publish string bytes
  | C_Outbox_Pending nat
  | C_Outbox_MarkPublished int

datatype reply =
    R_Time (r_time: time)
  | R_UUID (r_uuid: uuid)
  | R_Err (r_err: "go_error option")
  | R_Transfer (r_transfer: "go_error + Transfer")
  | R_Transfer_opt (r_transfer_opt: "go_error + Transfer option")
  | R_Account (r_account: "go_error + Account")
  | R_Money (r_money: "go_error + Money")
  | R_Entries (r_entries: "go_error + LedgerEntry list")
  | R_Events (r_events: "go_error + TransferEvent list")
  | R_Bank (r_bank: "go_error + BankCallResult")
  | R_Cached (r_cached: "go_error + bytes option")
  | R_Bool (r_bool: "go_error + bool")
  | R_Outbox (r_outbox: "go_error + outboxRow list")

datatype 'r prog = Return 'r | Call call "reply \<Rightarrow> 'r prog"

text \<open>Sequencing: run the first program, then the second on its result.\<close>

primrec prog_bind :: "'a prog \<Rightarrow> ('a \<Rightarrow> 'b prog) \<Rightarrow> 'b prog" where
  "prog_bind (Return x) f = f x"
| "prog_bind (Call c k) f = Call c (\<lambda>r. prog_bind (k r) f)"

section \<open>The methods, each with the type of its result\<close>

definition Now :: "(time \<Rightarrow> 'r prog) \<Rightarrow> 'r prog" where
  "Now k = Call C_Now (\<lambda>r. k (r_time r))"

definition NewUUID :: "(uuid \<Rightarrow> 'r prog) \<Rightarrow> 'r prog" where
  "NewUUID k = Call C_NewUUID (\<lambda>r. k (r_uuid r))"

definition Transfers_FindByID :: "TransferID \<Rightarrow> (go_error + Transfer \<Rightarrow> 'r prog) \<Rightarrow> 'r prog" where
  "Transfers_FindByID i k = Call (C_Transfers_FindByID i) (\<lambda>r. k (r_transfer r))"

definition Transfers_FindByIdempotencyKey ::
  "string \<Rightarrow> (go_error + Transfer option \<Rightarrow> 'r prog) \<Rightarrow> 'r prog" where
  "Transfers_FindByIdempotencyKey key k =
     Call (C_Transfers_FindByIdempotencyKey key) (\<lambda>r. k (r_transfer_opt r))"

definition Transfers_Save :: "Transfer \<Rightarrow> (go_error option \<Rightarrow> 'r prog) \<Rightarrow> 'r prog" where
  "Transfers_Save t k = Call (C_Transfers_Save t) (\<lambda>r. k (r_err r))"

definition Transfers_UpdateState :: "Transfer \<Rightarrow> (go_error option \<Rightarrow> 'r prog) \<Rightarrow> 'r prog" where
  "Transfers_UpdateState t k = Call (C_Transfers_UpdateState t) (\<lambda>r. k (r_err r))"

definition Accounts_FindByID :: "AccountID \<Rightarrow> (go_error + Account \<Rightarrow> 'r prog) \<Rightarrow> 'r prog" where
  "Accounts_FindByID i k = Call (C_Accounts_FindByID i) (\<lambda>r. k (r_account r))"

definition Accounts_LockForUpdate :: "AccountID \<Rightarrow> (go_error + Account \<Rightarrow> 'r prog) \<Rightarrow> 'r prog" where
  "Accounts_LockForUpdate i k = Call (C_Accounts_LockForUpdate i) (\<lambda>r. k (r_account r))"

definition Accounts_Save :: "Account \<Rightarrow> (go_error option \<Rightarrow> 'r prog) \<Rightarrow> 'r prog" where
  "Accounts_Save a k = Call (C_Accounts_Save a) (\<lambda>r. k (r_err r))"

definition PostEntries :: "LedgerEntry list \<Rightarrow> (go_error option \<Rightarrow> 'r prog) \<Rightarrow> 'r prog" where
  "PostEntries es k = Call (C_PostEntries es) (\<lambda>r. k (r_err r))"

definition GetBalance :: "AccountID \<Rightarrow> Currency \<Rightarrow> (go_error + Money \<Rightarrow> 'r prog) \<Rightarrow> 'r prog" where
  "GetBalance a c k = Call (C_GetBalance a c) (\<lambda>r. k (r_money r))"

definition GetAllEntries :: "(go_error + LedgerEntry list \<Rightarrow> 'r prog) \<Rightarrow> 'r prog" where
  "GetAllEntries k = Call C_GetAllEntries (\<lambda>r. k (r_entries r))"

definition Events_Append :: "TransferEvent \<Rightarrow> (go_error option \<Rightarrow> 'r prog) \<Rightarrow> 'r prog" where
  "Events_Append e k = Call (C_Events_Append e) (\<lambda>r. k (r_err r))"

definition Events_FindByTransferID ::
  "TransferID \<Rightarrow> (go_error + TransferEvent list \<Rightarrow> 'r prog) \<Rightarrow> 'r prog" where
  "Events_FindByTransferID i k = Call (C_Events_FindByTransferID i) (\<lambda>r. k (r_events r))"

definition Outbox_Write :: "string \<Rightarrow> bytes option \<Rightarrow> (go_error option \<Rightarrow> 'r prog) \<Rightarrow> 'r prog" where
  "Outbox_Write subject payload k = Call (C_Outbox_Write subject payload) (\<lambda>r. k (r_err r))"

definition InitiateTransfer ::
  "BankCallRequest \<Rightarrow> (go_error + BankCallResult \<Rightarrow> 'r prog) \<Rightarrow> 'r prog" where
  "InitiateTransfer req k = Call (C_InitiateTransfer req) (\<lambda>r. k (r_bank r))"

definition Idempotency_Get :: "string \<Rightarrow> (go_error + bytes option \<Rightarrow> 'r prog) \<Rightarrow> 'r prog" where
  "Idempotency_Get key k = Call (C_Idempotency_Get key) (\<lambda>r. k (r_cached r))"

definition Idempotency_SetIfAbsent ::
  "string \<Rightarrow> bytes \<Rightarrow> time \<Rightarrow> (go_error + bool \<Rightarrow> 'r prog) \<Rightarrow> 'r prog" where
  "Idempotency_SetIfAbsent key v ttl k =
     Call (C_Idempotency_SetIfAbsent key v ttl) (\<lambda>r. k (r_bool r))"

definition Publish :: "string \<Rightarrow> bytes \<Rightarrow> (go_error option \<Rightarrow> 'r prog) \<Rightarrow> 'r prog" where
  "Publish subject payload k = Call (C_Publish subject payload) (\<lambda>r. k (r_err r))"

definition Outbox_Pending :: "nat \<Rightarrow> (go_error + outboxRow list \<Rightarrow> 'r prog) \<Rightarrow> 'r prog" where
  "Outbox_Pending n k = Call (C_Outbox_Pending n) (\<lambda>r. k (r_outbox r))"

definition Outbox_MarkPublished :: "int \<Rightarrow> (go_error option \<Rightarrow> 'r prog) \<Rightarrow> 'r prog" where
  "Outbox_MarkPublished i k = Call (C_Outbox_MarkPublished i) (\<lambda>r. k (r_err r))"

lemmas port_defs = Now_def NewUUID_def Transfers_FindByID_def Transfers_FindByIdempotencyKey_def
  Transfers_Save_def Transfers_UpdateState_def Accounts_FindByID_def Accounts_LockForUpdate_def
  Accounts_Save_def PostEntries_def GetBalance_def GetAllEntries_def Events_Append_def
  Events_FindByTransferID_def Outbox_Write_def InitiateTransfer_def Idempotency_Get_def
  Idempotency_SetIfAbsent_def Publish_def Outbox_Pending_def Outbox_MarkPublished_def

section \<open>What a program may call\<close>

text \<open>
  \<open>all_calls P p\<close>: whatever the replies, every call \<open>p\<close> makes satisfies \<open>P\<close>. It is the guarantee a
  handler gives to the other threads.
\<close>

primrec all_calls :: "(call \<Rightarrow> bool) \<Rightarrow> 'r prog \<Rightarrow> bool" where
  "all_calls P (Return x) = True"
| "all_calls P (Call c k) = (P c \<and> (\<forall>r. all_calls P (k r)))"

lemma all_calls_bind:
  "all_calls P p \<Longrightarrow> (\<And>x. all_calls P (f x)) \<Longrightarrow> all_calls P (prog_bind p f)"
  by (induction p) auto

lemma all_calls_mono: "all_calls P p \<Longrightarrow> (\<And>c. P c \<Longrightarrow> Q c) \<Longrightarrow> all_calls Q p"
  by (induction p) auto

lemma all_calls_map: "all_calls P (map_prog f p) = all_calls P p"
  by (induction p) auto

text \<open>The same fact method by method, as introduction rules for the handlers.\<close>

lemma all_calls_intros:
  "P C_Now \<Longrightarrow> (\<And>t. all_calls P (kt t)) \<Longrightarrow> all_calls P (Now kt)"
  "P C_NewUUID \<Longrightarrow> (\<And>u. all_calls P (ku u)) \<Longrightarrow> all_calls P (NewUUID ku)"
  "P (C_Transfers_FindByID i) \<Longrightarrow> (\<And>x. all_calls P (k1 x)) \<Longrightarrow> all_calls P (Transfers_FindByID i k1)"
  "P (C_Transfers_Save t) \<Longrightarrow> (\<And>x. all_calls P (ke x)) \<Longrightarrow> all_calls P (Transfers_Save t ke)"
  "P (C_Transfers_UpdateState t) \<Longrightarrow> (\<And>x. all_calls P (ke x)) \<Longrightarrow>
     all_calls P (Transfers_UpdateState t ke)"
  "P (C_Accounts_FindByID a) \<Longrightarrow> (\<And>x. all_calls P (ka x)) \<Longrightarrow> all_calls P (Accounts_FindByID a ka)"
  "P (C_Accounts_LockForUpdate a) \<Longrightarrow> (\<And>x. all_calls P (ka x)) \<Longrightarrow>
     all_calls P (Accounts_LockForUpdate a ka)"
  "P (C_PostEntries es) \<Longrightarrow> (\<And>x. all_calls P (ke x)) \<Longrightarrow> all_calls P (PostEntries es ke)"
  "P (C_GetBalance a c) \<Longrightarrow> (\<And>x. all_calls P (km x)) \<Longrightarrow> all_calls P (GetBalance a c km)"
  "P C_GetAllEntries \<Longrightarrow> (\<And>x. all_calls P (kl x)) \<Longrightarrow> all_calls P (GetAllEntries kl)"
  "P (C_Events_Append ev) \<Longrightarrow> (\<And>x. all_calls P (ke x)) \<Longrightarrow> all_calls P (Events_Append ev ke)"
  "P (C_Outbox_Write s b) \<Longrightarrow> (\<And>x. all_calls P (ke x)) \<Longrightarrow> all_calls P (Outbox_Write s b ke)"
  "P (C_InitiateTransfer req) \<Longrightarrow> (\<And>x. all_calls P (kb x)) \<Longrightarrow>
     all_calls P (InitiateTransfer req kb)"
  "P (C_Idempotency_Get key) \<Longrightarrow> (\<And>x. all_calls P (kc x)) \<Longrightarrow>
     all_calls P (Idempotency_Get key kc)"
  "P (C_Idempotency_SetIfAbsent key v ttl) \<Longrightarrow> (\<And>x. all_calls P (ks x)) \<Longrightarrow>
     all_calls P (Idempotency_SetIfAbsent key v ttl ks)"
  "P (C_Publish s p) \<Longrightarrow> (\<And>x. all_calls P (ke x)) \<Longrightarrow> all_calls P (Publish s p ke)"
  "P (C_Outbox_Pending n) \<Longrightarrow> (\<And>x. all_calls P (ko x)) \<Longrightarrow> all_calls P (Outbox_Pending n ko)"
  "P (C_Outbox_MarkPublished z) \<Longrightarrow> (\<And>x. all_calls P (ke x)) \<Longrightarrow>
     all_calls P (Outbox_MarkPublished z ke)"
  by (simp_all add: port_defs)

end
