(* ===== verification/Postgres.thy ===== *)
theory Postgres
  imports Ports
begin

text \<open>
  Packages \<open>internal/infrastructure/postgres\<close> and the tables of \<open>migrations/\<close>. A table is the list of
  its rows, oldest first; a column of SQL type UUID holds a \<open>uuid\<close>, and the text the driver sends or
  returns for it is its canonical text \<open>uuid_String\<close>. A statement is a function on the database that
  checks the constraints the migrations declare; \<open>sql_exec\<close> runs one statement on a pooled
  connection, which is its own transaction. A statement may fail for reasons of the connection:
  the list \<open>faults\<close> decides, statement by statement, whether it runs normally, is not executed, or
  is executed while its result is lost. Every theorem quantifies over that list.

  \<open>SELECT ... FOR UPDATE\<close> on a pooled connection takes its row lock for the length of that one
  statement, so \<open>LockForUpdate\<close> leaves no trace in the state.
\<close>

section \<open>Tables\<close>

text \<open>A column of type TIMESTAMPTZ counts microseconds. The driver drops the rest of the nanoseconds of a
  Go time on the way in, and gives a time without that rest on the way out.\<close>

type_synonym timestamptz = int

definition pg_time :: "time \<Rightarrow> timestamptz" where
  "pg_time t = t div 1000"

definition go_time :: "timestamptz \<Rightarrow> time" where
  "go_time ts = ts * 1000"

lemma pg_time_go_time [simp]: "pg_time (go_time ts) = ts"
  by (simp add: pg_time_def go_time_def)

lemma go_time_pg_time: "go_time (pg_time t) \<le> t \<and> t < go_time (pg_time t) + 1000"
  using div_mult_mod_eq [of t 1000] pos_mod_bound [of 1000 t] by (simp add: pg_time_def go_time_def) linarith

record account_row =
  ac_id :: uuid
  ac_owner_name :: string
  ac_currency :: string
  ac_status :: Status
  ac_created_at :: timestamptz
  ac_updated_at :: timestamptz

record ledger_row =
  lr_id :: uuid
  lr_transaction_id :: uuid
  lr_account_id :: uuid
  lr_entry_type :: EntryType
  lr_amount :: int64
  lr_currency :: string
  lr_description :: string
  lr_created_at :: timestamptz

record transfer_row =
  tr_id :: uuid
  tr_idempotency_key :: string
  tr_source_account_id :: uuid
  tr_dest_account_id :: uuid
  tr_amount :: int64
  tr_currency :: string
  tr_state :: State
  tr_external_ref :: string
  tr_failure_reason :: string
  tr_debit_posted :: bool
  tr_credit_posted :: bool
  tr_created_at :: timestamptz
  tr_updated_at :: timestamptz
  tr_version :: int

record event_row =
  er_id :: string
  er_transfer_id :: uuid
  er_event_type :: EventType
  er_state :: State
  er_amount :: int64
  er_currency :: string
  er_occurred_at :: timestamptz
  er_metadata :: "(string \<times> string) list"

datatype outbox_status = OutboxPending | OutboxPublished

record outbox_table_row =
  ob_id :: int
  ob_subject :: string
  ob_payload :: bytes
  ob_status :: outbox_status
  ob_created_at :: timestamptz
  ob_published_at :: "timestamptz option"

record database =
  accounts :: "account_row list"
  ledger_entries :: "ledger_row list"
  transfers :: "transfer_row list"
  transfer_events :: "event_row list"
  outbox :: "outbox_table_row list"
  outbox_seq :: int

section \<open>Column types and driver errors\<close>

text \<open>The number of characters of a UTF-8 string: its bytes that do not continue a character.\<close>

definition nchars :: "string \<Rightarrow> nat" where
  "nchars s = length (filter (\<lambda>c. (of_char c :: nat) div 64 \<noteq> 2) s)"

definition rstrip :: "string \<Rightarrow> string" where
  "rstrip s = rev (dropWhile (\<lambda>c. c = CHR '' '') (rev s))"

text \<open>\<open>CHAR(3)\<close>: shorter values are padded with blanks, longer ones refused unless only blanks
  exceed the length; comparison ignores trailing blanks.\<close>

definition char3 :: "string \<Rightarrow> string option" where
  "char3 s =
     (let s' = rstrip s in
      if nchars s = 3 then Some s
      else if nchars s' \<le> 3 then Some (s' @ replicate (3 - nchars s') (CHR '' ''))
      else None)"

definition pg_error :: "string \<Rightarrow> go_error" where
  "pg_error m = Errorf m None"

definition driver_error :: go_error where
  "driver_error = Errorf ''connection error'' None"

definition int32_range :: "int \<Rightarrow> bool" where
  "int32_range i \<longleftrightarrow> - (2 ^ 31) \<le> i \<and> i < 2 ^ 31"

section \<open>Statements on a pooled connection\<close>

datatype fault = NoFault | NotExecuted | ResultLost

record pg =
  db :: database
  faults :: "fault list"

definition next_fault :: "'x pg_scheme \<Rightarrow> fault \<times> 'x pg_scheme" where
  "next_fault w = (case faults w of [] \<Rightarrow> (NoFault, w) | f # fs \<Rightarrow> (f, w\<lparr>faults := fs\<rparr>))"

definition sql_exec ::
  "(database \<Rightarrow> go_error + ('r \<times> database)) \<Rightarrow> 'x pg_scheme \<Rightarrow> (go_error + 'r) \<times> 'x pg_scheme" where
  "sql_exec stmt w =
     (let (f, w1) = next_fault w in
      case f of
        NotExecuted \<Rightarrow> (Inl driver_error, w1)
      | ResultLost \<Rightarrow>
          (case stmt (db w1) of
             Inl e \<Rightarrow> (Inl driver_error, w1)
           | Inr (r, d) \<Rightarrow> (Inl driver_error, w1\<lparr>db := d\<rparr>))
      | NoFault \<Rightarrow>
          (case stmt (db w1) of
             Inl e \<Rightarrow> (Inl e, w1)
           | Inr (r, d) \<Rightarrow> (Inr r, w1\<lparr>db := d\<rparr>)))"

text \<open>An error result wrapped with its context, or nil.\<close>

definition as_error :: "string \<Rightarrow> (go_error + 'r) \<Rightarrow> go_error option" where
  "as_error ctx r = (case r of Inl e \<Rightarrow> Some (wrap ctx e) | Inr x \<Rightarrow> None)"

definition plain_error :: "(go_error + 'r) \<Rightarrow> go_error option" where
  "plain_error r = (case r of Inl e \<Rightarrow> Some e | Inr x \<Rightarrow> None)"

section \<open>account\_repo.go\<close>

definition has_account :: "database \<Rightarrow> uuid \<Rightarrow> bool" where
  "has_account d u \<longleftrightarrow> u \<in> ac_id ` set (accounts d)"

definition scanAccount :: "uuid_lib \<Rightarrow> (go_error + account_row) \<Rightarrow> go_error + Account" where
  "scanAccount U row =
     (case row of
        Inl err \<Rightarrow>
          if errors_Is err (LibErr pgx_ErrNoRows)
          then Inl (Sentinel (AccountErr ErrAccountNotFound))
          else Inl (wrap ''scan account'' err)
      | Inr r \<Rightarrow>
          (case ParseAccountID U (uuid_String U (ac_id r)) of
             Inl err \<Rightarrow> Inl err
           | Inr accountID \<Rightarrow> Inr
               \<lparr>a_ID = accountID, a_OwnerName = ac_owner_name r, a_Currency = ac_currency r,
                a_Status = ac_status r, a_CreatedAt = go_time (ac_created_at r),
                a_UpdatedAt = go_time (ac_updated_at r)\<rparr>))"

definition select_account :: "AccountID \<Rightarrow> database \<Rightarrow> go_error + (account_row \<times> database)" where
  "select_account i d =
     (case find (\<lambda>r. ac_id r = acc_uuid i) (accounts d) of
        None \<Rightarrow> Inl (Sentinel (LibErr pgx_ErrNoRows))
      | Some r \<Rightarrow> Inr (r, d))"

definition AccountRepo_FindByID ::
  "uuid_lib \<Rightarrow> AccountID \<Rightarrow> 'x pg_scheme \<Rightarrow> (go_error + Account) \<times> 'x pg_scheme" where
  "AccountRepo_FindByID U i w =
     (let (row, w') = sql_exec (select_account i) w in (scanAccount U row, w'))"

definition AccountRepo_LockForUpdate ::
  "uuid_lib \<Rightarrow> AccountID \<Rightarrow> 'x pg_scheme \<Rightarrow> (go_error + Account) \<times> 'x pg_scheme" where
  "AccountRepo_LockForUpdate U i w =
     (let (row, w') = sql_exec (select_account i) w in (scanAccount U row, w'))"

definition upsert_account :: "Account \<Rightarrow> database \<Rightarrow> go_error + (unit \<times> database)" where
  "upsert_account a d =
     (case char3 (a_Currency a) of
        None \<Rightarrow> Inl (pg_error ''value too long for type character(3)'')
      | Some c \<Rightarrow>
          if has_account d (acc_uuid (a_ID a))
          then Inr ((), d\<lparr>accounts := map (\<lambda>r. if ac_id r = acc_uuid (a_ID a)
                 then r\<lparr>ac_owner_name := a_OwnerName a, ac_status := a_Status a,
                        ac_updated_at := pg_time (a_UpdatedAt a)\<rparr>
                 else r) (accounts d)\<rparr>)
          else Inr ((), d\<lparr>accounts := accounts d @
                 [\<lparr>ac_id = acc_uuid (a_ID a), ac_owner_name = a_OwnerName a, ac_currency = c,
                   ac_status = a_Status a, ac_created_at = pg_time (a_CreatedAt a),
                   ac_updated_at = pg_time (a_UpdatedAt a)\<rparr>]\<rparr>))"

definition AccountRepo_Save :: "Account \<Rightarrow> 'x pg_scheme \<Rightarrow> go_error option \<times> 'x pg_scheme" where
  "AccountRepo_Save a w = (let (r, w') = sql_exec (upsert_account a) w in (plain_error r, w'))"

section \<open>ledger\_repo.go\<close>

definition entry_row :: "string \<Rightarrow> LedgerEntry \<Rightarrow> ledger_row" where
  "entry_row c e =
     \<lparr>lr_id = le_uuid (e_ID e), lr_transaction_id = tx_uuid (e_TransactionID e),
      lr_account_id = acc_uuid (e_AccountID e), lr_entry_type = e_Type e,
      lr_amount = m_Amount (e_Amount e), lr_currency = c,
      lr_description = e_Description e, lr_created_at = pg_time (e_CreatedAt e)\<rparr>"

definition insert_ledger_entry :: "LedgerEntry \<Rightarrow> database \<Rightarrow> go_error + database" where
  "insert_ledger_entry e d =
     (case char3 (m_Currency (e_Amount e)) of
        None \<Rightarrow> Inl (pg_error ''value too long for type character(3)'')
      | Some c \<Rightarrow>
          if sint (m_Amount (e_Amount e)) < 0
          then Inl (pg_error ''check constraint: amount >= 0'')
          else if le_uuid (e_ID e) \<in> lr_id ` set (ledger_entries d)
          then Inl (pg_error ''duplicate key: ledger_entries.id'')
          else if \<not> has_account d (acc_uuid (e_AccountID e))
          then Inl (pg_error ''foreign key: ledger_entries.account_id'')
          else Inr (d\<lparr>ledger_entries := ledger_entries d @ [entry_row c e]\<rparr>))"

text \<open>The loop of \<open>tx.Exec\<close> inside the transaction, on the transaction's own view of the data.\<close>

fun tx_inserts ::
  "LedgerEntry list \<Rightarrow> 'x pg_scheme \<Rightarrow> database \<Rightarrow> (go_error + database) \<times> 'x pg_scheme" where
  "tx_inserts [] w d = (Inr d, w)"
| "tx_inserts (e # es) w d =
     (let (f, w1) = next_fault w in
      if f \<noteq> NoFault then (Inl (wrap ''insert ledger entry'' driver_error), w1)
      else case insert_ledger_entry e d of
             Inl err \<Rightarrow> (Inl (wrap ''insert ledger entry'' err), w1)
           | Inr d' \<Rightarrow> tx_inserts es w1 d')"

text \<open>\<open>Begin\<close>, the inserts, \<open>Commit\<close>; the deferred \<open>Rollback\<close> discards the view on every error.\<close>

definition LedgerRepo_PostEntries ::
  "LedgerEntry list \<Rightarrow> 'x pg_scheme \<Rightarrow> go_error option \<times> 'x pg_scheme" where
  "LedgerRepo_PostEntries es w =
     (let (f, w1) = next_fault w in
      if f \<noteq> NoFault then (Some (wrap ''begin transaction'' driver_error), w1)
      else let (r, w2) = tx_inserts es w1 (db w1) in
        case r of
          Inl err \<Rightarrow> (Some err, w2)
        | Inr d \<Rightarrow>
            (let (g, w3) = next_fault w2 in
             case g of
               NotExecuted \<Rightarrow> (Some driver_error, w3)
             | ResultLost \<Rightarrow> (Some driver_error, w3\<lparr>db := d\<rparr>)
             | NoFault \<Rightarrow> (None, w3\<lparr>db := d\<rparr>)))"

definition row_value :: "ledger_row \<Rightarrow> int" where
  "row_value r =
     (if lr_entry_type r = EntryTypeCredit then sint (lr_amount r) else - sint (lr_amount r))"

definition sum_balance :: "AccountID \<Rightarrow> Currency \<Rightarrow> database \<Rightarrow> int" where
  "sum_balance a c d =
     sum_list (map row_value
       (filter (\<lambda>r. lr_account_id r = acc_uuid a \<and> rstrip (lr_currency r) = rstrip c)
          (ledger_entries d)))"

text \<open>\<open>SUM\<close> of a BIGINT is an exact NUMERIC; scanning it into an \<open>int64\<close> fails out of range.\<close>

definition select_balance ::
  "AccountID \<Rightarrow> Currency \<Rightarrow> database \<Rightarrow> go_error + (int64 \<times> database)" where
  "select_balance a c d =
     (if int64_range (sum_balance a c d) then Inr (word_of_int (sum_balance a c d), d)
      else Inl (pg_error ''can't scan into dest: greater than maximum value for int64''))"

definition LedgerRepo_GetBalance ::
  "uuid_lib \<Rightarrow> AccountID \<Rightarrow> Currency \<Rightarrow> 'x pg_scheme \<Rightarrow> (go_error + Money) \<times> 'x pg_scheme" where
  "LedgerRepo_GetBalance U a c w =
     (let (r, w') = sql_exec (select_balance a c) w in
      (case r of
         Inl err \<Rightarrow> Inl (wrap (''get balance for '' @ AccountID_String U a) err)
       | Inr balance \<Rightarrow> Inr \<lparr>m_Amount = balance, m_Currency = c\<rparr>, w'))"

text \<open>A parse error of an identity is dropped: the zero value stays.\<close>

definition row_entry :: "uuid_lib \<Rightarrow> ledger_row \<Rightarrow> LedgerEntry" where
  "row_entry U r =
     \<lparr>e_ID = (case ParseLedgerEntryID U (uuid_String U (lr_id r)) of
                Inl err \<Rightarrow> LedgerEntryID 0 | Inr i \<Rightarrow> i),
      e_TransactionID = (case ParseTransactionID U (uuid_String U (lr_transaction_id r)) of
                Inl err \<Rightarrow> TransactionID 0 | Inr i \<Rightarrow> i),
      e_AccountID = (case ParseAccountID U (uuid_String U (lr_account_id r)) of
                Inl err \<Rightarrow> AccountID 0 | Inr i \<Rightarrow> i),
      e_Type = lr_entry_type r,
      e_Amount = \<lparr>m_Amount = lr_amount r, m_Currency = lr_currency r\<rparr>,
      e_Description = lr_description r, e_CreatedAt = go_time (lr_created_at r)\<rparr>"

definition LedgerRepo_GetAllEntries ::
  "uuid_lib \<Rightarrow> 'x pg_scheme \<Rightarrow> (go_error + LedgerEntry list) \<times> 'x pg_scheme" where
  "LedgerRepo_GetAllEntries U w =
     (let (r, w') = sql_exec (\<lambda>d. Inr (sort_key lr_created_at (ledger_entries d), d)) w in
      (case r of
         Inl err \<Rightarrow> Inl (wrap ''query ledger entries'' err)
       | Inr rows \<Rightarrow> Inr (map (row_entry U) rows), w'))"

section \<open>transfer\_repo.go\<close>

definition transfer_row_of :: "string \<Rightarrow> Transfer \<Rightarrow> transfer_row" where
  "transfer_row_of c t =
     \<lparr>tr_id = tr_uuid (t_ID t), tr_idempotency_key = t_IdempotencyKey t,
      tr_source_account_id = acc_uuid (t_SourceAccountID t),
      tr_dest_account_id = acc_uuid (t_DestAccountID t),
      tr_amount = m_Amount (t_Amount t), tr_currency = c, tr_state = t_State t,
      tr_external_ref = t_ExternalRef t, tr_failure_reason = t_FailureReason t,
      tr_debit_posted = t_DebitPosted t, tr_credit_posted = t_CreditPosted t,
      tr_created_at = pg_time (t_CreatedAt t), tr_updated_at = pg_time (t_UpdatedAt t),
      tr_version = t_Version t\<rparr>"

definition insert_transfer :: "Transfer \<Rightarrow> database \<Rightarrow> go_error + (unit \<times> database)" where
  "insert_transfer t d =
     (case char3 (m_Currency (t_Amount t)) of
        None \<Rightarrow> Inl (pg_error ''value too long for type character(3)'')
      | Some c \<Rightarrow>
          if \<not> int32_range (t_Version t) then Inl (pg_error ''integer out of range'')
          else if sint (m_Amount (t_Amount t)) \<le> 0
          then Inl (pg_error ''check constraint: amount > 0'')
          else if tr_uuid (t_ID t) \<in> tr_id ` set (transfers d)
          then Inl (pg_error ''duplicate key: transfers.id'')
          else if t_IdempotencyKey t \<in> tr_idempotency_key ` set (transfers d)
          then Inl (pg_error ''duplicate key: transfers.idempotency_key'')
          else if \<not> has_account d (acc_uuid (t_SourceAccountID t)) \<or>
                  \<not> has_account d (acc_uuid (t_DestAccountID t))
          then Inl (pg_error ''foreign key: transfers account'')
          else Inr ((), d\<lparr>transfers := transfers d @ [transfer_row_of c t]\<rparr>))"

definition TransferRepo_Save :: "Transfer \<Rightarrow> 'x pg_scheme \<Rightarrow> go_error option \<times> 'x pg_scheme" where
  "TransferRepo_Save t w =
     (let (r, w') = sql_exec (insert_transfer t) w in (as_error ''insert transfer'' r, w'))"

definition scanTransfer :: "uuid_lib \<Rightarrow> (go_error + transfer_row) \<Rightarrow> go_error + Transfer" where
  "scanTransfer U row =
     (case row of
        Inl err \<Rightarrow> Inl err
      | Inr r \<Rightarrow>
          (case ParseTransferID U (uuid_String U (tr_id r)) of
             Inl err \<Rightarrow> Inl err
           | Inr transferID \<Rightarrow>
          (case ParseAccountID U (uuid_String U (tr_source_account_id r)) of
             Inl err \<Rightarrow> Inl err
           | Inr srcAccountID \<Rightarrow>
          (case ParseAccountID U (uuid_String U (tr_dest_account_id r)) of
             Inl err \<Rightarrow> Inl err
           | Inr dstAccountID \<Rightarrow> Inr
               \<lparr>t_ID = transferID, t_IdempotencyKey = tr_idempotency_key r,
                t_SourceAccountID = srcAccountID, t_DestAccountID = dstAccountID,
                t_Amount = \<lparr>m_Amount = tr_amount r, m_Currency = tr_currency r\<rparr>,
                t_State = tr_state r, t_ExternalRef = tr_external_ref r,
                t_FailureReason = tr_failure_reason r, t_DebitPosted = tr_debit_posted r,
                t_CreditPosted = tr_credit_posted r, t_CreatedAt = go_time (tr_created_at r),
                t_UpdatedAt = go_time (tr_updated_at r), t_Version = tr_version r\<rparr>))))"

definition select_transfer ::
  "(transfer_row \<Rightarrow> bool) \<Rightarrow> database \<Rightarrow> go_error + (transfer_row \<times> database)" where
  "select_transfer P d =
     (case find P (transfers d) of
        None \<Rightarrow> Inl (Sentinel (LibErr pgx_ErrNoRows)) | Some r \<Rightarrow> Inr (r, d))"

definition TransferRepo_FindByID ::
  "uuid_lib \<Rightarrow> TransferID \<Rightarrow> 'x pg_scheme \<Rightarrow> (go_error + Transfer) \<times> 'x pg_scheme" where
  "TransferRepo_FindByID U i w =
     (let (row, w') = sql_exec (select_transfer (\<lambda>r. tr_id r = tr_uuid i)) w in
      (case scanTransfer U row of
         Inl err \<Rightarrow>
           if errors_Is err (LibErr pgx_ErrNoRows)
           then Inl (Sentinel (TransferErr ErrTransferNotFound)) else Inl err
       | Inr t \<Rightarrow> Inr t, w'))"

definition TransferRepo_FindByIdempotencyKey ::
  "uuid_lib \<Rightarrow> string \<Rightarrow> 'x pg_scheme \<Rightarrow> (go_error + Transfer option) \<times> 'x pg_scheme" where
  "TransferRepo_FindByIdempotencyKey U key w =
     (let (row, w') = sql_exec (select_transfer (\<lambda>r. tr_idempotency_key r = key)) w in
      (case scanTransfer U row of
         Inl err \<Rightarrow> if errors_Is err (LibErr pgx_ErrNoRows) then Inr None else Inl err
       | Inr t \<Rightarrow> Inr (Some t), w'))"

definition update_hits :: "Transfer \<Rightarrow> transfer_row \<Rightarrow> bool" where
  "update_hits t r \<longleftrightarrow> tr_id r = tr_uuid (t_ID t) \<and> tr_version r = t_Version t - 1"

definition update_row :: "Transfer \<Rightarrow> transfer_row \<Rightarrow> transfer_row" where
  "update_row t r =
     r\<lparr>tr_state := t_State t, tr_external_ref := t_ExternalRef t,
       tr_failure_reason := t_FailureReason t, tr_debit_posted := t_DebitPosted t,
       tr_credit_posted := t_CreditPosted t, tr_updated_at := pg_time (t_UpdatedAt t),
       tr_version := t_Version t\<rparr>"

text \<open>The number of rows affected, and the new table.\<close>

definition update_transfer :: "Transfer \<Rightarrow> database \<Rightarrow> go_error + (nat \<times> database)" where
  "update_transfer t d =
     (if \<not> int32_range (t_Version t) \<or> \<not> int32_range (t_Version t - 1)
      then Inl (pg_error ''integer out of range'')
      else Inr (length (filter (update_hits t) (transfers d)),
        d\<lparr>transfers := map (\<lambda>r. if update_hits t r then update_row t r else r) (transfers d)\<rparr>))"

definition TransferRepo_UpdateState ::
  "uuid_lib \<Rightarrow> Transfer \<Rightarrow> 'x pg_scheme \<Rightarrow> go_error option \<times> 'x pg_scheme" where
  "TransferRepo_UpdateState U t w =
     (let (r, w') = sql_exec (update_transfer t) w in
      (case r of
         Inl err \<Rightarrow> Some (wrap ''update transfer'' err)
       | Inr rowsAffected \<Rightarrow>
           if rowsAffected = 0
           then Some (Errorf (''optimistic lock conflict on transfer '' @
                              TransferID_String U (t_ID t)) None)
           else None, w'))"

section \<open>event\_store.go and outbox\_writer.go\<close>

definition insert_event :: "TransferEvent \<Rightarrow> database \<Rightarrow> go_error + (unit \<times> database)" where
  "insert_event e d =
     (case char3 (m_Currency (ev_Amount e)) of
        None \<Rightarrow> Inl (pg_error ''value too long for type character(3)'')
      | Some c \<Rightarrow>
          if ev_EventID e \<in> er_id ` set (transfer_events d)
          then Inl (pg_error ''duplicate key: transfer_events.id'')
          else if tr_uuid (ev_TransferID e) \<notin> tr_id ` set (transfers d)
          then Inl (pg_error ''foreign key: transfer_events.transfer_id'')
          else Inr ((), d\<lparr>transfer_events := transfer_events d @
                 [\<lparr>er_id = ev_EventID e, er_transfer_id = tr_uuid (ev_TransferID e),
                   er_event_type = ev_Type e, er_state = ev_State e,
                   er_amount = m_Amount (ev_Amount e), er_currency = c,
                   er_occurred_at = pg_time (ev_OccurredAt e), er_metadata = ev_Metadata e\<rparr>]\<rparr>))"

definition EventStore_Append :: "TransferEvent \<Rightarrow> 'x pg_scheme \<Rightarrow> go_error option \<times> 'x pg_scheme" where
  "EventStore_Append e w = (let (r, w') = sql_exec (insert_event e) w in (plain_error r, w'))"

text \<open>The loop over the rows stops at the first identity that does not parse.\<close>

fun scan_events :: "uuid_lib \<Rightarrow> event_row list \<Rightarrow> go_error + TransferEvent list" where
  "scan_events U [] = Inr []"
| "scan_events U (r # rs) =
     (case ParseTransferID U (uuid_String U (er_transfer_id r)) of
        Inl err \<Rightarrow> Inl err
      | Inr txID \<Rightarrow>
          map_sum id (Cons
            \<lparr>ev_EventID = er_id r, ev_TransferID = txID, ev_Type = er_event_type r,
             ev_State = er_state r,
             ev_Amount = \<lparr>m_Amount = er_amount r, m_Currency = er_currency r\<rparr>,
             ev_OccurredAt = go_time (er_occurred_at r), ev_Metadata = er_metadata r\<rparr>) (scan_events U rs))"

definition EventStore_FindByTransferID ::
  "uuid_lib \<Rightarrow> TransferID \<Rightarrow> 'x pg_scheme \<Rightarrow> (go_error + TransferEvent list) \<times> 'x pg_scheme" where
  "EventStore_FindByTransferID U i w =
     (let (r, w') = sql_exec (\<lambda>d. Inr (sort_key er_occurred_at
            (filter (\<lambda>r. er_transfer_id r = tr_uuid i) (transfer_events d)), d)) w in
      (case r of
         Inl err \<Rightarrow> Inl (wrap ''query transfer events'' err)
       | Inr rows \<Rightarrow> scan_events U rows, w'))"

text \<open>The identity column takes the next value of its sequence; a nil payload is NULL.\<close>

definition insert_outbox ::
  "time \<Rightarrow> string \<Rightarrow> bytes option \<Rightarrow> database \<Rightarrow> go_error + (unit \<times> database)" where
  "insert_outbox now subject payload d =
     (case payload of
        None \<Rightarrow> Inl (pg_error ''null value in column payload'')
      | Some p \<Rightarrow> Inr ((), d\<lparr>outbox := outbox d @
          [\<lparr>ob_id = outbox_seq d, ob_subject = subject, ob_payload = p, ob_status = OutboxPending,
            ob_created_at = pg_time now, ob_published_at = None\<rparr>],
          outbox_seq := outbox_seq d + 1\<rparr>))"

definition OutboxWriter_Write ::
  "time \<Rightarrow> string \<Rightarrow> bytes option \<Rightarrow> 'x pg_scheme \<Rightarrow> go_error option \<times> 'x pg_scheme" where
  "OutboxWriter_Write now subject payload w =
     (let (r, w') = sql_exec (insert_outbox now subject payload) w in
      (as_error ''write to outbox'' r, w'))"

section \<open>The statements of cmd/outbox-relay\<close>

definition pending_rows :: "nat \<Rightarrow> database \<Rightarrow> outboxRow list" where
  "pending_rows batchSize d =
     map (\<lambda>r. \<lparr>o_ID = ob_id r, o_Subject = ob_subject r, o_Payload = ob_payload r\<rparr>)
       (take batchSize (sort_key ob_id (filter (\<lambda>r. ob_status r = OutboxPending) (outbox d))))"

definition relay_pending ::
  "nat \<Rightarrow> 'x pg_scheme \<Rightarrow> (go_error + outboxRow list) \<times> 'x pg_scheme" where
  "relay_pending batchSize w =
     (let (r, w') = sql_exec (\<lambda>d. Inr (pending_rows batchSize d, d)) w in
      (map_sum (wrap ''query outbox'') id r, w'))"

definition mark_published :: "time \<Rightarrow> int \<Rightarrow> database \<Rightarrow> database" where
  "mark_published now i d =
     d\<lparr>outbox := map (\<lambda>r. if ob_id r = i
         then r\<lparr>ob_status := OutboxPublished, ob_published_at := Some (pg_time now)\<rparr> else r) (outbox d)\<rparr>"

definition relay_mark :: "time \<Rightarrow> int \<Rightarrow> 'x pg_scheme \<Rightarrow> go_error option \<times> 'x pg_scheme" where
  "relay_mark now i w =
     (let (r, w') = sql_exec (\<lambda>d. Inr ((), mark_published now i d)) w in (plain_error r, w'))"

end
