(* ===== verification/External.thy ===== *)
theory External
  imports Ports
begin

text \<open>
  The adapters of \<open>internal/infrastructure/redis\<close> and \<open>internal/infrastructure/nats/publisher.go\<close>.
  The Redis client, the JetStream client and the bank gateway that \<open>main\<close> wires in are not fixed
  here: they are the fields of the parameter record \<open>services\<close>, operations on a state \<open>'s\<close> of the
  outside world. Every theorem of the development holds for all of them unless it names a
  hypothesis about one.
\<close>

record 's services =
  ext_bank :: "BankCallRequest \<Rightarrow> 's \<Rightarrow> (go_error + BankCallResult) \<times> 's"
  ext_redis_GET :: "string \<Rightarrow> 's \<Rightarrow> (go_error + bytes) \<times> 's"
  ext_redis_SETNX :: "string \<Rightarrow> bytes \<Rightarrow> time \<Rightarrow> 's \<Rightarrow> (go_error + bool) \<times> 's"
  ext_js_Publish :: "string \<Rightarrow> bytes \<Rightarrow> 's \<Rightarrow> go_error option \<times> 's"

section \<open>idempotency\_store.go\<close>

definition prefixed :: "string \<Rightarrow> string" where
  "prefixed key = ''idempotency:'' @ key"

definition IdempotencyStore_Get ::
  "'s services \<Rightarrow> string \<Rightarrow> 's \<Rightarrow> (go_error + bytes option) \<times> 's" where
  "IdempotencyStore_Get E key s =
     (let (r, s') = ext_redis_GET E (prefixed key) s in
      (case r of
         Inl err \<Rightarrow>
           if errors_Is err (LibErr goredis_Nil) then Inr None
           else Inl (wrap (''redis get '' @ key) err)
       | Inr val \<Rightarrow> Inr (Some val), s'))"

definition IdempotencyStore_SetIfAbsent ::
  "'s services \<Rightarrow> string \<Rightarrow> bytes \<Rightarrow> time \<Rightarrow> 's \<Rightarrow> (go_error + bool) \<times> 's" where
  "IdempotencyStore_SetIfAbsent E key value ttl s =
     (let (r, s') = ext_redis_SETNX E (prefixed key) value ttl s in
      (map_sum (wrap (''redis setnx '' @ key)) id r, s'))"

section \<open>publisher.go\<close>

definition Publisher_Publish ::
  "'s services \<Rightarrow> string \<Rightarrow> bytes \<Rightarrow> 's \<Rightarrow> go_error option \<times> 's" where
  "Publisher_Publish E subject payload s =
     (let (err, s') = ext_js_Publish E subject payload s in
      (map_option (wrap (''jetstream publish to '' @ subject)) err, s'))"

lemma prefixed_inject [simp]: "prefixed k = prefixed k' \<longleftrightarrow> k = k'"
  by (simp add: prefixed_def)

end
