(* ===== verification/Runtime.thy ===== *)
theory Runtime
  imports Postgres External
begin

text \<open>
  The world a program runs in, and the two ways it runs. \<open>perform\<close> executes one port call: the
  repositories on the database, the adapters on the outside services, the clock and the UUID
  generator. \<open>run\<close> executes a whole program without interruption; \<open>pool_step\<close> lets one thread of a
  pool perform its next call, so \<open>pool_steps\<close> reaches exactly the states of every interleaving of any
  number of workers and requests. A thread that crashes is one that is not scheduled again.
\<close>

section \<open>The world\<close>

text \<open>\<open>clock n\<close> and \<open>rand n\<close> are the results of the n-th reading of the clock and of the n-th UUID
  drawn.\<close>

record 's world = pg +
  rand :: "nat \<Rightarrow> uuid"
  drawn :: nat
  clock :: "nat \<Rightarrow> time"
  ticks :: nat
  ext :: 's

definition read_clock :: "'s world \<Rightarrow> time \<times> 's world" where
  "read_clock w = (clock w (ticks w), w\<lparr>ticks := Suc (ticks w)\<rparr>)"

definition draw_uuid :: "'s world \<Rightarrow> uuid \<times> 's world" where
  "draw_uuid w = (rand w (drawn w), w\<lparr>drawn := Suc (drawn w)\<rparr>)"

section \<open>One call\<close>

definition on_ext :: "('s \<Rightarrow> 'r \<times> 's) \<Rightarrow> 's world \<Rightarrow> 'r \<times> 's world" where
  "on_ext f w = (let (r, s) = f (ext w) in (r, w\<lparr>ext := s\<rparr>))"

primrec perform :: "uuid_lib \<Rightarrow> 's services \<Rightarrow> call \<Rightarrow> 's world \<Rightarrow> reply \<times> 's world" where
  "perform U E C_Now w = apfst R_Time (read_clock w)"
| "perform U E C_NewUUID w = apfst R_UUID (draw_uuid w)"
| "perform U E (C_Transfers_FindByID i) w = apfst R_Transfer (TransferRepo_FindByID U i w)"
| "perform U E (C_Transfers_FindByIdempotencyKey key) w =
     apfst R_Transfer_opt (TransferRepo_FindByIdempotencyKey U key w)"
| "perform U E (C_Transfers_Save t) w = apfst R_Err (TransferRepo_Save t w)"
| "perform U E (C_Transfers_UpdateState t) w = apfst R_Err (TransferRepo_UpdateState U t w)"
| "perform U E (C_Accounts_FindByID i) w = apfst R_Account (AccountRepo_FindByID U i w)"
| "perform U E (C_Accounts_LockForUpdate i) w = apfst R_Account (AccountRepo_LockForUpdate U i w)"
| "perform U E (C_Accounts_Save a) w = apfst R_Err (AccountRepo_Save a w)"
| "perform U E (C_PostEntries es) w = apfst R_Err (LedgerRepo_PostEntries es w)"
| "perform U E (C_GetBalance a c) w = apfst R_Money (LedgerRepo_GetBalance U a c w)"
| "perform U E C_GetAllEntries w = apfst R_Entries (LedgerRepo_GetAllEntries U w)"
| "perform U E (C_Events_Append e) w = apfst R_Err (EventStore_Append e w)"
| "perform U E (C_Events_FindByTransferID i) w = apfst R_Events (EventStore_FindByTransferID U i w)"
| "perform U E (C_Outbox_Write subject payload) w =
     (let (now, w1) = read_clock w in apfst R_Err (OutboxWriter_Write now subject payload w1))"
| "perform U E (C_InitiateTransfer req) w = apfst R_Bank (on_ext (ext_bank E req) w)"
| "perform U E (C_Idempotency_Get key) w = apfst R_Cached (on_ext (IdempotencyStore_Get E key) w)"
| "perform U E (C_Idempotency_SetIfAbsent key v ttl) w =
     apfst R_Bool (on_ext (IdempotencyStore_SetIfAbsent E key v ttl) w)"
| "perform U E (C_Publish subject payload) w =
     apfst R_Err (on_ext (Publisher_Publish E subject payload) w)"
| "perform U E (C_Outbox_Pending n) w = apfst R_Outbox (relay_pending n w)"
| "perform U E (C_Outbox_MarkPublished i) w =
     (let (now, w1) = read_clock w in apfst R_Err (relay_mark now i w1))"

section \<open>A whole program\<close>

primrec run :: "uuid_lib \<Rightarrow> 's services \<Rightarrow> 'r prog \<Rightarrow> 's world \<Rightarrow> 'r \<times> 's world" where
  "run U E (Return x) w = (x, w)"
| "run U E (Call c k) w = (let (r, w') = perform U E c w in run U E (k r) w')"

lemma run_bind:
  "run U E (prog_bind p f) w = (let (x, w') = run U E p w in run U E (f x) w')"
  by (induction p arbitrary: w) (auto simp: Let_def split_def)

lemma run_map: "run U E (map_prog f p) w = (f (fst (run U E p w)), snd (run U E p w))"
  by (induction p arbitrary: w) (simp_all add: split_def Let_def)

section \<open>Pools of threads\<close>

text \<open>A thread is a program whose result nobody waits for.\<close>

definition thread :: "'r prog \<Rightarrow> unit prog" where
  "thread p = map_prog (\<lambda>_. ()) p"

type_synonym 's system = "unit prog list \<times> 's world"

inductive pool_step :: "uuid_lib \<Rightarrow> 's services \<Rightarrow> 's system \<Rightarrow> 's system \<Rightarrow> bool"
  for U :: uuid_lib and E :: "'s services" where
  pool_call: "i < length ps \<Longrightarrow> ps ! i = Call c k \<Longrightarrow> perform U E c w = (r, w') \<Longrightarrow>
     pool_step U E (ps, w) (ps[i := k r], w')"

inductive pool_steps :: "uuid_lib \<Rightarrow> 's services \<Rightarrow> 's system \<Rightarrow> 's system \<Rightarrow> bool"
  for U :: uuid_lib and E :: "'s services" where
  pool_refl: "pool_steps U E s s"
| pool_next: "pool_steps U E s s' \<Longrightarrow> pool_step U E s' s'' \<Longrightarrow> pool_steps U E s s''"

inductive_cases pool_stepE: "pool_step U E (ps, w) s'"

text \<open>The same steps driven by a schedule, for evaluation: entry \<open>i\<close> lets thread \<open>i\<close> move, and a
  thread that has returned or does not exist is skipped.\<close>

fun run_schedule :: "uuid_lib \<Rightarrow> 's services \<Rightarrow> nat list \<Rightarrow> 's system \<Rightarrow> 's system" where
  "run_schedule U E [] s = s"
| "run_schedule U E (i # is) (ps, w) =
     (if i < length ps then
        (case ps ! i of
           Return x \<Rightarrow> run_schedule U E is (ps, w)
         | Call c k \<Rightarrow>
             (let (r, w') = perform U E c w in run_schedule U E is (ps[i := k r], w')))
      else run_schedule U E is (ps, w))"

lemma pool_steps_trans:
  "pool_steps U E s' s'' \<Longrightarrow> pool_steps U E s s' \<Longrightarrow> pool_steps U E s s''"
  by (induction rule: pool_steps.induct) (auto intro: pool_steps.intros)

lemma pool_step_one: "pool_step U E s s' \<Longrightarrow> pool_steps U E s s'"
  by (blast intro: pool_steps.intros)

lemma run_schedule_steps: "pool_steps U E s (run_schedule U E is s)"
proof (induction U E "is" s rule: run_schedule.induct)
  case (1 U E s)
  show ?case by (simp add: pool_steps.pool_refl)
next
  case (2 U E i "is" ps w)
  show ?case
  proof (cases "i < length ps")
    case False
    with 2 show ?thesis by simp
  next
    case True
    show ?thesis
    proof (cases "ps ! i")
      case (Return x)
      with True 2 show ?thesis by simp
    next
      case (Call c k)
      obtain r w' where p: "perform U E c w = (r, w')" by fastforce
      have "pool_step U E (ps, w) (ps[i := k r], w')"
        using True Call p by (rule pool_step.pool_call)
      moreover have "pool_steps U E (ps[i := k r], w') (run_schedule U E is (ps[i := k r], w'))"
        using 2(2) [OF True Call p [symmetric] refl] by simp
      ultimately show ?thesis
        using True Call p by (auto intro: pool_steps_trans pool_step_one)
    qed
  qed
qed

section \<open>Invariants of the world\<close>

text \<open>
  The interface between the infrastructure and the handlers: an invariant \<open>I\<close> of the world that a
  call keeps whenever the call satisfies \<open>ok\<close>. A handler that only makes such calls keeps the
  invariant, alone and in any pool.
\<close>

locale world_invariant =
  fixes U :: uuid_lib and E :: "'s services"
    and I :: "'s world \<Rightarrow> bool" and ok :: "call \<Rightarrow> bool"
  assumes perform_keeps: "I w \<Longrightarrow> ok c \<Longrightarrow> I (snd (perform U E c w))"
begin

lemma run_keeps: "all_calls ok p \<Longrightarrow> I w \<Longrightarrow> I (snd (run U E p w))"
proof (induction p arbitrary: w)
  case (Return x)
  then show ?case by simp
next
  case (Call c k)
  obtain r w' where p: "perform U E c w = (r, w')" by fastforce
  from Call.prems p have "I w'" using perform_keeps [of w c] by simp
  with Call p show ?case by auto
qed

lemma pool_step_keeps:
  assumes "pool_step U E (ps, w) (ps', w')" and "list_all (all_calls ok) ps" and "I w"
  shows "list_all (all_calls ok) ps' \<and> I w'"
proof -
  from assms(1) obtain i c k r where i: "i < length ps" "ps ! i = Call c k"
    and p: "perform U E c w = (r, w')" and ps': "ps' = ps[i := k r]"
    by (auto elim: pool_stepE)
  have thr: "all_calls ok (Call c k)"
    using assms(2) i by (metis list_all_length)
  then have "I w'" using perform_keeps [OF assms(3), of c] p by simp
  moreover have "list_all (all_calls ok) ps'"
    using assms(2) i thr by (auto simp: ps' list_all_length nth_list_update)
  ultimately show ?thesis by simp
qed

lemma pool_steps_keep:
  assumes "pool_steps U E s s'" and "list_all (all_calls ok) (fst s)" and "I (snd s)"
  shows "list_all (all_calls ok) (fst s') \<and> I (snd s')"
  using assms
proof (induction rule: pool_steps.induct)
  case (pool_refl s)
  then show ?case by simp
next
  case (pool_next s s' s'')
  then have "list_all (all_calls ok) (fst s') \<and> I (snd s')" by blast
  with pool_next.hyps(2) pool_step_keeps [of "fst s'" "snd s'" "fst s''" "snd s''"] show ?case
    by simp
qed

end

end
