(* ===== verification/Saga.thy ===== *)
theory Saga
  imports Runtime
begin

text \<open>
  Package \<open>internal/application/saga\<close>: the orchestrator of a transfer. \<open>Execute\<close> loads the transfer
  and runs the one step registered for its state; each step is a program over the ports, statement
  by statement as in \<open>transfer_saga.go\<close>. Log lines are left out. A pointer receiver \<open>t\<close> that Go
  mutates is a value passed on: the steps hand the updated transfer to the calls that follow.
\<close>

section \<open>Helpers\<close>

definition event_payload :: "uuid_lib \<Rightarrow> Transfer \<Rightarrow> EventType \<Rightarrow> time \<Rightarrow> go_error + bytes" where
  "event_payload U t typ ts =
     map_sum id (\<lambda>j. JSON (JObj
       [(''transfer_id'', JStr (TransferID_String U (t_ID t))),
        (''event_type'', JStr (event_string typ)),
        (''state'', JStr (state_string (t_State t))),
        (''timestamp'', j)])) (time_MarshalJSON ts)"

definition publishEvent :: "uuid_lib \<Rightarrow> Transfer \<Rightarrow> EventType \<Rightarrow> go_error option prog" where
  "publishEvent U t typ =
     NewUUID (\<lambda>u. Now (\<lambda>now.
     Events_Append (NewEvent U u now t typ) (\<lambda>err.
       case err of
         Some e \<Rightarrow> Return (Some (wrap ''append event'' e))
       | None \<Rightarrow> Now (\<lambda>ts.
           case event_payload U t typ ts of
             Inl e \<Rightarrow> Return (Some (wrap ''marshal event payload'' e))
           | Inr payload \<Rightarrow> Outbox_Write (event_string typ) (Some payload) Return))))"

definition failWith :: "uuid_lib \<Rightarrow> Transfer \<Rightarrow> string \<Rightarrow> go_error option prog" where
  "failWith U t reason =
     (let t = t\<lparr>t_FailureReason := reason\<rparr> in
      if t_State t = StateFailed then Return None
      else Now (\<lambda>now.
        case Transition now t StateFailed of
          Inl err \<Rightarrow> Return (Some err)
        | Inr t \<Rightarrow> Transfers_UpdateState t (\<lambda>err.
            case err of
              Some e \<Rightarrow> Return (Some (wrap ''update state to failed'' e))
            | None \<Rightarrow> publishEvent U t EventTransferFailed)))"

text \<open>\<open>ledger.NewPosting(ledger.NewTransactionID(), src, dst, amount, d)\<close> with the values it draws.\<close>

definition newPosting ::
  "AccountID \<Rightarrow> AccountID \<Rightarrow> Money \<Rightarrow> string \<Rightarrow> (go_error + Posting \<Rightarrow> 'r prog) \<Rightarrow> 'r prog" where
  "newPosting src dst amount d k =
     NewUUID (\<lambda>tx. Now (\<lambda>now. NewUUID (\<lambda>u1. NewUUID (\<lambda>u2.
       k (NewPosting now u1 u2 (NewTransactionID tx) src dst amount d)))))"

section \<open>Compensation\<close>

definition reverseDebit :: "uuid_lib \<Rightarrow> Transfer \<Rightarrow> go_error option prog" where
  "reverseDebit U t =
     newPosting (FloatAccounts (m_Currency (t_Amount t))) (t_SourceAccountID t) (t_Amount t)
       (''REVERSAL debit transfer/'' @ TransferID_String U (t_ID t)) (\<lambda>posting.
       case posting of
         Inl err \<Rightarrow> Return (Some (wrap ''build debit reversal'' err))
       | Inr p \<Rightarrow> PostEntries (Entries p) Return)"

definition reverseCredit :: "uuid_lib \<Rightarrow> Transfer \<Rightarrow> go_error option prog" where
  "reverseCredit U t =
     newPosting (t_DestAccountID t) (FloatAccounts (m_Currency (t_Amount t))) (t_Amount t)
       (''REVERSAL credit transfer/'' @ TransferID_String U (t_ID t)) (\<lambda>posting.
       case posting of
         Inl err \<Rightarrow> Return (Some (wrap ''build credit reversal'' err))
       | Inr p \<Rightarrow> PostEntries (Entries p) Return)"

definition compensate :: "uuid_lib \<Rightarrow> Transfer \<Rightarrow> go_error option prog" where
  "compensate U t =
     prog_bind (if t_CreditPosted t then reverseCredit U t else Return None) (\<lambda>err.
       case err of
         Some e \<Rightarrow> Return (Some e)
       | None \<Rightarrow>
           prog_bind (if t_DebitPosted t then reverseDebit U t else Return None) (\<lambda>err.
             case err of
               Some e \<Rightarrow> Return (Some e)
             | None \<Rightarrow> failWith U t (t_FailureReason t)))"

definition startCompensation :: "uuid_lib \<Rightarrow> Transfer \<Rightarrow> string \<Rightarrow> go_error option prog" where
  "startCompensation U t reason =
     (let t = t\<lparr>t_FailureReason := reason\<rparr> in
      Now (\<lambda>now.
        case Transition now t StateCompensating of
          Inl err \<Rightarrow> Return (Some err)
        | Inr t \<Rightarrow> Transfers_UpdateState t (\<lambda>err.
            case err of
              Some e \<Rightarrow> Return (Some (wrap ''update state'' e))
            | None \<Rightarrow> compensate U t)))"

section \<open>The steps\<close>

text \<open>\<open>t.Transition(next)\<close>, \<open>UpdateState\<close> and the event: how every forward step ends.\<close>

definition advance :: "uuid_lib \<Rightarrow> Transfer \<Rightarrow> State \<Rightarrow> EventType \<Rightarrow> go_error option prog" where
  "advance U t next' typ =
     Now (\<lambda>now.
       case Transition now t next' of
         Inl err \<Rightarrow> Return (Some err)
       | Inr t \<Rightarrow> Transfers_UpdateState t (\<lambda>err.
           case err of
             Some e \<Rightarrow> Return (Some (wrap ''update state'' e))
           | None \<Rightarrow> publishEvent U t typ))"

definition reserveDebit :: "uuid_lib \<Rightarrow> Transfer \<Rightarrow> go_error option prog" where
  "reserveDebit U t =
     Accounts_LockForUpdate (t_SourceAccountID t) (\<lambda>src.
     case src of
       Inl err \<Rightarrow> Return (Some (wrap ''lock source account'' err))
     | Inr src \<Rightarrow>
     (case CanTransact U src of
       Some err \<Rightarrow> failWith U t (Error err)
     | None \<Rightarrow>
     GetBalance (t_SourceAccountID t) (m_Currency (t_Amount t)) (\<lambda>balance.
     case balance of
       Inl err \<Rightarrow> Return (Some (wrap ''get balance'' err))
     | Inr balance \<Rightarrow>
     if sint (m_Amount balance) < sint (m_Amount (t_Amount t))
     then failWith U t (Error (Sentinel (MoneyErr ErrInsufficientFunds)))
     else
     newPosting (t_SourceAccountID t) (FloatAccounts (m_Currency (t_Amount t))) (t_Amount t)
       (''debit reserve transfer/'' @ TransferID_String U (t_ID t)) (\<lambda>posting.
     case posting of
       Inl err \<Rightarrow> Return (Some (wrap ''build debit posting'' err))
     | Inr p \<Rightarrow>
     PostEntries (Entries p) (\<lambda>err.
     case err of
       Some e \<Rightarrow> Return (Some (wrap ''post debit entries'' e))
     | None \<Rightarrow> advance U (t\<lparr>t_DebitPosted := True\<rparr>) StateDebited EventTransferDebited)))))"

definition callBank :: "uuid_lib \<Rightarrow> Transfer \<Rightarrow> go_error option prog" where
  "callBank U t =
     InitiateTransfer
       \<lparr>b_TransferID = t_ID t, b_SourceAccountID = t_SourceAccountID t,
        b_DestAccountID = t_DestAccountID t, b_Amount = t_Amount t,
        b_Description = ''transfer/'' @ TransferID_String U (t_ID t)\<rparr> (\<lambda>result.
     case result of
       Inl err \<Rightarrow> startCompensation U t (Error err)
     | Inr res \<Rightarrow>
         advance U (t\<lparr>t_ExternalRef := b_ExternalRef res\<rparr>) StateBankCalled EventTransferBankCalled)"

definition postCredit :: "uuid_lib \<Rightarrow> Transfer \<Rightarrow> go_error option prog" where
  "postCredit U t =
     newPosting (FloatAccounts (m_Currency (t_Amount t))) (t_DestAccountID t) (t_Amount t)
       (''credit transfer/'' @ TransferID_String U (t_ID t)) (\<lambda>posting.
     case posting of
       Inl err \<Rightarrow> Return (Some (wrap ''build credit posting'' err))
     | Inr p \<Rightarrow>
     PostEntries (Entries p) (\<lambda>err.
     case err of
       Some e \<Rightarrow> Return (Some (wrap ''post credit entries'' e))
     | None \<Rightarrow> advance U (t\<lparr>t_CreditPosted := True\<rparr>) StateCredited EventTransferCredited))"

definition complete :: "uuid_lib \<Rightarrow> Transfer \<Rightarrow> go_error option prog" where
  "complete U t = advance U t StateCompleted EventTransferCompleted"

section \<open>The step map and the dispatcher\<close>

record saga_step =
  s_execute :: "Transfer \<Rightarrow> go_error option prog"
  s_compensate :: "(Transfer \<Rightarrow> go_error option prog) option"

primrec steps :: "State \<Rightarrow> uuid_lib \<Rightarrow> saga_step option" where
  "steps StatePending U = Some \<lparr>s_execute = reserveDebit U, s_compensate = Some (reverseDebit U)\<rparr>"
| "steps StateDebited U = Some \<lparr>s_execute = callBank U, s_compensate = None\<rparr>"
| "steps StateBankCalled U = Some \<lparr>s_execute = postCredit U, s_compensate = Some (reverseCredit U)\<rparr>"
| "steps StateCredited U = Some \<lparr>s_execute = complete U, s_compensate = None\<rparr>"
| "steps StateCompensating U = Some \<lparr>s_execute = compensate U, s_compensate = None\<rparr>"
| "steps StateCompleted U = None"
| "steps StateFailed U = None"

definition dispatch :: "uuid_lib \<Rightarrow> Transfer \<Rightarrow> go_error option prog" where
  "dispatch U t = (case steps (t_State t) U of None \<Rightarrow> Return None | Some st \<Rightarrow> s_execute st t)"

definition Execute :: "uuid_lib \<Rightarrow> TransferID \<Rightarrow> go_error option prog" where
  "Execute U i =
     Transfers_FindByID i (\<lambda>r.
       case r of
         Inl err \<Rightarrow> Return (Some (wrap ''load transfer'' err))
       | Inr t \<Rightarrow> dispatch U t)"

lemmas saga_defs = publishEvent_def failWith_def newPosting_def reverseDebit_def reverseCredit_def
  compensate_def startCompensation_def advance_def reserveDebit_def callBank_def postCredit_def
  complete_def

section \<open>What the saga asks of the ledger\<close>

text \<open>Every write to the ledger is the pair of entries of one posting.\<close>

fun balanced_call :: "call \<Rightarrow> bool" where
  "balanced_call (C_PostEntries es) = posting_entries es"
| "balanced_call c = True"

lemma publishEvent_calls:
  assumes "P C_NewUUID" and "P C_Now" and "\<And>e. P (C_Events_Append e)"
    and "\<And>s p. P (C_Outbox_Write s p)"
  shows "all_calls P (publishEvent U t typ)"
  unfolding publishEvent_def using assms
  by (auto intro!: all_calls_intros split: option.split sum.split)

lemma newPosting_calls:
  assumes "P C_NewUUID" and "P C_Now"
    and "\<And>e. all_calls P (k (Inl e))"
    and "\<And>p. posting_ok p \<Longrightarrow> e_AccountID (p_Debit p) = src \<Longrightarrow> e_AccountID (p_Credit p) = dst \<Longrightarrow>
      e_Amount (p_Debit p) = amount \<Longrightarrow> e_Description (p_Debit p) = d \<Longrightarrow> all_calls P (k (Inr p))"
  shows "all_calls P (newPosting src dst amount d k)"
proof -
  have "all_calls P (k (NewPosting now u1 u2 tx src dst amount d))" for now u1 u2 tx
    using assms(3,4) NewPosting_fields [of now u1 u2 tx src dst amount d]
    by (cases "NewPosting now u1 u2 tx src dst amount d") auto
  then show ?thesis
    unfolding newPosting_def using assms(1,2) by (auto intro!: all_calls_intros)
qed

lemma advance_balanced: "all_calls balanced_call (advance U t s typ)"
  unfolding advance_def
  by (auto intro!: all_calls_intros publishEvent_calls split: option.split sum.split)

lemma failWith_balanced: "all_calls balanced_call (failWith U t reason)"
  unfolding failWith_def Let_def
  by (auto intro!: all_calls_intros publishEvent_calls split: option.split sum.split)

lemma reverse_balanced:
  "all_calls balanced_call (reverseDebit U t)" "all_calls balanced_call (reverseCredit U t)"
  unfolding reverseDebit_def reverseCredit_def
  by (auto intro!: all_calls_intros newPosting_calls)

lemma compensate_balanced: "all_calls balanced_call (compensate U t)"
  unfolding compensate_def
  by (auto intro!: all_calls_bind reverse_balanced failWith_balanced split: option.split)

lemma startCompensation_balanced: "all_calls balanced_call (startCompensation U t reason)"
  unfolding startCompensation_def Let_def
  by (auto intro!: all_calls_intros compensate_balanced split: option.split sum.split)

lemma reserveDebit_balanced: "all_calls balanced_call (reserveDebit U t)"
  unfolding reserveDebit_def
  by (auto intro!: all_calls_intros newPosting_calls advance_balanced failWith_balanced
      split: option.split sum.split)

lemma callBank_balanced: "all_calls balanced_call (callBank U t)"
  unfolding callBank_def
  by (auto intro!: all_calls_intros advance_balanced startCompensation_balanced split: sum.split)

lemma postCredit_balanced: "all_calls balanced_call (postCredit U t)"
  unfolding postCredit_def
  by (auto intro!: all_calls_intros newPosting_calls advance_balanced split: option.split)

lemma dispatch_balanced: "all_calls balanced_call (dispatch U t)"
  by (cases "t_State t")
    (simp_all add: dispatch_def complete_def reserveDebit_balanced callBank_balanced
      postCredit_balanced advance_balanced compensate_balanced)

lemma Execute_balanced: "all_calls balanced_call (Execute U i)"
  unfolding Execute_def by (auto intro!: all_calls_intros dispatch_balanced split: sum.split)

end
