(* ===== verification/Postgres_Laws.thy ===== *)
theory Postgres_Laws
  imports Postgres
begin

text \<open>
  What the repositories do to the database, whatever the faults. \<open>db_write c d d'\<close> collects the
  changes a port call can make to the tables, fault or not. The invariants of the schema
  (\<open>db_wf\<close>: keys, references and checks of the migrations), of the ledger (its per-currency totals,
  its being append-only) and the compare-and-swap law of the transfers table are proved once
  against it.
\<close>

section \<open>Statements and faults\<close>

lemma next_fault_db [simp]: "db (snd (next_fault w)) = db w"
  by (simp add: next_fault_def split: list.split)

lemma next_fault_NoFault: "faults w = [] \<Longrightarrow> next_fault w = (NoFault, w)"
  by (simp add: next_fault_def)

lemma next_fault_more [simp]: "pg.more (snd (next_fault w)) = pg.more w"
  by (simp add: next_fault_def split: list.split)

lemma sql_exec_db:
  "db (snd (sql_exec stmt w)) = db w \<or> (\<exists>r. stmt (db w) = Inr (r, db (snd (sql_exec stmt w))))"
  using next_fault_db [of w]
  by (auto simp: sql_exec_def split_def Let_def split: fault.split sum.split)

lemma sql_exec_Inr:
  "fst (sql_exec stmt w) = Inr r \<Longrightarrow> stmt (db w) = Inr (r, db (snd (sql_exec stmt w)))"
  using next_fault_db [of w]
  by (auto simp: sql_exec_def split_def Let_def split: fault.splits sum.splits)

lemma sql_exec_nofault:
  "faults w = [] \<Longrightarrow> sql_exec stmt w =
     (case stmt (db w) of Inl e \<Rightarrow> (Inl e, w) | Inr (r, d) \<Rightarrow> (Inr r, w\<lparr>db := d\<rparr>))"
  by (simp add: sql_exec_def next_fault_NoFault)

lemma sql_exec_next:
  assumes "faults w = NoFault # fs"
  shows "sql_exec stmt w =
    (case stmt (db w) of
       Inl e \<Rightarrow> (Inl e, w\<lparr>faults := fs\<rparr>) | Inr (r, d) \<Rightarrow> (Inr r, w\<lparr>faults := fs, db := d\<rparr>))"
  using assms by (simp add: sql_exec_def next_fault_def)

lemma sql_exec_refused:
  "faults w = NotExecuted # fs \<Longrightarrow> sql_exec stmt w = (Inl driver_error, w\<lparr>faults := fs\<rparr>)"
  by (simp add: sql_exec_def next_fault_def)

lemma sql_exec_query:
  "(\<And>d r d'. stmt d = Inr (r, d') \<Longrightarrow> d' = d) \<Longrightarrow> db (snd (sql_exec stmt w)) = db w"
  using sql_exec_db [of stmt w] by auto

section \<open>The ledger transaction\<close>

fun insert_all :: "LedgerEntry list \<Rightarrow> database \<Rightarrow> go_error + database" where
  "insert_all [] d = Inr d"
| "insert_all (e # es) d =
     (case insert_ledger_entry e d of Inl err \<Rightarrow> Inl err | Inr d' \<Rightarrow> insert_all es d')"

lemma tx_inserts_Inr:
  "fst (tx_inserts es w d) = Inr d' \<Longrightarrow> insert_all es d = Inr d'"
  by (induction es arbitrary: w d) (auto simp: Let_def split_def split: if_splits sum.splits)

lemma tx_inserts_db [simp]: "db (snd (tx_inserts es w d)) = db w"
  by (induction es arbitrary: w d) (auto simp: Let_def split_def split: if_splits sum.splits)

lemma tx_inserts_nofault:
  "faults w = [] \<Longrightarrow> tx_inserts es w d =
     (map_sum (wrap ''insert ledger entry'') id (insert_all es d), w)"
  by (induction es arbitrary: d) (auto simp: next_fault_NoFault split: sum.splits)

text \<open>A posting is all or nothing, also when the connection fails in the middle of it.\<close>

lemma PostEntries_db:
  "db (snd (LedgerRepo_PostEntries es w)) = db w \<or>
   insert_all es (db w) = Inr (db (snd (LedgerRepo_PostEntries es w)))"
proof -
  let ?w1 = "snd (next_fault w)"
  have "db (snd (next_fault (snd (tx_inserts es ?w1 (db w))))) = db w" by simp
  then show ?thesis
    using tx_inserts_Inr [of es ?w1 "db w"]
    by (auto simp: LedgerRepo_PostEntries_def Let_def split_def split: sum.splits fault.splits)
qed

lemma PostEntries_None:
  "fst (LedgerRepo_PostEntries es w) = None \<Longrightarrow>
   insert_all es (db w) = Inr (db (snd (LedgerRepo_PostEntries es w)))"
  using tx_inserts_Inr [of es "snd (next_fault w)" "db w"]
  by (auto simp: LedgerRepo_PostEntries_def Let_def split_def
      split: sum.splits fault.splits if_splits)

lemma PostEntries_nofault:
  "faults w = [] \<Longrightarrow> LedgerRepo_PostEntries es w =
     (case insert_all es (db w) of
        Inl err \<Rightarrow> (Some (wrap ''insert ledger entry'' err), w)
      | Inr d \<Rightarrow> (None, w\<lparr>db := d\<rparr>))"
  by (auto simp: LedgerRepo_PostEntries_def next_fault_NoFault tx_inserts_nofault
      split: sum.split)

lemma insert_ledger_entry_Inr:
  "insert_ledger_entry e d = Inr d' \<longleftrightarrow>
     (\<exists>c. char3 (m_Currency (e_Amount e)) = Some c \<and>
        0 \<le> sint (m_Amount (e_Amount e)) \<and> le_uuid (e_ID e) \<notin> lr_id ` set (ledger_entries d) \<and>
        has_account d (acc_uuid (e_AccountID e)) \<and>
        d' = d\<lparr>ledger_entries := ledger_entries d @ [entry_row c e]\<rparr>)"
  by (auto simp: insert_ledger_entry_def split: option.splits)

text \<open>The rows a list of entries becomes.\<close>

definition entry_rows :: "LedgerEntry list \<Rightarrow> ledger_row list" where
  "entry_rows es = map (\<lambda>e. entry_row (the (char3 (m_Currency (e_Amount e)))) e) es"

lemma insert_all_Inr:
  "insert_all es d = Inr d' \<Longrightarrow>
     d' = d\<lparr>ledger_entries := ledger_entries d @ entry_rows es\<rparr>"
proof (induction es arbitrary: d)
  case Nil
  then show ?case by (simp add: entry_rows_def)
next
  case (Cons e es)
  then obtain d1 where d1: "insert_ledger_entry e d = Inr d1" and rest: "insert_all es d1 = Inr d'"
    by (auto split: sum.splits)
  then show ?case
    using Cons.IH [OF rest] by (auto simp: entry_rows_def insert_ledger_entry_Inr)
qed

section \<open>Sums over the ledger table\<close>

definition table_total :: "string \<Rightarrow> database \<Rightarrow> int" where
  "table_total c d =
     sum_list (map row_value (filter (\<lambda>r. lr_currency r = c) (ledger_entries d)))"

lemma row_value_entry_row [simp]: "row_value (entry_row c e) = entry_value e"
  by (cases "e_Type e") (simp_all add: row_value_def entry_row_def entry_value_def)

lemma table_total_posting:
  assumes "posting_entries es" and "insert_all es d = Inr d'"
  shows "table_total c d' = table_total c d"
proof -
  obtain p where "posting_ok p" and "es = Entries p" using assms(1) by (rule posting_entriesE)
  then show ?thesis
    using insert_all_Inr [OF assms(2)]
    by (simp add: table_total_def entry_rows_def Entries_def posting_ok_def entry_value_def
        entry_row_def row_value_def)
qed

section \<open>The schema\<close>

definition db_wf :: "database \<Rightarrow> bool" where
  "db_wf d \<longleftrightarrow>
     distinct (map ac_id (accounts d)) \<and>
     distinct (map lr_id (ledger_entries d)) \<and>
     list_all (\<lambda>r. 0 \<le> sint (lr_amount r) \<and> has_account d (lr_account_id r)) (ledger_entries d) \<and>
     distinct (map tr_id (transfers d)) \<and>
     distinct (map tr_idempotency_key (transfers d)) \<and>
     list_all (\<lambda>r. 0 < sint (tr_amount r) \<and> has_account d (tr_source_account_id r) \<and>
        has_account d (tr_dest_account_id r)) (transfers d) \<and>
     distinct (map er_id (transfer_events d)) \<and>
     list_all (\<lambda>r. er_transfer_id r \<in> tr_id ` set (transfers d)) (transfer_events d) \<and>
     sorted_wrt (<) (map ob_id (outbox d)) \<and>
     list_all (\<lambda>r. ob_id r < outbox_seq d) (outbox d)"

definition empty_db :: database where
  "empty_db = \<lparr>accounts = [], ledger_entries = [], transfers = [], transfer_events = [],
     outbox = [], outbox_seq = 1\<rparr>"

lemma empty_db_wf: "db_wf empty_db"
  by (simp add: db_wf_def empty_db_def)

lemma has_account_cong: "map ac_id (accounts d') = map ac_id (accounts d) \<Longrightarrow>
    has_account d' u = has_account d u"
  unfolding has_account_def by (metis list.set_map)

lemma has_account_frame [simp]:
  "has_account (d\<lparr>ledger_entries := x1\<rparr>) = has_account d"
  "has_account (d\<lparr>transfers := x2\<rparr>) = has_account d"
  "has_account (d\<lparr>transfer_events := x3\<rparr>) = has_account d"
  "has_account (d\<lparr>outbox := x4, outbox_seq := x5\<rparr>) = has_account d"
  "has_account (d\<lparr>outbox := x4\<rparr>) = has_account d"
  by (simp_all add: has_account_def fun_eq_iff)

subsection \<open>What a call may write\<close>

inductive db_write :: "call \<Rightarrow> database \<Rightarrow> database \<Rightarrow> bool" where
  write_none: "db_write c d d"
| write_account: "upsert_account a d = Inr ((), d') \<Longrightarrow> db_write (C_Accounts_Save a) d d'"
| write_ledger: "insert_all es d = Inr d' \<Longrightarrow> db_write (C_PostEntries es) d d'"
| write_save: "insert_transfer t d = Inr ((), d') \<Longrightarrow> db_write (C_Transfers_Save t) d d'"
| write_update: "update_transfer t d = Inr (n, d') \<Longrightarrow> db_write (C_Transfers_UpdateState t) d d'"
| write_event: "insert_event e d = Inr ((), d') \<Longrightarrow> db_write (C_Events_Append e) d d'"
| write_outbox: "insert_outbox now s p d = Inr ((), d') \<Longrightarrow> db_write (C_Outbox_Write s p) d d'"
| write_mark: "db_write (C_Outbox_MarkPublished i) d (mark_published now i d)"

inductive_cases db_write_ledgerE: "db_write (C_PostEntries es) d d'"
inductive_cases db_write_updateE: "db_write (C_Transfers_UpdateState t) d d'"
inductive_cases db_write_saveE: "db_write (C_Transfers_Save t) d d'"

subsection \<open>The statements keep the schema\<close>

lemma insert_ledger_entry_wf:
  "db_wf d \<Longrightarrow> insert_ledger_entry e d = Inr d' \<Longrightarrow> db_wf d'"
  by (auto simp: db_wf_def insert_ledger_entry_Inr entry_row_def)

lemma insert_all_wf: "insert_all es d = Inr d' \<Longrightarrow> db_wf d \<Longrightarrow> db_wf d'"
  by (induction es arbitrary: d) (auto split: sum.splits dest: insert_ledger_entry_wf)

lemma insert_transfer_Inr:
  "insert_transfer t d = Inr ((), d') \<longleftrightarrow>
     (\<exists>c. char3 (m_Currency (t_Amount t)) = Some c \<and> int32_range (t_Version t) \<and>
        0 < sint (m_Amount (t_Amount t)) \<and> tr_uuid (t_ID t) \<notin> tr_id ` set (transfers d) \<and>
        t_IdempotencyKey t \<notin> tr_idempotency_key ` set (transfers d) \<and>
        has_account d (acc_uuid (t_SourceAccountID t)) \<and>
        has_account d (acc_uuid (t_DestAccountID t)) \<and>
        d' = d\<lparr>transfers := transfers d @ [transfer_row_of c t]\<rparr>)"
  by (auto simp: insert_transfer_def split: option.splits)

lemma insert_transfer_wf:
  "db_wf d \<Longrightarrow> insert_transfer t d = Inr ((), d') \<Longrightarrow> db_wf d'"
  by (auto simp: db_wf_def insert_transfer_Inr transfer_row_of_def list_all_iff)

lemma update_row_frame [simp]:
  "tr_id (update_row t r) = tr_id r" "tr_idempotency_key (update_row t r) = tr_idempotency_key r"
  "tr_source_account_id (update_row t r) = tr_source_account_id r"
  "tr_dest_account_id (update_row t r) = tr_dest_account_id r"
  "tr_amount (update_row t r) = tr_amount r" "tr_currency (update_row t r) = tr_currency r"
  "tr_created_at (update_row t r) = tr_created_at r"
  "tr_state (update_row t r) = t_State t" "tr_version (update_row t r) = t_Version t"
  "tr_external_ref (update_row t r) = t_ExternalRef t"
  "tr_failure_reason (update_row t r) = t_FailureReason t"
  "tr_debit_posted (update_row t r) = t_DebitPosted t"
  "tr_credit_posted (update_row t r) = t_CreditPosted t"
  "tr_updated_at (update_row t r) = pg_time (t_UpdatedAt t)"
  by (simp_all add: update_row_def)

text \<open>The table an update leaves.\<close>

abbreviation updated :: "Transfer \<Rightarrow> transfer_row list \<Rightarrow> transfer_row list" where
  "updated t rs \<equiv> map (\<lambda>r. if update_hits t r then update_row t r else r) rs"

lemma update_transfer_Inr:
  "update_transfer t d = Inr (n, d') \<Longrightarrow>
     n = length (filter (update_hits t) (transfers d)) \<and>
     d' = d\<lparr>transfers := updated t (transfers d)\<rparr>"
  by (auto simp: update_transfer_def split: if_splits)

lemma update_refused: "\<not> int32_range (t_Version t) \<Longrightarrow> \<exists>e. update_transfer t d = Inl e"
  by (simp add: update_transfer_def)

lemma updated_keys [simp]:
  "map tr_id (updated t rs) = map tr_id rs"
  "map tr_idempotency_key (updated t rs) = map tr_idempotency_key rs"
  by (simp_all add: map_key_update del: map_map)

lemma updated_ids: "tr_id ` set (updated t rs) = tr_id ` set rs"
  using arg_cong [OF updated_keys(1) [of t rs], of set] by (simp only: list.set_map)

lemma update_transfer_wf:
  assumes "db_wf d" and "update_transfer t d = Inr (n, d')"
  shows "db_wf d'"
proof -
  have d': "d' = d\<lparr>transfers := updated t (transfers d)\<rparr>"
    using update_transfer_Inr [OF assms(2)] by simp
  have "list_all (\<lambda>r. 0 < sint (tr_amount r) \<and> has_account d (tr_source_account_id r) \<and>
      has_account d (tr_dest_account_id r)) (updated t (transfers d))"
    using assms(1) by (auto simp: db_wf_def list_all_iff)
  with assms(1) show ?thesis
    unfolding db_wf_def d' by (simp add: updated_ids del: set_map map_map)
qed

lemma upsert_account_ids:
  assumes "upsert_account a d = Inr ((), d')"
  shows "map ac_id (accounts d') =
    map ac_id (accounts d) @ (if has_account d (acc_uuid (a_ID a)) then [] else [acc_uuid (a_ID a)])"
    and "ledger_entries d' = ledger_entries d" and "transfers d' = transfers d"
    and "transfer_events d' = transfer_events d" and "outbox d' = outbox d"
    and "outbox_seq d' = outbox_seq d"
  using assms by (auto simp: upsert_account_def split: option.splits if_splits)

lemma upsert_account_has:
  assumes "upsert_account a d = Inr ((), d')" and "has_account d u"
  shows "has_account d' u"
proof -
  have "set (map ac_id (accounts d)) \<subseteq> set (map ac_id (accounts d'))"
    using upsert_account_ids(1) [OF assms(1)] by auto
  with assms(2) show ?thesis by (auto simp: has_account_def)
qed

lemma upsert_account_wf:
  assumes "db_wf d" and "upsert_account a d = Inr ((), d')"
  shows "db_wf d'"
proof -
  have "distinct (map ac_id (accounts d'))"
    using assms(1) upsert_account_ids(1) [OF assms(2)] by (auto simp: db_wf_def has_account_def)
  moreover note upsert_account_ids(2-) [OF assms(2)]
  ultimately show ?thesis
    using assms(1) upsert_account_has [OF assms(2)]
    by (auto simp: db_wf_def list_all_iff simp del: distinct_map)
qed

lemma insert_event_wf: "db_wf d \<Longrightarrow> insert_event e d = Inr ((), d') \<Longrightarrow> db_wf d'"
  by (auto simp: db_wf_def insert_event_def list_all_iff split: option.splits if_splits)

lemma insert_outbox_wf: "db_wf d \<Longrightarrow> insert_outbox now s p d = Inr ((), d') \<Longrightarrow> db_wf d'"
  by (force simp: db_wf_def insert_outbox_def list_all_iff sorted_wrt_append split: option.splits)

lemma mark_published_ids [simp]: "map ob_id (outbox (mark_published now i d)) = map ob_id (outbox d)"
  by (simp add: mark_published_def)

lemma mark_published_frame [simp]:
  "accounts (mark_published now i d) = accounts d"
  "ledger_entries (mark_published now i d) = ledger_entries d"
  "transfers (mark_published now i d) = transfers d"
  "transfer_events (mark_published now i d) = transfer_events d"
  "outbox_seq (mark_published now i d) = outbox_seq d"
  by (simp_all add: mark_published_def)

lemma mark_published_wf: "db_wf d \<Longrightarrow> db_wf (mark_published now i d)"
proof -
  assume wf: "db_wf d"
  have "list_all (\<lambda>r. ob_id r < outbox_seq d) (outbox (mark_published now i d))"
    using wf by (auto simp: db_wf_def mark_published_def list_all_iff)
  with wf show ?thesis by (simp add: db_wf_def has_account_def)
qed

lemma db_write_wf: "db_write c d d' \<Longrightarrow> db_wf d \<Longrightarrow> db_wf d'"
  by (induction rule: db_write.induct)
    (auto intro: insert_all_wf upsert_account_wf insert_transfer_wf update_transfer_wf
      insert_event_wf insert_outbox_wf mark_published_wf)

end
