(* ===== verification/Invariants.thy ===== *)
theory Invariants
  imports Saga Postgres_Laws
begin

text \<open>
  Whatever the faults, \<open>perform\<close> changes the database only by the statement of the call, completely or
  not at all (\<open>perform_db_write\<close>). From it follow, for every
  interleaving of any number of threads, the invariants of the ledger and of the schema, by
  interpretation of the locale \<open>world_invariant\<close>.
\<close>

section \<open>Effect of a call on the database\<close>

lemma query_db [simp]:
  "db (snd (TransferRepo_FindByID U i w)) = db w"
  "db (snd (TransferRepo_FindByIdempotencyKey U key w)) = db w"
  "db (snd (AccountRepo_FindByID U a w)) = db w"
  "db (snd (AccountRepo_LockForUpdate U a w)) = db w"
  "db (snd (LedgerRepo_GetBalance U a c w)) = db w"
  "db (snd (LedgerRepo_GetAllEntries U w)) = db w"
  "db (snd (EventStore_FindByTransferID U i w)) = db w"
  "db (snd (relay_pending n w)) = db w"
  by (simp_all add: TransferRepo_FindByID_def TransferRepo_FindByIdempotencyKey_def
      AccountRepo_FindByID_def AccountRepo_LockForUpdate_def LedgerRepo_GetBalance_def
      LedgerRepo_GetAllEntries_def EventStore_FindByTransferID_def relay_pending_def
      split_def Let_def)
    (rule sql_exec_query; auto simp: select_transfer_def select_account_def select_balance_def
      split: option.splits if_splits)+

lemma read_clock_db [simp]: "db (snd (read_clock w)) = db w"
  and draw_uuid_db [simp]: "db (snd (draw_uuid w)) = db w"
  and on_ext_db [simp]: "db (snd (on_ext f w)) = db w"
  by (simp_all add: read_clock_def draw_uuid_def on_ext_def split_def Let_def)

text \<open>A statement that returns no rows leaves the database or applies its change.\<close>

lemma sql_exec_write:
  assumes "\<And>r d'. stmt (db w) = Inr (r, d') \<Longrightarrow> db_write c (db w) d'"
  shows "db_write c (db w) (db (snd (sql_exec stmt w)))"
  using sql_exec_db [of stmt w] assms by (auto intro: db_write.intros)

lemma perform_db_write: "db_write c (db w) (db (snd (perform U E c w)))"
proof (cases c)
  case (C_Transfers_Save t)
  then show ?thesis
    by (simp add: TransferRepo_Save_def split_def Let_def)
      (rule sql_exec_write, auto intro: db_write.intros)
next
  case (C_Transfers_UpdateState t)
  then show ?thesis
    by (simp add: TransferRepo_UpdateState_def split_def Let_def)
      (rule sql_exec_write, auto intro: db_write.intros)
next
  case (C_Accounts_Save a)
  then show ?thesis
    by (simp add: AccountRepo_Save_def split_def Let_def)
      (rule sql_exec_write, auto intro: db_write.intros)
next
  case (C_PostEntries es)
  then show ?thesis
    using PostEntries_db [of es w] by (auto intro: db_write.intros)
next
  case (C_Events_Append e)
  then show ?thesis
    by (simp add: EventStore_Append_def split_def Let_def)
      (rule sql_exec_write, auto intro: db_write.intros)
next
  case (C_Outbox_Write s p)
  then show ?thesis
    using sql_exec_write [of "insert_outbox (fst (read_clock w)) s p" "snd (read_clock w)"
        "C_Outbox_Write s p"]
    by (auto simp: OutboxWriter_Write_def split_def Let_def intro: db_write.intros)
next
  case (C_Outbox_MarkPublished i)
  then show ?thesis
    using sql_exec_write [of "\<lambda>d. Inr ((), mark_published (fst (read_clock w)) i d)"
        "snd (read_clock w)" "C_Outbox_MarkPublished i"]
    by (auto simp: relay_mark_def split_def Let_def intro: db_write.intros)
qed (auto simp: split_def intro: db_write.intros)

section \<open>The ledger\<close>

lemma table_total_cong:
  "ledger_entries d' = ledger_entries d \<Longrightarrow> table_total cur d' = table_total cur d"
  by (simp add: table_total_def)

lemma db_write_total:
  "db_write c d d' \<Longrightarrow> balanced_call c \<Longrightarrow> table_total cur d' = table_total cur d"
  by (induction rule: db_write.induct)
    (auto simp: table_total_posting upsert_account_ids insert_transfer_Inr insert_event_def
      insert_outbox_def dest!: update_transfer_Inr intro!: table_total_cong
      split: option.splits if_splits)

lemma db_write_ledger_prefix:
  "db_write c d d' \<Longrightarrow> prefix (ledger_entries d) (ledger_entries d')"
  by (induction rule: db_write.induct)
    (auto simp: upsert_account_ids insert_transfer_Inr insert_event_def insert_outbox_def
      dest!: update_transfer_Inr insert_all_Inr split: option.splits if_splits)

lemma db_write_events_prefix:
  "db_write c d d' \<Longrightarrow> prefix (transfer_events d) (transfer_events d')"
  by (induction rule: db_write.induct)
    (auto simp: upsert_account_ids insert_transfer_Inr insert_event_def insert_outbox_def
      dest!: update_transfer_Inr insert_all_Inr split: option.splits if_splits)

interpretation ledger_total: world_invariant U E
  "\<lambda>w. \<forall>cur. table_total cur (db w) = total cur" balanced_call
  for U E total
  by unfold_locales (auto simp: db_write_total [OF perform_db_write])

interpretation append_only: world_invariant U E
  "\<lambda>w. prefix entries (ledger_entries (db w)) \<and> prefix events (transfer_events (db w))"
  "\<lambda>c. True"
  for U E entries events
  by unfold_locales
    (auto dest: prefix_order.trans [OF _ db_write_ledger_prefix [OF perform_db_write]]
      prefix_order.trans [OF _ db_write_events_prefix [OF perform_db_write]])

interpretation schema: world_invariant U E "\<lambda>w. db_wf (db w)" "\<lambda>c. True"
  for U E
  by unfold_locales (auto intro: db_write_wf [OF perform_db_write])

lemma all_calls_True [simp]: "all_calls (\<lambda>c. True) p"
  by (induction p) auto

end
