(* ===== verification/Concurrency.thy ===== *)
theory Concurrency
  imports Invariants
begin

text \<open>
  Optimistic locking. A worker reads a transfer, decides on its next state, and writes it back with
  \<open>WHERE version = \<dots>\<close>; between the read and the write other workers may have moved the row. The
  argument that no interleaving leaves the state machine: a thread only writes a row derived from a
  row it has seen (\<open>tracks\<close>), a row is determined by its identity and its version (\<open>hist_ok\<close>), so an
  update that hits a row hits the very row it was derived from.
\<close>

section \<open>Moves of a row\<close>

text \<open>One legal edge of the state machine, as a change of a row.\<close>

definition row_move :: "transfer_row \<Rightarrow> transfer_row \<Rightarrow> bool" where
  "row_move r r' \<longleftrightarrow>
     tr_id r' = tr_id r \<and> tr_idempotency_key r' = tr_idempotency_key r \<and>
     tr_source_account_id r' = tr_source_account_id r \<and>
     tr_dest_account_id r' = tr_dest_account_id r \<and>
     tr_amount r' = tr_amount r \<and> tr_currency r' = tr_currency r \<and>
     tr_created_at r' = tr_created_at r \<and>
     tr_state r' \<in> set (validTransitions (tr_state r)) \<and> tr_version r' = tr_version r + 1"

text \<open>The table after a call: every old row unchanged or moved by one edge, new rows pending.\<close>

definition rows_step :: "transfer_row list \<Rightarrow> transfer_row list \<Rightarrow> bool" where
  "rows_step rs rs' \<longleftrightarrow>
     length rs \<le> length rs' \<and>
     (\<forall>i < length rs. rs' ! i = rs ! i \<or> row_move (rs ! i) (rs' ! i)) \<and>
     (\<forall>i. length rs \<le> i \<longrightarrow> i < length rs' \<longrightarrow>
        tr_state (rs' ! i) = StatePending \<and> tr_version (rs' ! i) = 1)"

section \<open>What a thread knows\<close>

text \<open>The row of a transfer as it was read.\<close>

definition row_of :: "Transfer \<Rightarrow> transfer_row" where
  "row_of t = transfer_row_of (m_Currency (t_Amount t)) t"

lemma row_of_update_iff:
  "row_of t = update_row t r \<longleftrightarrow>
     tr_id r = tr_uuid (t_ID t) \<and> tr_idempotency_key r = t_IdempotencyKey t \<and>
     tr_source_account_id r = acc_uuid (t_SourceAccountID t) \<and>
     tr_dest_account_id r = acc_uuid (t_DestAccountID t) \<and>
     tr_amount r = m_Amount (t_Amount t) \<and> tr_currency r = m_Currency (t_Amount t) \<and>
     tr_created_at r = pg_time (t_CreatedAt t)"
  by (cases r) (auto simp: row_of_def transfer_row_of_def update_row_def)

definition derived :: "transfer_row \<Rightarrow> Transfer \<Rightarrow> bool" where
  "derived r t \<longleftrightarrow>
     row_of t = update_row t r \<and> t_Version t = tr_version r + 1 \<and>
     t_State t \<in> set (validTransitions (tr_state r))"

text \<open>A version that left the range of the column is refused by the statement.\<close>

definition tracked :: "transfer_row set \<Rightarrow> Transfer \<Rightarrow> bool" where
  "tracked K t \<longleftrightarrow> (\<exists>r \<in> K. derived r t) \<or> \<not> int32_range (t_Version t)"

fun call_tracks :: "transfer_row set \<Rightarrow> call \<Rightarrow> bool" where
  "call_tracks K (C_Transfers_UpdateState t) = tracked K t"
| "call_tracks K (C_Transfers_Save t) = (t_State t = StatePending \<and> t_Version t = 1)"
| "call_tracks K c = True"

fun learned :: "call \<Rightarrow> reply \<Rightarrow> transfer_row set" where
  "learned (C_Transfers_FindByID i) r = (case r_transfer r of Inl e \<Rightarrow> {} | Inr t \<Rightarrow> {row_of t})"
| "learned (C_Transfers_UpdateState t) r = (if r_err r = None then {row_of t} else {})"
| "learned c r = {}"

text \<open>\<open>tracks p K\<close>: started with the knowledge \<open>K\<close>, every update \<open>p\<close> issues is derived from a row it
  knows by then, and every transfer it saves is new.\<close>

primrec tracks :: "'r prog \<Rightarrow> transfer_row set \<Rightarrow> bool" where
  "tracks (Return x) K = True"
| "tracks (Call c k) K = (call_tracks K c \<and> (\<forall>r. tracks (k r) (K \<union> learned c r)))"

lemma call_tracks_mono: "call_tracks K c \<Longrightarrow> K \<subseteq> K' \<Longrightarrow> call_tracks K' c"
  by (cases c) (auto simp: tracked_def)

lemma tracks_mono: "tracks p K \<Longrightarrow> K \<subseteq> K' \<Longrightarrow> tracks p K'"
proof (induction p arbitrary: K K')
  case (Return x)
  show ?case by simp
next
  case (Call c k)
  have "tracks (k r) (K' \<union> learned c r)" for r
  proof (rule Call.IH [OF rangeI])
    show "tracks (k r) (K \<union> learned c r)" using Call.prems(1) by simp
    show "K \<union> learned c r \<subseteq> K' \<union> learned c r" using Call.prems(2) by blast
  qed
  with Call.prems show ?case by (auto intro: call_tracks_mono)
qed

lemma tracks_map [simp]: "tracks (map_prog f p) K = tracks p K"
  by (induction p arbitrary: K) auto

lemma tracks_bind:
  "tracks p K \<Longrightarrow> (\<And>x. tracks (f x) K) \<Longrightarrow> tracks (prog_bind p f) K"
proof (induction p arbitrary: K)
  case (Return x)
  then show ?case by simp
next
  case (Call c k)
  have "tracks (prog_bind (k r) f) (K \<union> learned c r)" for r
  proof (rule Call.IH [OF rangeI])
    show "tracks (k r) (K \<union> learned c r)" using Call.prems(1) by simp
    show "tracks (f x) (K \<union> learned c r)" for x using Call.prems(2) by (rule tracks_mono) simp
  qed
  with Call.prems(1) show ?case by simp
qed

text \<open>A program that neither saves nor updates transfers tracks trivially.\<close>

fun leaves_transfers :: "call \<Rightarrow> bool" where
  "leaves_transfers (C_Transfers_UpdateState t) = False"
| "leaves_transfers (C_Transfers_Save t) = False"
| "leaves_transfers c = True"

lemma leaves_transfers_tracks: "all_calls leaves_transfers p \<Longrightarrow> tracks p K"
proof (induction p arbitrary: K)
  case (Return x)
  show ?case by simp
next
  case (Call c k)
  then show ?case by (cases c) auto
qed

text \<open>Nor does one that updates none and saves new ones only need any knowledge.\<close>

lemma new_only_tracks: "all_calls (call_tracks {}) p \<Longrightarrow> tracks p K"
  by (induction p arbitrary: K) (auto intro: call_tracks_mono)

section \<open>The saga tracks\<close>

lemma tracks_Now: "(\<And>t. tracks (k t) K) \<Longrightarrow> tracks (Now k) K"
  by (simp add: Now_def)

lemma tracks_find:
  assumes "\<And>e. tracks (k (Inl e)) K" and "\<And>t. tracks (k (Inr t)) (insert (row_of t) K)"
  shows "tracks (Transfers_FindByID i k) K"
  using assms by (auto simp: Transfers_FindByID_def split: sum.split)

lemma tracks_update:
  assumes "tracked K t" and "\<And>e. tracks (k (Some e)) K"
    and "tracks (k None) (insert (row_of t) K)"
  shows "tracks (Transfers_UpdateState t k) K"
proof -
  have "tracks (k (r_err r)) (K \<union> learned (C_Transfers_UpdateState t) r)" for r
    using assms(2,3) by (cases "r_err r") simp_all
  with assms(1) show ?thesis by (simp add: Transfers_UpdateState_def)
qed

lemma publishEvent_tracks: "tracks (publishEvent U t typ) K"
  by (auto intro!: leaves_transfers_tracks publishEvent_calls)

text \<open>A transfer in memory that agrees with a known row in everything an update does not write.\<close>

definition agrees :: "transfer_row \<Rightarrow> Transfer \<Rightarrow> bool" where
  "agrees r t \<longleftrightarrow>
     row_of t = update_row t r \<and> t_State t = tr_state r \<and> t_Version t = tr_version r"

lemma agrees_row_of: "agrees (row_of t) t"
  by (auto simp: agrees_def row_of_update_iff) (simp_all add: row_of_def transfer_row_of_def)

lemma Transition_derived:
  "agrees r t \<Longrightarrow> inc64 (tr_version r) = tr_version r + 1 \<Longrightarrow> Transition now t s = Inr t' \<Longrightarrow> derived r t'"
  by (auto simp: agrees_def derived_def Transition_Inr row_of_update_iff)

lemma Transition_tracked:
  assumes "agrees r t" and "r \<in> K" and "Transition now t s = Inr t'"
  shows "tracked K t'"
proof (cases "int32_range (t_Version t')")
  case True
  with assms have "inc64 (tr_version r) = tr_version r + 1"
    by (auto simp: agrees_def Transition_Inr inc64_def int32_range_def split: if_splits)
  with Transition_derived [OF assms(1) _ assms(3)] assms(2) show ?thesis by (auto simp: tracked_def)
qed (simp add: tracked_def)

lemma Transition_tracked_reason:
  assumes "agrees r t" and "r \<in> K" and "Transition now (t\<lparr>t_FailureReason := x\<rparr>) s = Inr t'"
  shows "tracked K t'"
  using Transition_tracked [OF _ assms(2,3)] assms(1) by (simp add: agrees_def row_of_update_iff)

lemma agrees_update [simp]:
  "agrees r (t\<lparr>t_FailureReason := x\<rparr>) = agrees r t"
  "agrees r (t\<lparr>t_DebitPosted := b\<rparr>) = agrees r t"
  "agrees r (t\<lparr>t_CreditPosted := b\<rparr>) = agrees r t"
  "agrees r (t\<lparr>t_ExternalRef := x\<rparr>) = agrees r t"
  by (auto simp: agrees_def row_of_update_iff)

lemma advance_tracks: "agrees r t \<Longrightarrow> r \<in> K \<Longrightarrow> tracks (advance U t s typ) K"
  unfolding advance_def
  by (auto intro!: tracks_Now tracks_update publishEvent_tracks intro: Transition_tracked [where r = r]
      split: sum.split)

lemma failWith_tracks: "agrees r t \<Longrightarrow> r \<in> K \<Longrightarrow> tracks (failWith U t reason) K"
  unfolding failWith_def Let_def
  by (auto intro!: tracks_Now tracks_update publishEvent_tracks
      intro: Transition_tracked_reason [where r = r] split: sum.split)

lemma newPosting_leaves:
  "(\<And>x. all_calls leaves_transfers (k x)) \<Longrightarrow> all_calls leaves_transfers (newPosting s d a m k)"
  by (auto intro!: newPosting_calls)

lemma reverse_tracks: "tracks (reverseDebit U t) K" "tracks (reverseCredit U t) K"
  unfolding reverseDebit_def reverseCredit_def
  by (auto intro!: leaves_transfers_tracks newPosting_leaves all_calls_intros split: sum.split)

lemma compensate_tracks: "agrees r t \<Longrightarrow> r \<in> K \<Longrightarrow> tracks (compensate U t) K"
  unfolding compensate_def
  by (auto intro!: tracks_bind reverse_tracks failWith_tracks split: option.split)

lemma startCompensation_tracks:
  "agrees r t \<Longrightarrow> r \<in> K \<Longrightarrow> tracks (startCompensation U t reason) K"
  unfolding startCompensation_def Let_def
  by (auto intro!: tracks_Now tracks_update compensate_tracks [OF agrees_row_of]
      intro: Transition_tracked_reason [where r = r] split: sum.split)

text \<open>A call that is neither a read nor a write of transfers teaches nothing.\<close>

lemma tracks_other:
  "(\<And>x. tracks (ka x) K) \<Longrightarrow> tracks (Accounts_LockForUpdate i ka) K"
  "(\<And>x. tracks (km x) K) \<Longrightarrow> tracks (GetBalance i c km) K"
  "(\<And>x. tracks (ke x) K) \<Longrightarrow> tracks (PostEntries es ke) K"
  "(\<And>x. tracks (kb x) K) \<Longrightarrow> tracks (InitiateTransfer req kb) K"
  "(\<And>x. tracks (kp x) K) \<Longrightarrow> tracks (newPosting src dst a m kp) K"
  by (simp_all add: port_defs newPosting_def)

lemma reserveDebit_tracks: "agrees r t \<Longrightarrow> r \<in> K \<Longrightarrow> tracks (reserveDebit U t) K"
  unfolding reserveDebit_def
  by (auto intro!: tracks_other advance_tracks failWith_tracks split: sum.split option.split)

lemma callBank_tracks: "agrees r t \<Longrightarrow> r \<in> K \<Longrightarrow> tracks (callBank U t) K"
  unfolding callBank_def
  by (auto intro!: tracks_other advance_tracks startCompensation_tracks split: sum.split)

lemma postCredit_tracks: "agrees r t \<Longrightarrow> r \<in> K \<Longrightarrow> tracks (postCredit U t) K"
  unfolding postCredit_def
  by (auto intro!: tracks_other advance_tracks split: sum.split option.split)

lemma dispatch_tracks: "agrees r t \<Longrightarrow> r \<in> K \<Longrightarrow> tracks (dispatch U t) K"
  by (cases "t_State t")
    (auto simp: dispatch_def complete_def intro!: reserveDebit_tracks callBank_tracks
      postCredit_tracks advance_tracks compensate_tracks)

lemma Execute_tracks: "tracks (Execute U i) K"
  unfolding Execute_def
  by (auto intro!: tracks_find dispatch_tracks [OF agrees_row_of])

section \<open>The history of the table\<close>

text \<open>\<open>H\<close> is a set of rows the table has held: it contains the present rows, a row of it is determined
  by identity and version, and no row of it is newer than the present one.\<close>

definition hist_ok :: "transfer_row set \<Rightarrow> database \<Rightarrow> bool" where
  "hist_ok H d \<longleftrightarrow>
     set (transfers d) \<subseteq> H \<and>
     (\<forall>r \<in> H. \<forall>r' \<in> H. tr_id r = tr_id r' \<longrightarrow> tr_version r = tr_version r' \<longrightarrow> r = r') \<and>
     (\<forall>r \<in> H. \<exists>c \<in> set (transfers d). tr_id c = tr_id r \<and> tr_version r \<le> tr_version c)"

lemma same_id_same_row:
  "db_wf d \<Longrightarrow> r \<in> set (transfers d) \<Longrightarrow> r' \<in> set (transfers d) \<Longrightarrow> tr_id r = tr_id r' \<Longrightarrow> r = r'"
  by (auto simp: db_wf_def distinct_map dest: inj_onD)

lemma hist_ok_start: "db_wf d \<Longrightarrow> hist_ok (set (transfers d)) d"
  by (auto simp: hist_ok_def intro: same_id_same_row)

lemma hist_ok_cong: "transfers d' = transfers d \<Longrightarrow> hist_ok H d' = hist_ok H d"
  by (simp add: hist_ok_def)

lemma derived_id: "derived r t \<Longrightarrow> tr_id r = tr_uuid (t_ID t) \<and> tr_version r = t_Version t - 1"
  by (simp add: derived_def row_of_update_iff)

lemma hit_is_source:
  assumes "hist_ok H d" and "r \<in> H" and "derived r t"
    and "x \<in> set (transfers d)" and "update_hits t x"
  shows "x = r"
proof -
  have "x \<in> H" using assms(1,4) by (auto simp: hist_ok_def)
  moreover have "tr_id x = tr_id r" "tr_version x = tr_version r"
    using assms(5) derived_id [OF assms(3)] by (auto simp: update_hits_def)
  ultimately show ?thesis using assms(1,2) unfolding hist_ok_def by blast
qed

lemma derived_move: "derived r t \<Longrightarrow> row_move r (update_row t r)"
  by (simp add: derived_def row_move_def)

lemma rows_step_updated:
  assumes "hist_ok H d" and "r \<in> H" and "derived r t"
  shows "rows_step (transfers d) (updated t (transfers d))"
proof -
  have "row_move (transfers d ! i) (update_row t (transfers d ! i))"
    if "i < length (transfers d)" "update_hits t (transfers d ! i)" for i
    using hit_is_source [OF assms nth_mem [OF that(1)] that(2)] derived_move [OF assms(3)] by simp
  then show ?thesis by (simp add: rows_step_def)
qed

lemma hist_ok_updated:
  assumes hist: "hist_ok H d" and wf: "db_wf d" and r: "r \<in> H" "derived r t"
  shows "hist_ok (H \<union> set (updated t (transfers d))) (d\<lparr>transfers := updated t (transfers d)\<rparr>)"
proof -
  let ?rs = "transfers d" and ?rs' = "updated t (transfers d)" and ?n = "update_row t r"
  have new: "x \<in> H \<or> x = ?n \<and> r \<in> set ?rs" if "x \<in> H \<union> set ?rs'" for x
    using that hist hit_is_source [OF hist r] by (auto simp: hist_ok_def split: if_splits)
  have older: "tr_version y < tr_version ?n"
    if y: "y \<in> H" "tr_id y = tr_id ?n" and mem: "r \<in> set ?rs" for y
  proof -
    obtain c where c: "c \<in> set ?rs" "tr_id c = tr_id y" "tr_version y \<le> tr_version c"
      using hist y(1) unfolding hist_ok_def by blast
    have "c = r" using wf c(1) mem by (rule same_id_same_row) (simp add: c(2) y(2))
    with c(3) show ?thesis using derived_id [OF r(2)] by simp
  qed
  have present: "\<exists>c \<in> set ?rs'. tr_id c = tr_id y \<and> tr_version y \<le> tr_version c" if "y \<in> H" for y
  proof -
    obtain c where c: "c \<in> set ?rs" "tr_id c = tr_id y" "tr_version y \<le> tr_version c"
      using hist \<open>y \<in> H\<close> by (auto simp: hist_ok_def)
    show ?thesis
    proof (cases "update_hits t c")
      case True
      with c have "update_row t c \<in> set ?rs'" by force
      moreover have "tr_version c \<le> tr_version (update_row t c)"
        using True by (simp add: update_hits_def)
      ultimately show ?thesis using c(2,3) by (intro bexI [of _ "update_row t c"]) simp_all
    next
      case False
      with c have "c \<in> set ?rs'" by force
      with c show ?thesis by blast
    qed
  qed
  show ?thesis
    unfolding hist_ok_def
  proof (intro conjI ballI impI)
    fix x y
    assume x: "x \<in> H \<union> set ?rs'" and y: "y \<in> H \<union> set ?rs'"
      and eq: "tr_id x = tr_id y" "tr_version x = tr_version y"
    from new [OF x] new [OF y] consider "x \<in> H" "y \<in> H"
      | "x \<in> H" "y = ?n" "r \<in> set ?rs" | "x = ?n" "y \<in> H" "r \<in> set ?rs" | "x = ?n" "y = ?n"
      by blast
    then show "x = y"
    proof cases
      case 1
      with eq hist show ?thesis unfolding hist_ok_def by blast
    next
      case 2
      with older [of x] eq show ?thesis by simp
    next
      case 3
      with older [of y] eq show ?thesis by simp
    qed simp
  next
    fix x
    assume x: "x \<in> H \<union> set ?rs'"
    show "\<exists>c \<in> set (transfers (d\<lparr>transfers := ?rs'\<rparr>)). tr_id c = tr_id x \<and> tr_version x \<le> tr_version c"
      using x present [of x] by (auto simp del: set_map)
  qed simp
qed

lemma hist_ok_saved:
  assumes hist: "hist_ok H d" and ins: "insert_transfer t d = Inr ((), d')"
  shows "hist_ok (H \<union> set (transfers d')) d'"
proof -
  obtain c where id: "tr_uuid (t_ID t) \<notin> tr_id ` set (transfers d)"
    and d': "transfers d' = transfers d @ [transfer_row_of c t]"
    using ins by (auto simp: insert_transfer_Inr)
  let ?n = "transfer_row_of c t"
  have n: "tr_id ?n = tr_uuid (t_ID t)" by (simp add: transfer_row_of_def)
  have old: "set (transfers d) \<subseteq> H" using hist by (simp add: hist_ok_def)
  have fresh: "tr_id r \<noteq> tr_id ?n" if r: "r \<in> H" for r
  proof -
    obtain x where "x \<in> set (transfers d)" "tr_id x = tr_id r"
      using hist r unfolding hist_ok_def by blast
    with id n show ?thesis by force
  qed
  have H': "H \<union> set (transfers d') = insert ?n H" using old by (auto simp: d')
  have "\<forall>r \<in> insert ?n H. \<forall>r' \<in> insert ?n H.
      tr_id r = tr_id r' \<longrightarrow> tr_version r = tr_version r' \<longrightarrow> r = r'"
    using hist fresh unfolding hist_ok_def by (metis insert_iff)
  moreover have "\<forall>r \<in> insert ?n H. \<exists>x \<in> set (transfers d'). tr_id x = tr_id r \<and> tr_version r \<le> tr_version x"
    using hist unfolding hist_ok_def d' by auto
  moreover have "set (transfers d') \<subseteq> insert ?n H" using old by (auto simp: d')
  ultimately show ?thesis unfolding H' by (simp add: hist_ok_def)
qed

lemma db_write_hist:
  assumes "db_write c d d'" and "call_tracks H c" and "hist_ok H d" and "db_wf d"
  shows "hist_ok (H \<union> set (transfers d')) d' \<and> rows_step (transfers d) (transfers d')"
proof (cases "transfers d' = transfers d")
  case True
  with assms(3) show ?thesis
    by (auto simp: hist_ok_cong [OF True] rows_step_def hist_ok_def sup_absorb1)
next
  case False
  consider (save) t where "c = C_Transfers_Save t" "insert_transfer t d = Inr ((), d')"
    | (update) t n where "c = C_Transfers_UpdateState t" "update_transfer t d = Inr (n, d')"
    using assms(1) False
    by (cases rule: db_write.cases)
      (auto simp: upsert_account_ids insert_event_def insert_outbox_def
        dest!: insert_all_Inr split: option.splits if_splits)
  then show ?thesis
  proof cases
    case save
    with assms(2) show ?thesis
      using hist_ok_saved [OF assms(3) save(2)]
      by (auto simp: insert_transfer_Inr rows_step_def nth_append transfer_row_of_def)
  next
    case update
    with assms(2) obtain r where "r \<in> H" "derived r t"
      by (auto simp: tracked_def update_transfer_def split: if_splits)
    with update_transfer_Inr [OF update(2)] show ?thesis
      using hist_ok_updated [OF assms(3,4)] rows_step_updated [OF assms(3)] by simp
  qed
qed

section \<open>A call under tracking\<close>

lemma scanTransfer_row_of:
  "uuid_ok U \<Longrightarrow> scanTransfer U (Inr r) = Inr t \<Longrightarrow> row_of t = r"
  by (auto simp: scanTransfer_def row_of_def transfer_row_of_def ParseTransferID_def
      ParseAccountID_def)

lemma find_learned:
  assumes "uuid_ok U" and "fst (TransferRepo_FindByID U i w) = Inr t"
  shows "row_of t \<in> set (transfers (db w))"
proof -
  let ?q = "select_transfer (\<lambda>r. tr_id r = tr_uuid i)"
  from assms(2) obtain r where r: "fst (sql_exec ?q w) = Inr r" and t: "scanTransfer U (Inr r) = Inr t"
    by (auto simp: TransferRepo_FindByID_def split_def Let_def scanTransfer_def
        split: sum.splits if_splits)
  have "r \<in> set (transfers (db w))"
    using sql_exec_Inr [OF r] by (auto simp: select_transfer_def split: option.splits dest: find_SomeD)
  with scanTransfer_row_of [OF assms(1) t] show ?thesis by simp
qed

lemma update_learned:
  assumes "fst (TransferRepo_UpdateState U t w) = None"
    and "hist_ok H (db w)" and "r \<in> H" and "derived r t"
  shows "row_of t \<in> set (transfers (db (snd (TransferRepo_UpdateState U t w))))"
proof -
  let ?d' = "db (snd (TransferRepo_UpdateState U t w))"
  from assms(1) obtain n where "n \<noteq> 0" and "update_transfer t (db w) = Inr (n, ?d')"
    using sql_exec_Inr [of "update_transfer t" w]
    by (fastforce simp: TransferRepo_UpdateState_def split_def Let_def split: sum.splits if_splits)
  then have n: "filter (update_hits t) (transfers (db w)) \<noteq> []"
    and d': "?d' = (db w)\<lparr>transfers := updated t (transfers (db w))\<rparr>"
    using update_transfer_Inr by auto
  from n obtain x where x: "x \<in> set (transfers (db w))" "update_hits t x"
    by (auto simp: filter_empty_conv)
  then have "x = r" by (rule hit_is_source [OF assms(2-4)])
  with x have "update_row t r \<in> set (updated t (transfers (db w)))" by force
  with assms(4) show ?thesis by (simp add: d' derived_def)
qed

lemma perform_tracks:
  assumes "uuid_ok U" and "perform U E c w = (rep, w')"
    and "call_tracks H c" and "hist_ok H (db w)" and "db_wf (db w)"
  shows "hist_ok (H \<union> set (transfers (db w'))) (db w')"
    and "learned c rep \<subseteq> set (transfers (db w'))"
    and "rows_step (transfers (db w)) (transfers (db w'))"
proof -
  have w': "w' = snd (perform U E c w)" and rep: "rep = fst (perform U E c w)"
    using assms(2) by simp_all
  show "hist_ok (H \<union> set (transfers (db w'))) (db w')"
    and "rows_step (transfers (db w)) (transfers (db w'))"
    using db_write_hist [OF perform_db_write assms(3-5)] by (simp_all add: w')
  show "learned c rep \<subseteq> set (transfers (db w'))"
  proof (cases c)
    case (C_Transfers_FindByID i)
    then show ?thesis
      using find_learned [OF assms(1), of i w] by (auto simp: w' rep split: sum.split)
  next
    case (C_Transfers_UpdateState t)
    show ?thesis
    proof (cases "\<exists>r \<in> H. derived r t")
      case True
      then show ?thesis
        using update_learned [OF _ assms(4), of U t] by (auto simp: w' rep C_Transfers_UpdateState)
    next
      case False
      with assms(3) C_Transfers_UpdateState have "\<not> int32_range (t_Version t)" by (simp add: tracked_def)
      then have "fst (TransferRepo_UpdateState U t w) \<noteq> None"
        using update_refused [of t "db w"] sql_exec_Inr [of "update_transfer t" w]
        by (auto simp: TransferRepo_UpdateState_def split_def Let_def split: sum.splits)
      then show ?thesis by (auto simp: rep C_Transfers_UpdateState)
    qed
  qed simp_all
qed

section \<open>Every interleaving\<close>

definition pool_tracks :: "transfer_row set \<Rightarrow> 's system \<Rightarrow> bool" where
  "pool_tracks H s \<longleftrightarrow>
     hist_ok H (db (snd s)) \<and> db_wf (db (snd s)) \<and> list_all (\<lambda>p. tracks p H) (fst s)"

lemma pool_step_tracks:
  assumes "uuid_ok U" and "pool_step U E s s'" and "pool_tracks H s"
  shows "\<exists>H'. pool_tracks H' s' \<and> rows_step (transfers (db (snd s))) (transfers (db (snd s')))"
proof -
  obtain ps w where s: "s = (ps, w)" by fastforce
  from assms(2) obtain i c k rep w' where i: "i < length ps" "ps ! i = Call c k"
    and p: "perform U E c w = (rep, w')" and s': "s' = (ps[i := k rep], w')"
    by (auto simp: s elim: pool_stepE)
  have wf: "db_wf (db w)" and hist: "hist_ok H (db w)" and tr: "list_all (\<lambda>p. tracks p H) ps"
    using assms(3) by (simp_all add: pool_tracks_def s)
  have thr: "tracks (Call c k) H" using tr i by (metis list_all_length)
  then have c: "call_tracks H c" by simp
  note step = perform_tracks [OF assms(1) p c hist wf]
  let ?H = "H \<union> set (transfers (db w'))"
  have "db_wf (db w')" using db_write_wf [OF perform_db_write wf, of U E c] p by simp
  moreover have "tracks (k rep) ?H"
    using thr step(2) by (auto intro: tracks_mono)
  moreover have "list_all (\<lambda>p. tracks p ?H) ps"
    using tr by (auto simp: list_all_iff intro: tracks_mono)
  ultimately have "pool_tracks ?H s'"
    using step(1)
    by (auto simp: pool_tracks_def s' list_all_iff dest: set_update_subset_insert [THEN subsetD])
  with step(3) show ?thesis by (auto simp: s s')
qed

lemma pool_steps_tracks:
  assumes "pool_steps U E s s'" and "uuid_ok U" and "pool_tracks H s"
  shows "(\<exists>H'. pool_tracks H' s') \<and> rows_step\<^sup>*\<^sup>* (transfers (db (snd s))) (transfers (db (snd s')))"
  using assms
proof (induction rule: pool_steps.induct)
  case (pool_refl s)
  then show ?case by auto
next
  case (pool_next s s' s'')
  then obtain H' where "pool_tracks H' s'"
    and r: "rows_step\<^sup>*\<^sup>* (transfers (db (snd s))) (transfers (db (snd s')))" by blast
  with pool_step_tracks [OF pool_next.prems(1) pool_next.hyps(2)] show ?case
    by (blast intro: rtranclp.rtrancl_into_rtrancl)
qed

section \<open>The life of a row\<close>

lemma rows_steps_row:
  assumes "rows_step\<^sup>*\<^sup>* rs rs'"
  shows "length rs \<le> length rs'"
    and "i < length rs \<Longrightarrow> row_move\<^sup>*\<^sup>* (rs ! i) (rs' ! i)"
    and "length rs \<le> i \<Longrightarrow> i < length rs' \<Longrightarrow>
      \<exists>r. tr_state r = StatePending \<and> tr_version r = 1 \<and> row_move\<^sup>*\<^sup>* r (rs' ! i)"
  using assms
proof (induction rule: rtranclp_induct)
  case base
  { case 1 show ?case by simp next case 2 show ?case by simp next case 3 then show ?case by simp }
next
  case (step ys zs)
  have l: "length rs \<le> length ys" "length ys \<le> length zs"
    and one: "j < length ys \<Longrightarrow> row_move\<^sup>*\<^sup>* (ys ! j) (zs ! j)" for j
    using step by (auto simp: rows_step_def)
  { case 1 from l show ?case by simp
  next
    case 2
    with l step.IH(2) one [of i] show ?case by (simp add: rtranclp_trans)
  next
    case 3
    show ?case
    proof (cases "i < length ys")
      case True
      with 3 step.IH(3) one [of i] show ?thesis by (meson rtranclp_trans)
    next
      case False
      with 3 step.hyps(2) show ?thesis
        by (intro exI [of _ "zs ! i"]) (simp add: rows_step_def)
    qed }
qed

lemma row_path_bound:
  assumes "row_move\<^sup>*\<^sup>* r r'"
  shows "tr_id r' = tr_id r \<and> tr_amount r' = tr_amount r \<and>
    tr_source_account_id r' = tr_source_account_id r \<and>
    tr_dest_account_id r' = tr_dest_account_id r \<and> tr_state r \<le> tr_state r' \<and>
    tr_version r \<le> tr_version r' \<and>
    tr_version r' + int (moves_left (tr_state r')) \<le> tr_version r + int (moves_left (tr_state r))"
  using assms
proof (induction rule: rtranclp_induct)
  case base
  show ?case by simp
next
  case (step y z)
  then have "tr_state z \<in> set (validTransitions (tr_state y))" by (simp add: row_move_def)
  from moves_left_decreases [OF this] validTransitions_increase [OF this] step
  show ?case by (auto simp: row_move_def)
qed

lemma row_path_terminal: "row_move\<^sup>*\<^sup>* r r' \<Longrightarrow> terminal (tr_state r) \<Longrightarrow> r' = r"
  by (erule converse_rtranclpE) (auto simp: row_move_def)

end
