(* ===== verification/Book.thy ===== *)
theory Book
  imports Postgres_Laws
begin

text \<open>
  The ledger as its clients see it: a book that postings are entered into and balances are read
  from. The locale \<open>double_entry_book\<close> is that interface, with the one law a client relies on: what
  a posting does to every balance. The client's facts (a refund restores every balance, two legs
  through a clearing account move the amount from end to end, the sum over a closed set of
  accounts never changes) are proved once in it, and hold for \<open>ledger_repo.go\<close> by the
  interpretation at the end.
\<close>

section \<open>The interface\<close>

text \<open>What a posting adds to the balance of an account in its currency.\<close>

definition moved :: "Posting \<Rightarrow> AccountID \<Rightarrow> int" where
  "moved p a =
     (if a = e_AccountID (p_Credit p) then sint (m_Amount (e_Amount (p_Debit p))) else 0) -
     (if a = e_AccountID (p_Debit p) then sint (m_Amount (e_Amount (p_Debit p))) else 0)"

definition leg :: "AccountID \<Rightarrow> AccountID \<Rightarrow> Money \<Rightarrow> Posting \<Rightarrow> bool" where
  "leg src dst amount p \<longleftrightarrow>
     posting_ok p \<and> e_AccountID (p_Debit p) = src \<and> e_AccountID (p_Credit p) = dst \<and>
     e_Amount (p_Debit p) = amount"

lemma NewPosting_leg:
  "NewPosting now u1 u2 tx src dst amount d = Inr p \<Longrightarrow> leg src dst amount p"
  by (simp add: leg_def NewPosting_fields)

lemma leg_moved:
  "leg src dst amount p \<Longrightarrow>
     moved p a = (if a = dst then sint (m_Amount amount) else 0) -
                 (if a = src then sint (m_Amount amount) else 0)"
  by (auto simp: leg_def moved_def)

locale double_entry_book =
  fixes post :: "LedgerEntry list \<Rightarrow> 'd \<Rightarrow> go_error + 'd"
    and bal :: "AccountID \<Rightarrow> Currency \<Rightarrow> 'd \<Rightarrow> int"
    and same :: "Currency \<Rightarrow> Currency \<Rightarrow> bool"
  assumes post_bal: "posting_ok p \<Longrightarrow> post (Entries p) d = Inr d' \<Longrightarrow>
    bal a c d' = bal a c d + (if same (m_Currency (e_Amount (p_Debit p))) c then moved p a else 0)"
begin

lemma leg_bal:
  assumes "leg src dst amount p" and "post (Entries p) d = Inr d'"
  shows "bal a c d' = bal a c d +
    (if same (m_Currency amount) c
     then (if a = dst then sint (m_Amount amount) else 0) -
          (if a = src then sint (m_Amount amount) else 0) else 0)"
  using post_bal [OF _ assms(2), of a c] assms(1) leg_moved [OF assms(1), of a]
  by (simp add: leg_def)

lemma refund:
  assumes "leg src dst amount p" and "post (Entries p) d = Inr d1"
    and "leg dst src amount q" and "post (Entries q) d2 = Inr d3"
    and "bal a c d2 = bal a c d1"
  shows "bal a c d3 = bal a c d"
  using assms leg_bal [OF assms(1,2), of a c] leg_bal [OF assms(3,4), of a c] by simp

lemma two_legs:
  assumes "leg src mid amount p" and "post (Entries p) d = Inr d1"
    and "leg mid dst amount q" and "post (Entries q) d2 = Inr d3"
    and "bal a c d2 = bal a c d1"
  shows "bal a c d3 = bal a c d +
    (if same (m_Currency amount) c
     then (if a = dst then sint (m_Amount amount) else 0) -
          (if a = src then sint (m_Amount amount) else 0) else 0)"
  using assms leg_bal [OF assms(1,2), of a c] leg_bal [OF assms(3,4), of a c] by simp

lemma closed_sum:
  assumes "leg src dst amount p" and "post (Entries p) d = Inr d'"
    and "finite A" and "src \<in> A" and "dst \<in> A"
  shows "(\<Sum>a\<in>A. bal a c d') = (\<Sum>a\<in>A. bal a c d)"
proof (cases "same (m_Currency amount) c")
  case True
  with assms(3-5) show ?thesis by (simp add: leg_bal [OF assms(1,2)] sum.distrib sum_subtractf)
next
  case False
  then show ?thesis by (simp add: leg_bal [OF assms(1,2)])
qed

end

section \<open>ledger\_repo.go provides it\<close>

lemma rstrip_blanks: "rstrip (s @ replicate n (CHR '' '')) = rstrip s"
  by (simp add: rstrip_def) (subst dropWhile_append2; auto)

lemma rstrip_rstrip [simp]: "rstrip (rstrip s) = rstrip s"
  by (simp add: rstrip_def)

lemma char3_rstrip: "char3 s = Some c \<Longrightarrow> rstrip c = rstrip s"
  by (auto simp: char3_def Let_def rstrip_blanks split: if_splits)

lemma char3_stored: "char3 s = Some c \<Longrightarrow> nchars c = 3"
  by (auto simp: char3_def Let_def nchars_def split: if_splits)

lemma char3_idem: "char3 s = Some c \<Longrightarrow> char3 c = Some c"
  using char3_stored [of s c] by (simp add: char3_def)

lemma nchars_ne: "nchars c = 3 \<Longrightarrow> c \<noteq> []"
  by (auto simp: nchars_def)

lemma insert_all_char3:
  "insert_all es d = Inr d' \<Longrightarrow> e \<in> set es \<Longrightarrow> char3 (m_Currency (e_Amount e)) \<noteq> None"
  by (induction es arbitrary: d) (auto simp: insert_ledger_entry_Inr split: sum.splits)

lemma sum_balance_append:
  "sum_balance a c (d\<lparr>ledger_entries := ledger_entries d @ rs\<rparr>) =
     sum_balance a c d + sum_list (map row_value
       (filter (\<lambda>r. lr_account_id r = acc_uuid a \<and> rstrip (lr_currency r) = rstrip c) rs))"
  by (simp add: sum_balance_def)

lemma acc_uuid_inject [simp]: "acc_uuid a = acc_uuid b \<longleftrightarrow> a = b"
  by (cases a; cases b) simp

lemma insert_all_balance:
  assumes ok: "posting_ok p" and ins: "insert_all (Entries p) d = Inr d'"
  shows "sum_balance a c d' = sum_balance a c d +
    (if rstrip (m_Currency (e_Amount (p_Debit p))) = rstrip c then moved p a else 0)"
proof -
  let ?m = "e_Amount (p_Debit p)"
  obtain k where k: "char3 (m_Currency ?m) = Some k"
    using insert_all_char3 [OF ins, of "p_Debit p"] by (auto simp: Entries_def)
  have rows: "d' = d\<lparr>ledger_entries := ledger_entries d @ entry_rows (Entries p)\<rparr>"
    by (rule insert_all_Inr [OF ins])
  have "entry_rows (Entries p) = [entry_row k (p_Debit p), entry_row k (p_Credit p)]"
    using ok k by (simp add: entry_rows_def Entries_def posting_ok_def)
  moreover have "lr_account_id (entry_row k e) = acc_uuid (e_AccountID e)"
    and "lr_currency (entry_row k e) = k" for e
    by (simp_all add: entry_row_def)
  ultimately show ?thesis
    using ok char3_rstrip [OF k]
    by (auto simp: rows sum_balance_append moved_def posting_ok_def entry_value_def)
qed

interpretation book: double_entry_book insert_all sum_balance "\<lambda>c c'. rstrip c = rstrip c'"
  by unfold_locales (rule insert_all_balance)

text \<open>When a posting is accepted: its accounts exist and its two identities are new.\<close>

lemma insert_all_accepts:
  assumes "leg src dst amount p" and "char3 (m_Currency amount) \<noteq> None"
    and "has_account d (acc_uuid src)" and "has_account d (acc_uuid dst)"
    and "le_uuid (e_ID (p_Debit p)) \<noteq> le_uuid (e_ID (p_Credit p))"
    and "le_uuid (e_ID (p_Debit p)) \<notin> lr_id ` set (ledger_entries d)"
    and "le_uuid (e_ID (p_Credit p)) \<notin> lr_id ` set (ledger_entries d)"
  shows "insert_all (Entries p) d = Inr (d\<lparr>ledger_entries := ledger_entries d @ entry_rows (Entries p)\<rparr>)"
  using assms
  by (auto simp: leg_def posting_ok_def Entries_def insert_ledger_entry_def entry_rows_def
      entry_row_def)

text \<open>A posting to an account that is not in the table is refused and leaves no line.\<close>

lemma insert_all_missing:
  assumes "posting_ok p" and "\<not> has_account d (acc_uuid (e_AccountID (p_Debit p))) \<or>
    \<not> has_account d (acc_uuid (e_AccountID (p_Credit p)))"
  shows "\<exists>e. insert_all (Entries p) d = Inl e"
  using assms
  by (auto simp: Entries_def insert_ledger_entry_def split: option.split sum.split)

end
