(* ===== verification/Saga_Runs.thy ===== *)
theory Saga_Runs
  imports Concurrency Book
begin

text \<open>
  The saga run by one worker on a healthy database: what \<open>Execute\<close> does in each state, and what the
  deliveries of a transfer's life add up to. \<open>steady\<close> collects what a run relies on: no connection
  faults, a well-formed schema, rows as \<open>Save\<close> leaves them, UUIDs that do not repeat, a clock whose
  times have a JSON form.
\<close>

section \<open>A healthy world\<close>

definition transfer_at :: "database \<Rightarrow> TransferID \<Rightarrow> transfer_row option" where
  "transfer_at d i = find (\<lambda>r. tr_id r = tr_uuid i) (transfers d)"

text \<open>A row that \<open>New\<close> and \<open>Save\<close> can have created and legal moves have changed.\<close>

definition row_ok :: "transfer_row \<Rightarrow> bool" where
  "row_ok r \<longleftrightarrow>
     nchars (tr_currency r) = 3 \<and> tr_source_account_id r \<noteq> tr_dest_account_id r \<and>
     1 \<le> tr_version r \<and> tr_version r + int (moves_left (tr_state r)) \<le> 6"

text \<open>The documented behaviour of a random UUID generator, for the next \<open>k\<close> draws: they are new and
  differ from one another.\<close>

definition fresh :: "uuid_lib \<Rightarrow> nat \<Rightarrow> 's world \<Rightarrow> bool" where
  "fresh U k w \<longleftrightarrow>
     inj_on (rand w) {drawn w ..< drawn w + k} \<and>
     (\<forall>n \<in> {drawn w ..< drawn w + k}. rand w n \<notin> lr_id ` set (ledger_entries (db w)) \<and>
        uuid_String U (rand w n) \<notin> er_id ` set (transfer_events (db w)) \<and>
        rand w n \<notin> tr_id ` set (transfers (db w)))"

definition good_clock :: "'s world \<Rightarrow> bool" where
  "good_clock w \<longleftrightarrow> (\<forall>n. \<exists>j. time_MarshalJSON (clock w n) = Inr j)"

definition steady :: "uuid_lib \<Rightarrow> nat \<Rightarrow> 's world \<Rightarrow> bool" where
  "steady U k w \<longleftrightarrow>
     uuid_ok U \<and> faults w = [] \<and> db_wf (db w) \<and> list_all row_ok (transfers (db w)) \<and>
     fresh U k w \<and> good_clock w"

lemma fresh_later:
  assumes "fresh U (j + k) w" and "uuid_ok U" and "rand w' = rand w" and "drawn w' = drawn w + j"
    and "lr_id ` set (ledger_entries (db w')) \<subseteq>
      lr_id ` set (ledger_entries (db w)) \<union> rand w ` {drawn w ..< drawn w + j}"
    and "er_id ` set (transfer_events (db w')) \<subseteq>
      er_id ` set (transfer_events (db w)) \<union> (\<lambda>n. uuid_String U (rand w n)) ` {drawn w ..< drawn w + j}"
    and "tr_id ` set (transfers (db w')) \<subseteq>
      tr_id ` set (transfers (db w)) \<union> rand w ` {drawn w ..< drawn w + j}"
  shows "fresh U k w'"
proof -
  have inj: "inj_on (rand w) {drawn w ..< drawn w + (j + k)}" using assms(1) by (simp add: fresh_def)
  have new: "rand w n \<notin> rand w ` {drawn w ..< drawn w + j}"
    "uuid_String U (rand w n) \<notin> (\<lambda>n. uuid_String U (rand w n)) ` {drawn w ..< drawn w + j}"
    if "n \<in> {drawn w + j ..< drawn w + j + k}" for n
    using that by (auto simp: uuid_String_inject [OF assms(2)] dest!: inj_onD [OF inj])
  have old: "rand w n \<notin> lr_id ` set (ledger_entries (db w))"
    "uuid_String U (rand w n) \<notin> er_id ` set (transfer_events (db w))"
    "rand w n \<notin> tr_id ` set (transfers (db w))"
    if "n \<in> {drawn w + j ..< drawn w + j + k}" for n
    using assms(1) that by (simp_all add: fresh_def)
  have "inj_on (rand w) {drawn w + j ..< drawn w + j + k}"
    using inj by (rule inj_on_subset) auto
  moreover have "rand w n \<notin> lr_id ` set (ledger_entries (db w'))"
    "uuid_String U (rand w n) \<notin> er_id ` set (transfer_events (db w'))"
    "rand w n \<notin> tr_id ` set (transfers (db w'))"
    if n: "n \<in> {drawn w + j ..< drawn w + j + k}" for n
    using assms(5-7) old [OF n] new [OF n] by blast+
  ultimately show ?thesis unfolding fresh_def assms(3,4) by blast
qed

lemma steady_fresh: "steady U k w \<Longrightarrow> fresh U k w" "steady U k w \<Longrightarrow> uuid_ok U"
  by (simp_all add: steady_def)

lemma steady_less: "steady U k w \<Longrightarrow> j \<le> k \<Longrightarrow> steady U j w"
  by (auto simp: steady_def fresh_def intro: inj_on_subset)

lemma steady_budget: "steady U (4 + b) w \<Longrightarrow> steady U (3 + Suc b) w" "steady U (4 + b) w \<Longrightarrow> steady U (Suc b) w"
  by (auto intro: steady_less)

lemma run_wf: "steady U b w \<Longrightarrow> run U E p w = (x, w') \<Longrightarrow> db_wf (db w')"
  using schema.run_keeps [where p = p and w = w and U = U and E = E] by (simp add: steady_def)

lemma steady_row: "steady U b w \<Longrightarrow> transfer_at (db w) i = Some r \<Longrightarrow>
    row_ok r \<and> r \<in> set (transfers (db w)) \<and> tr_id r = tr_uuid i"
  by (auto simp: transfer_at_def steady_def list_all_iff dest: find_SomeD)

lemma steady_version:
  "steady U b w \<Longrightarrow> transfer_at (db w) i = Some r \<Longrightarrow> inc64 (tr_version r) = tr_version r + 1"
  using steady_row [of U b w i r] by (intro inc64_less) (simp add: row_ok_def)

section \<open>Reading a transfer back\<close>

definition row_transfer :: "transfer_row \<Rightarrow> Transfer" where
  "row_transfer r =
     \<lparr>t_ID = TransferID (tr_id r), t_IdempotencyKey = tr_idempotency_key r,
      t_SourceAccountID = AccountID (tr_source_account_id r),
      t_DestAccountID = AccountID (tr_dest_account_id r),
      t_Amount = \<lparr>m_Amount = tr_amount r, m_Currency = tr_currency r\<rparr>,
      t_State = tr_state r, t_ExternalRef = tr_external_ref r,
      t_FailureReason = tr_failure_reason r, t_DebitPosted = tr_debit_posted r,
      t_CreditPosted = tr_credit_posted r, t_CreatedAt = go_time (tr_created_at r),
      t_UpdatedAt = go_time (tr_updated_at r), t_Version = tr_version r\<rparr>"

lemma row_transfer_sel [simp]:
  "t_ID (row_transfer r) = TransferID (tr_id r)"
  "t_SourceAccountID (row_transfer r) = AccountID (tr_source_account_id r)"
  "t_DestAccountID (row_transfer r) = AccountID (tr_dest_account_id r)"
  "t_Amount (row_transfer r) = \<lparr>m_Amount = tr_amount r, m_Currency = tr_currency r\<rparr>"
  "t_State (row_transfer r) = tr_state r" "t_Version (row_transfer r) = tr_version r"
  "t_FailureReason (row_transfer r) = tr_failure_reason r"
  "t_DebitPosted (row_transfer r) = tr_debit_posted r"
  "t_CreditPosted (row_transfer r) = tr_credit_posted r"
  by (simp_all add: row_transfer_def)

lemma row_of_row_transfer [simp]: "row_of (row_transfer r) = r"
  by (simp add: row_of_def transfer_row_of_def row_transfer_def)

lemma scanTransfer_row: "uuid_ok U \<Longrightarrow> scanTransfer U (Inr r) = Inr (row_transfer r)"
  by (simp add: scanTransfer_def row_transfer_def ParseTransferID_def ParseAccountID_def)

lemma Execute_run:
  assumes "steady U b w" and "transfer_at (db w) i = Some r"
  shows "run U E (Execute U i) w = run U E (dispatch U (row_transfer r)) w"
  using assms
  by (simp add: Execute_def Transfers_FindByID_def TransferRepo_FindByID_def sql_exec_nofault
      steady_def select_transfer_def transfer_at_def scanTransfer_row)

section \<open>Events and messages\<close>

text \<open>One event and one outbox message about \<open>t\<close> were added, and nothing else but time changed.\<close>

definition message_of :: "uuid_lib \<Rightarrow> transfer_row \<Rightarrow> EventType \<Rightarrow> json \<Rightarrow> bytes" where
  "message_of U r typ ts =
     JSON (JObj [(''transfer_id'', JStr (uuid_String U (tr_id r))),
                 (''event_type'', JStr (event_string typ)),
                 (''state'', JStr (state_string (tr_state r))), (''timestamp'', ts)])"

definition announced :: "uuid_lib \<Rightarrow> transfer_row \<Rightarrow> EventType \<Rightarrow> database \<Rightarrow> database \<Rightarrow> bool" where
  "announced U r typ d d' \<longleftrightarrow>
     (\<exists>e. transfer_events d' = transfer_events d @ [e] \<and>
        er_transfer_id e = tr_id r \<and> er_event_type e = typ \<and> er_state e = tr_state r) \<and>
     (\<exists>m ts. outbox d' = outbox d @ [m] \<and> ob_subject m = event_string typ \<and>
        ob_status m = OutboxPending \<and> ob_payload m = message_of U r typ ts)"

lemma publishEvent_run:
  assumes "steady U (Suc b) w" and "tr_uuid (t_ID t) \<in> tr_id ` set (transfers (db w))"
    and "nchars (m_Currency (t_Amount t)) = 3"
  obtains w' where "run U E (publishEvent U t typ) w = (None, w')" and "steady U b w'"
    and "accounts (db w') = accounts (db w)" and "ledger_entries (db w') = ledger_entries (db w)"
    and "transfers (db w') = transfers (db w)" and "ext w' = ext w"
    and "announced U (row_of t) typ (db w) (db w')"
proof -
  have c: "char3 (m_Currency (t_Amount t)) = Some (m_Currency (t_Amount t))"
    using assms(3) by (simp add: char3_def)
  obtain ts where ts: "time_MarshalJSON (clock w (Suc (ticks w))) = Inr ts"
    using assms(1) by (auto simp: steady_def good_clock_def)
  let ?ev = "NewEvent U (rand w (drawn w)) (clock w (ticks w)) t typ"
  let ?er = "\<lparr>er_id = ev_EventID ?ev, er_transfer_id = tr_uuid (ev_TransferID ?ev),
    er_event_type = ev_Type ?ev, er_state = ev_State ?ev, er_amount = m_Amount (ev_Amount ?ev),
    er_currency = m_Currency (t_Amount t), er_occurred_at = pg_time (ev_OccurredAt ?ev),
    er_metadata = ev_Metadata ?ev\<rparr>"
  let ?ob = "\<lparr>ob_id = outbox_seq (db w), ob_subject = event_string typ,
    ob_payload = message_of U (row_of t) typ ts, ob_status = OutboxPending,
    ob_created_at = pg_time (clock w (Suc (Suc (ticks w)))), ob_published_at = None\<rparr>"
  let ?w = "w\<lparr>db := (db w)\<lparr>transfer_events := transfer_events (db w) @ [?er],
      outbox := outbox (db w) @ [?ob], outbox_seq := outbox_seq (db w) + 1\<rparr>,
    drawn := Suc (drawn w), ticks := Suc (Suc (Suc (ticks w)))\<rparr>"
  have id: "ev_EventID ?ev = uuid_String U (rand w (drawn w))"
    by (simp add: NewEvent_def TransferID_String_def NewTransferID_def)
  have unused: "ev_EventID ?ev \<notin> er_id ` set (transfer_events (db w))"
    unfolding id using assms(1) by (simp add: steady_def fresh_def)
  have amount: "ev_Amount ?ev = t_Amount t" "ev_TransferID ?ev = t_ID t"
    by (simp_all add: NewEvent_def)
  have run: "run U E (publishEvent U t typ) w = (None, ?w)"
    using assms(1,2) c ts unused
    by (simp add: publishEvent_def port_defs draw_uuid_def read_clock_def EventStore_Append_def
        OutboxWriter_Write_def sql_exec_nofault steady_def insert_event_def insert_outbox_def
        amount as_error_def plain_error_def event_payload_def message_of_def row_of_def transfer_row_of_def
        TransferID_String_def)
  moreover have "steady U b ?w"
  proof -
    have "fresh U b ?w"
      by (rule fresh_later [of U 1 b w]) (use steady_fresh [OF assms(1)] in \<open>auto simp: id\<close>)
    with assms(1) run_wf [OF assms(1) run] show ?thesis by (simp add: steady_def good_clock_def)
  qed
  moreover have "announced U (row_of t) typ (db w) (db ?w)"
    by (auto simp: announced_def NewEvent_def row_of_def transfer_row_of_def)
  ultimately show ?thesis using that [of ?w] by simp
qed

section \<open>Postings\<close>

text \<open>The ledger after one posting of \<open>amount\<close> from \<open>src\<close> to \<open>dst\<close>.\<close>

definition ledger_leg ::
  "AccountID \<Rightarrow> AccountID \<Rightarrow> Money \<Rightarrow> database \<Rightarrow> database \<Rightarrow> bool" where
  "ledger_leg src dst amount d d' \<longleftrightarrow>
     (\<exists>p d1. leg src dst amount p \<and> insert_all (Entries p) d = Inr d1 \<and>
        ledger_entries d' = ledger_entries d1)"

lemma sum_balance_cong: "ledger_entries d' = ledger_entries d \<Longrightarrow> sum_balance a c d' = sum_balance a c d"
  by (simp add: sum_balance_def)

lemma ledger_leg_balance:
  assumes "ledger_leg src dst amount d d'"
  shows "sum_balance a c d' = sum_balance a c d +
    (if rstrip (m_Currency amount) = rstrip c
     then (if a = dst then sint (m_Amount amount) else 0) -
          (if a = src then sint (m_Amount amount) else 0) else 0)"
proof -
  from assms obtain p d1 where p: "leg src dst amount p" "insert_all (Entries p) d = Inr d1"
    and "ledger_entries d' = ledger_entries d1" unfolding ledger_leg_def by blast
  then show ?thesis using book.leg_bal [OF p, of a c] by (simp add: sum_balance_cong [of d' d1])
qed

lemma insert_all_frame:
  "insert_all es d = Inr d1 \<Longrightarrow> accounts e = accounts d \<Longrightarrow> ledger_entries e = ledger_entries d \<Longrightarrow>
     \<exists>e1. insert_all es e = Inr e1 \<and> ledger_entries e1 = ledger_entries d1"
proof (induction es arbitrary: d e)
  case Nil
  then show ?case by simp
next
  case (Cons x xs)
  then obtain d' where d': "insert_ledger_entry x d = Inr d'" and rest: "insert_all xs d' = Inr d1"
    by (auto split: sum.splits)
  then obtain e' where e': "insert_ledger_entry x e = Inr e'" "accounts e' = accounts d'"
    "ledger_entries e' = ledger_entries d'"
    using Cons.prems by (auto simp: insert_ledger_entry_Inr has_account_def)
  with Cons.IH [OF rest e'(2,3)] show ?case by simp
qed

lemma ledger_leg_from:
  "ledger_leg src dst amount d d' \<Longrightarrow> accounts e = accounts d \<Longrightarrow>
     ledger_entries e = ledger_entries d \<Longrightarrow> ledger_leg src dst amount e d'"
  unfolding ledger_leg_def by (metis insert_all_frame)

text \<open>The posting \<open>newPosting\<close> builds, the ledger that takes it, and the world after both.\<close>

abbreviation drawn_posting ::
  "'s world \<Rightarrow> AccountID \<Rightarrow> AccountID \<Rightarrow> Money \<Rightarrow> string \<Rightarrow> go_error + Posting" where
  "drawn_posting w src dst amount d \<equiv>
     NewPosting (clock w (ticks w)) (rand w (Suc (drawn w))) (rand w (Suc (Suc (drawn w))))
       (NewTransactionID (rand w (drawn w))) src dst amount d"

abbreviation posted :: "'s world \<Rightarrow> Posting \<Rightarrow> 's world" where
  "posted w p \<equiv> w\<lparr>ticks := Suc (ticks w), drawn := Suc (Suc (Suc (drawn w))),
     db := (db w)\<lparr>ledger_entries := ledger_entries (db w) @ entry_rows (Entries p)\<rparr>\<rparr>"

lemma posting_accepted:
  assumes st: "steady U (3 + b) w" and pos: "0 < sint (m_Amount amount)"
    and cur: "nchars (m_Currency amount) = 3" and ne: "src \<noteq> dst"
    and acc: "has_account (db w) (acc_uuid src)" "has_account (db w) (acc_uuid dst)"
  obtains p where "drawn_posting w src dst amount d = Inr p" and "leg src dst amount p"
    and "insert_all (Entries p) (db w) = Inr (db (posted w p))" and "steady U b (posted w p)"
proof -
  let ?u1 = "rand w (Suc (drawn w))" and ?u2 = "rand w (Suc (Suc (drawn w)))"
  obtain p where p: "drawn_posting w src dst amount d = Inr p"
    using pos ne nchars_ne [OF cur] NewPosting_Inr_iff by blast
  note lg = NewPosting_leg [OF p]
  have fr: "fresh U (3 + b) w" and inj: "inj_on (rand w) {drawn w ..< drawn w + (3 + b)}"
    using st by (simp_all add: steady_def fresh_def)
  have ne12: "?u1 \<noteq> ?u2" using inj_onD [OF inj, of "Suc (drawn w)" "Suc (Suc (drawn w))"] by auto
  have ids: "le_uuid (e_ID (p_Debit p)) = ?u1" "le_uuid (e_ID (p_Credit p)) = ?u2"
    using NewPosting_fields(9,10) [OF p] by simp_all
  have ins: "insert_all (Entries p) (db w) = Inr (db (posted w p))"
    using fr cur insert_all_accepts [OF lg _ acc] ne12 by (simp add: ids char3_def fresh_def)
  have "lr_id ` set (entry_rows (Entries p)) = {?u1, ?u2}"
    using ids by (simp add: entry_rows_def Entries_def entry_row_def)
  then have "fresh U b (posted w p)"
    by (intro fresh_later [OF fr steady_fresh(2) [OF st]]) (auto simp: image_Un)
  moreover have "db_wf (db (posted w p))"
    using insert_all_wf [OF ins] st by (simp add: steady_def)
  ultimately have "steady U b (posted w p)" using st by (simp add: steady_def good_clock_def)
  with p lg ins show ?thesis using that by blast
qed

lemma posting_run:
  assumes st: "steady U (3 + b) w" and pos: "0 < sint (m_Amount amount)"
    and cur: "nchars (m_Currency amount) = 3" and ne: "src \<noteq> dst"
    and acc: "has_account (db w) (acc_uuid src)" "has_account (db w) (acc_uuid dst)"
    and k: "\<And>p. k (Inr p) = PostEntries (Entries p) k'"
  obtains w' where "run U E (newPosting src dst amount d k) w = run U E (k' None) w'"
    and "steady U b w'" and "ledger_leg src dst amount (db w) (db w')"
    and "accounts (db w') = accounts (db w)" and "transfers (db w') = transfers (db w)"
    and "transfer_events (db w') = transfer_events (db w)" and "outbox (db w') = outbox (db w)"
    and "ext w' = ext w"
proof -
  obtain p where p: "drawn_posting w src dst amount d = Inr p" "leg src dst amount p"
    and ins: "insert_all (Entries p) (db w) = Inr (db (posted w p))" and st': "steady U b (posted w p)"
    by (rule posting_accepted [OF st pos cur ne acc])
  have "run U E (newPosting src dst amount d k) w = run U E (k' None) (posted w p)"
    using st ins
    by (simp add: newPosting_def port_defs draw_uuid_def read_clock_def p k PostEntries_nofault
        steady_def)
  moreover have "ledger_leg src dst amount (db w) (db (posted w p))"
    unfolding ledger_leg_def using p(2) ins by auto
  ultimately show ?thesis using that [of "posted w p"] st' by simp
qed

section \<open>Moving the row\<close>

lemma transfer_at_updated:
  assumes "db_wf d" and "transfer_at d (t_ID t) = Some r" and "derived r t"
    and "transfers d' = updated t (transfers d)"
  shows "transfer_at d' j = (if j = t_ID t then Some (row_of t) else transfer_at d j)"
proof -
  have upd: "transfer_at d' j = map_option (\<lambda>r. if update_hits t r then update_row t r else r) (transfer_at d j)"
    unfolding transfer_at_def assms(4) by (rule find_map_key) simp
  show ?thesis
  proof (cases "j = t_ID t")
    case True
    have "update_hits t r" using derived_id [OF assms(3)] by (simp add: update_hits_def)
    with assms(2,3) True upd show ?thesis by (simp add: derived_def)
  next
    case False
    then have "\<not> update_hits t x" if "transfer_at d j = Some x" for x
      using that by (cases j; cases "t_ID t")
        (auto simp: transfer_at_def update_hits_def dest!: find_SomeD)
    with upd False show ?thesis by (cases "transfer_at d j") simp_all
  qed
qed

text \<open>The row of \<open>i\<close> became \<open>r'\<close>, with one event and one message; accounts and other rows stayed.\<close>

definition row_moved ::
  "uuid_lib \<Rightarrow> nat \<Rightarrow> TransferID \<Rightarrow> transfer_row \<Rightarrow> EventType \<Rightarrow> 's world \<Rightarrow> 's world \<Rightarrow> bool" where
  "row_moved U b i r' typ w w' \<longleftrightarrow>
     steady U b w' \<and> accounts (db w') = accounts (db w) \<and>
     (\<forall>j. transfer_at (db w') j = (if j = i then Some r' else transfer_at (db w) j)) \<and>
     announced U r' typ (db w) (db w')"

lemma derived_row_ok: "derived r t \<Longrightarrow> row_ok r \<Longrightarrow> row_ok (row_of t)"
  using moves_left_decreases [of "t_State t" "tr_state r"]
  by (auto simp: derived_def row_ok_def)

lemma row_ok_version: "row_ok r \<Longrightarrow> derived r t \<Longrightarrow> int32_range (t_Version t) \<and> int32_range (t_Version t - 1)"
  by (auto simp: row_ok_def derived_def int32_range_def)

lemma update_run:
  assumes st: "steady U b w" and at: "transfer_at (db w) (t_ID t) = Some r" and der: "derived r t"
  obtains w1 where "run U E (Transfers_UpdateState t k) w = run U E (k None) w1"
    and "steady U b w1" and "transfers (db w1) = updated t (transfers (db w))"
    and "accounts (db w1) = accounts (db w)" and "ledger_entries (db w1) = ledger_entries (db w)"
    and "transfer_events (db w1) = transfer_events (db w)" and "outbox (db w1) = outbox (db w)"
    and "ext w1 = ext w"
proof -
  note r = steady_row [OF st at]
  have v: "int32_range (t_Version t) \<and> int32_range (t_Version t - 1)"
    using row_ok_version [OF _ der] r by blast
  have hit: "update_hits t r" using derived_id [OF der] by (simp add: update_hits_def)
  with r have n: "filter (update_hits t) (transfers (db w)) \<noteq> []"
    by (auto simp: filter_empty_conv)
  let ?d = "(db w)\<lparr>transfers := updated t (transfers (db w))\<rparr>"
  let ?w = "w\<lparr>db := ?d\<rparr>"
  have upd: "update_transfer t (db w) = Inr (length (filter (update_hits t) (transfers (db w))), ?d)"
    using v by (simp add: update_transfer_def)
  have "run U E (Transfers_UpdateState t k) w = run U E (k None) ?w"
    using st upd n
    by (simp add: Transfers_UpdateState_def TransferRepo_UpdateState_def sql_exec_nofault steady_def)
  moreover have "steady U b ?w"
  proof -
    have only: "x = r" if x: "x \<in> set (transfers (db w))" and h: "update_hits t x" for x
    proof (rule same_id_same_row [OF _ x])
      show "db_wf (db w)" using st by (simp add: steady_def)
      show "r \<in> set (transfers (db w))" using r by simp
      show "tr_id x = tr_id r" using hit h by (simp add: update_hits_def)
    qed
    have new: "row_ok (update_row t r)"
      using derived_row_ok [OF der] r der by (simp add: derived_def)
    have old: "list_all row_ok (transfers (db w))" using st by (simp add: steady_def)
    have "row_ok (if update_hits t x then update_row t x else x)"
      if x: "x \<in> set (transfers (db w))" for x
      using only [OF x] new old x by (cases "update_hits t x") (simp_all add: list_all_iff)
    then have "list_all row_ok (updated t (transfers (db w)))"
      unfolding list.pred_map by (simp add: list_all_iff)
    moreover have "db_wf ?d" using update_transfer_wf [OF _ upd] st by (simp add: steady_def)
    moreover have "fresh U b ?w"
    proof (rule fresh_later [of U 0 b w])
      show "tr_id ` set (transfers (db ?w)) \<subseteq>
          tr_id ` set (transfers (db w)) \<union> rand w ` {drawn w ..< drawn w + 0}"
        by (simp add: updated_ids del: set_map)
    qed (use steady_fresh [OF st] in simp_all)
    ultimately show ?thesis using st by (simp add: steady_def good_clock_def)
  qed
  ultimately show ?thesis using that [of ?w] by simp
qed

lemma tick_steady: "steady U b w \<Longrightarrow> steady U b (w\<lparr>ticks := n\<rparr>)"
  by (simp add: steady_def fresh_def good_clock_def)

lemma derived_currency: "derived r t \<Longrightarrow> m_Currency (t_Amount t) = tr_currency r"
  by (simp add: derived_def row_of_update_iff)

text \<open>\<open>UpdateState\<close> and the event: the common end of every step that succeeds.\<close>

lemma update_publish_run:
  assumes st: "steady U (Suc b) w" and at: "transfer_at (db w) (t_ID t) = Some r" and der: "derived r t"
    and k: "k None = publishEvent U t typ"
  obtains w' where "run U E (Transfers_UpdateState t k) w = (None, w')"
    and "row_moved U b (t_ID t) (row_of t) typ w w'"
    and "ledger_entries (db w') = ledger_entries (db w)" and "ext w' = ext w"
proof -
  obtain w1 where run: "run U E (Transfers_UpdateState t k) w = run U E (k None) w1"
    and w1: "steady U (Suc b) w1" "transfers (db w1) = updated t (transfers (db w))"
      "accounts (db w1) = accounts (db w)" "ledger_entries (db w1) = ledger_entries (db w)"
      "transfer_events (db w1) = transfer_events (db w)" "outbox (db w1) = outbox (db w)"
      "ext w1 = ext w"
    by (rule update_run [OF st at der])
  have wf: "db_wf (db w)" using st by (simp add: steady_def)
  note moved = transfer_at_updated [OF wf at der w1(2)]
  have mem: "tr_uuid (t_ID t) \<in> tr_id ` set (transfers (db w1))"
    using steady_row [OF w1(1), of "t_ID t" "row_of t"] moved [of "t_ID t"] by force
  have cur: "nchars (m_Currency (t_Amount t)) = 3"
    using steady_row [OF st at] derived_currency [OF der] by (simp add: row_ok_def)
  obtain w2 where w2: "run U E (publishEvent U t typ) w1 = (None, w2)" "steady U b w2"
      "accounts (db w2) = accounts (db w1)" "ledger_entries (db w2) = ledger_entries (db w1)"
      "transfers (db w2) = transfers (db w1)" "ext w2 = ext w1"
      "announced U (row_of t) typ (db w1) (db w2)"
    by (rule publishEvent_run [OF w1(1) mem cur])
  have "row_moved U b (t_ID t) (row_of t) typ w w2"
    using w1 w2 moved by (simp add: row_moved_def announced_def transfer_at_def)
  with run w1 w2 k show ?thesis using that [of w2] by simp
qed

lemma advance_run:
  assumes st: "steady U (Suc b) w" and at: "transfer_at (db w) (t_ID t) = Some r" and ag: "agrees r t"
    and valid: "s \<in> set (validTransitions (tr_state r))"
  obtains w' where "run U E (advance U t s typ) w = (None, w')"
    and "row_moved U b (t_ID t)
      (row_of (t\<lparr>t_State := s, t_UpdatedAt := clock w (ticks w), t_Version := t_Version t + 1\<rparr>)) typ w w'"
    and "ledger_entries (db w') = ledger_entries (db w)" and "ext w' = ext w"
proof -
  let ?t = "t\<lparr>t_State := s, t_UpdatedAt := clock w (ticks w), t_Version := t_Version t + 1\<rparr>"
  let ?w = "w\<lparr>ticks := Suc (ticks w)\<rparr>"
  note v = steady_version [OF st at]
  have tr: "Transition (clock w (ticks w)) t s = Inr ?t"
    using valid ag v by (simp add: Transition_def agrees_def)
  have der: "derived r ?t" by (rule Transition_derived [OF ag v tr])
  have at': "transfer_at (db ?w) (t_ID ?t) = Some r" using at by simp
  let ?k = "\<lambda>err. case err of Some e \<Rightarrow> Return (Some (wrap ''update state'' e))
    | None \<Rightarrow> publishEvent U ?t typ"
  have k: "?k None = publishEvent U ?t typ" by simp
  obtain w' where "run U E (Transfers_UpdateState ?t ?k) ?w = (None, w')"
    and m: "row_moved U b (t_ID ?t) (row_of ?t) typ ?w w'"
    and "ledger_entries (db w') = ledger_entries (db ?w)" and "ext w' = ext ?w"
    by (rule update_publish_run [where k = ?k, OF tick_steady [OF st] at' der k])
  moreover have "row_moved U b (t_ID t) (row_of ?t) typ w w'"
    using m by (simp add: row_moved_def)
  ultimately show ?thesis
    using that [of w'] by (simp add: advance_def Now_def read_clock_def tr)
qed

lemma failWith_run:
  assumes st: "steady U (Suc b) w" and at: "transfer_at (db w) (t_ID t) = Some r" and ag: "agrees r t"
    and valid: "StateFailed \<in> set (validTransitions (tr_state r))"
  obtains w' where "run U E (failWith U t reason) w = (None, w')"
    and "row_moved U b (t_ID t)
      (row_of (t\<lparr>t_FailureReason := reason, t_State := StateFailed, t_UpdatedAt := clock w (ticks w),
         t_Version := t_Version t + 1\<rparr>)) EventTransferFailed w w'"
    and "ledger_entries (db w') = ledger_entries (db w)" and "ext w' = ext w"
proof -
  let ?t = "t\<lparr>t_FailureReason := reason, t_State := StateFailed, t_UpdatedAt := clock w (ticks w),
    t_Version := t_Version t + 1\<rparr>"
  let ?w = "w\<lparr>ticks := Suc (ticks w)\<rparr>"
  note v = steady_version [OF st at]
  have tr: "Transition (clock w (ticks w)) (t\<lparr>t_FailureReason := reason\<rparr>) StateFailed = Inr ?t"
    using valid ag v by (simp add: Transition_def agrees_def)
  have der: "derived r ?t" by (rule Transition_derived [OF _ v tr]) (simp add: ag)
  have not_failed: "t_State t \<noteq> StateFailed" using valid ag by (auto simp: agrees_def)
  have at': "transfer_at (db ?w) (t_ID ?t) = Some r" using at by simp
  let ?k = "\<lambda>err. case err of Some e \<Rightarrow> Return (Some (wrap ''update state to failed'' e))
    | None \<Rightarrow> publishEvent U ?t EventTransferFailed"
  have k: "?k None = publishEvent U ?t EventTransferFailed" by simp
  obtain w' where "run U E (Transfers_UpdateState ?t ?k) ?w = (None, w')"
    and m: "row_moved U b (t_ID ?t) (row_of ?t) EventTransferFailed ?w w'"
    and "ledger_entries (db w') = ledger_entries (db ?w)" and "ext w' = ext ?w"
    by (rule update_publish_run [where k = ?k, OF tick_steady [OF st] at' der k])
  moreover have "row_moved U b (t_ID t) (row_of ?t) EventTransferFailed w w'"
    using m by (simp add: row_moved_def)
  ultimately show ?thesis
    using that [of w'] not_failed by (simp add: failWith_def Now_def read_clock_def tr)
qed

lemma row_moved_from:
  assumes "row_moved U b i r' typ w1 w'" and "accounts (db w1) = accounts (db w)"
    and "transfers (db w1) = transfers (db w)"
    and "transfer_events (db w1) = transfer_events (db w)" and "outbox (db w1) = outbox (db w)"
  shows "row_moved U b i r' typ w w'"
  using assms by (simp add: row_moved_def announced_def transfer_at_def)

section \<open>The steps\<close>

abbreviation row_src :: "transfer_row \<Rightarrow> AccountID" where
  "row_src r \<equiv> AccountID (tr_source_account_id r)"

abbreviation row_dst :: "transfer_row \<Rightarrow> AccountID" where
  "row_dst r \<equiv> AccountID (tr_dest_account_id r)"

abbreviation row_amount :: "transfer_row \<Rightarrow> Money" where
  "row_amount r \<equiv> \<lparr>m_Amount = tr_amount r, m_Currency = tr_currency r\<rparr>"

abbreviation row_float :: "transfer_row \<Rightarrow> AccountID" where
  "row_float r \<equiv> FloatAccounts (tr_currency r)"

text \<open>The status of an account, and the balance that \<open>GetBalance\<close> reports.\<close>

definition status_at :: "database \<Rightarrow> AccountID \<Rightarrow> Status option" where
  "status_at d a = map_option ac_status (find (\<lambda>r. ac_id r = acc_uuid a) (accounts d))"

lemma status_at_has: "status_at d a = Some s \<Longrightarrow> has_account d (acc_uuid a)"
  by (force simp: status_at_def has_account_def dest!: find_SomeD)

lemma has_account_status: "has_account d (acc_uuid a) \<Longrightarrow> \<exists>s. status_at d a = Some s"
  by (cases "find (\<lambda>r. ac_id r = acc_uuid a) (accounts d)")
    (auto simp: status_at_def has_account_def find_None_iff)

definition account_at :: "database \<Rightarrow> AccountID \<Rightarrow> Account" where
  "account_at d a =
     (let r = the (find (\<lambda>r. ac_id r = acc_uuid a) (accounts d)) in
      \<lparr>a_ID = a, a_OwnerName = ac_owner_name r, a_Currency = ac_currency r, a_Status = ac_status r,
       a_CreatedAt = go_time (ac_created_at r), a_UpdatedAt = go_time (ac_updated_at r)\<rparr>)"

lemma account_at_status: "status_at d a = Some s \<Longrightarrow> a_Status (account_at d a) = s"
  by (auto simp: status_at_def account_at_def Let_def)

lemma lock_run:
  assumes "steady U b w" and "status_at (db w) a = Some s"
  shows "run U E (Accounts_LockForUpdate a k) w = run U E (k (Inr (account_at (db w) a))) w"
proof -
  obtain r where r: "find (\<lambda>r. ac_id r = acc_uuid a) (accounts (db w)) = Some r"
    using assms(2) by (auto simp: status_at_def)
  then have "ac_id r = acc_uuid a" by (auto dest: find_SomeD)
  with assms(1) r show ?thesis
    by (simp add: Accounts_LockForUpdate_def AccountRepo_LockForUpdate_def sql_exec_nofault
        steady_def select_account_def scanAccount_def ParseAccountID_def account_at_def)
qed

abbreviation balance_word :: "AccountID \<Rightarrow> Currency \<Rightarrow> database \<Rightarrow> int64" where
  "balance_word a c d \<equiv> word_of_int (sum_balance a c d)"

lemma balance_run:
  assumes "steady U b w" and "int64_range (sum_balance a c (db w))"
  shows "run U E (GetBalance a c k) w =
      run U E (k (Inr \<lparr>m_Amount = balance_word a c (db w), m_Currency = c\<rparr>)) w"
    and "sint (balance_word a c (db w)) = sum_balance a c (db w)"
  using assms
  by (simp_all add: GetBalance_def LedgerRepo_GetBalance_def sql_exec_nofault steady_def
      select_balance_def int64_range_def sint64_exact)

lemma row_facts:
  assumes "steady U b w" and "transfer_at (db w) i = Some r"
  shows "0 < sint (tr_amount r)" and "nchars (tr_currency r) = 3" and "row_src r \<noteq> row_dst r"
    and "has_account (db w) (tr_source_account_id r)" and "has_account (db w) (tr_dest_account_id r)"
    and "TransferID (tr_id r) = i"
  using steady_row [OF assms] assms(1)
  by (auto simp: steady_def db_wf_def list_all_iff row_ok_def)

lemma agrees_row_transfer [simp]: "agrees r (row_transfer r)"
  using agrees_row_of [of "row_transfer r"] by simp

lemma row_moved_end:
  "row_moved U b i r' typ w w' \<Longrightarrow> steady U b w' \<and> transfer_at (db w') i = Some r'"
  by (simp add: row_moved_def)

lemma has_account_accounts: "accounts d' = accounts d \<Longrightarrow> has_account d' = has_account d"
  by (simp add: has_account_def fun_eq_iff)

lemma status_at_accounts: "accounts d' = accounts d \<Longrightarrow> status_at d' = status_at d"
  by (simp add: status_at_def fun_eq_iff)

text \<open>A posting for a stored transfer, followed by the step's move: the shape of the two steps that
  touch the ledger.\<close>

lemma post_advance_run:
  assumes st: "steady U (4 + b) w" and at: "transfer_at (db w) i = Some r"
    and acc: "has_account (db w) (acc_uuid src)" "has_account (db w) (acc_uuid dst)" and ne: "src \<noteq> dst"
    and ag: "agrees r t" and valid: "s \<in> set (validTransitions (tr_state r))"
    and k: "\<And>p. k (Inr p) = PostEntries (Entries p) k'" and k': "k' None = advance U t s typ"
  obtains w' T where "run U E (newPosting src dst (row_amount r) m k) w = (None, w')"
    and "row_moved U b i (row_of (t\<lparr>t_State := s, t_UpdatedAt := T, t_Version := t_Version t + 1\<rparr>)) typ w w'"
    and "ledger_leg src dst (row_amount r) (db w) (db w')" and "ext w' = ext w"
proof -
  note f = row_facts [OF st at]
  have pos: "0 < sint (m_Amount (row_amount r))" "nchars (m_Currency (row_amount r)) = 3"
    using f by simp_all
  obtain w1 where w1: "run U E (newPosting src dst (row_amount r) m k) w = run U E (k' None) w1"
      "steady U (Suc b) w1" "ledger_leg src dst (row_amount r) (db w) (db w1)"
      "accounts (db w1) = accounts (db w)" "transfers (db w1) = transfers (db w)"
      "transfer_events (db w1) = transfer_events (db w)" "outbox (db w1) = outbox (db w)"
      "ext w1 = ext w"
    by (rule posting_run [OF steady_budget(1) [OF st] pos ne acc k])
  have id: "t_ID t = i" using ag f(6) by (cases "t_ID t") (simp add: agrees_def row_of_update_iff)
  have at1: "transfer_at (db w1) (t_ID t) = Some r" using at w1(5) id by (simp add: transfer_at_def)
  obtain w2 where w2: "run U E (advance U t s typ) w1 = (None, w2)"
    "row_moved U b (t_ID t) (row_of (t\<lparr>t_State := s, t_UpdatedAt := clock w1 (ticks w1),
       t_Version := t_Version t + 1\<rparr>)) typ w1 w2"
    "ledger_entries (db w2) = ledger_entries (db w1)" "ext w2 = ext w1"
    by (rule advance_run [OF w1(2) at1 ag valid])
  have "ledger_leg src dst (row_amount r) (db w) (db w2)"
    using w1(3) w2(3) by (auto simp: ledger_leg_def)
  with w1 w2 k' show ?thesis
    using that [of w2 "clock w1 (ticks w1)"] row_moved_from [OF w2(2) w1(4-7)] id by simp
qed

subsection \<open>From PENDING\<close>

definition after_debit :: "transfer_row \<Rightarrow> time \<Rightarrow> transfer_row" where
  "after_debit r T = r\<lparr>tr_state := StateDebited, tr_debit_posted := True, tr_updated_at := pg_time T,
     tr_version := tr_version r + 1\<rparr>"

definition after_bank :: "transfer_row \<Rightarrow> BankCallResult \<Rightarrow> time \<Rightarrow> transfer_row" where
  "after_bank r res T = r\<lparr>tr_state := StateBankCalled, tr_external_ref := b_ExternalRef res,
     tr_updated_at := pg_time T, tr_version := tr_version r + 1\<rparr>"

definition after_credit :: "transfer_row \<Rightarrow> time \<Rightarrow> transfer_row" where
  "after_credit r T = r\<lparr>tr_state := StateCredited, tr_credit_posted := True, tr_updated_at := pg_time T,
     tr_version := tr_version r + 1\<rparr>"

definition after_complete :: "transfer_row \<Rightarrow> time \<Rightarrow> transfer_row" where
  "after_complete r T = r\<lparr>tr_state := StateCompleted, tr_updated_at := pg_time T,
     tr_version := tr_version r + 1\<rparr>"

definition after_failure :: "transfer_row \<Rightarrow> string \<Rightarrow> time \<Rightarrow> transfer_row" where
  "after_failure r reason T = r\<lparr>tr_state := StateFailed, tr_failure_reason := reason,
     tr_updated_at := pg_time T, tr_version := tr_version r + 1\<rparr>"

lemma after_rows:
  "row_of (row_transfer r\<lparr>t_DebitPosted := True, t_State := StateDebited, t_UpdatedAt := T,
     t_Version := tr_version r + 1\<rparr>) = after_debit r T"
  "row_of (row_transfer r\<lparr>t_ExternalRef := b_ExternalRef res, t_State := StateBankCalled,
     t_UpdatedAt := T, t_Version := tr_version r + 1\<rparr>) = after_bank r res T"
  "row_of (row_transfer r\<lparr>t_CreditPosted := True, t_State := StateCredited, t_UpdatedAt := T,
     t_Version := tr_version r + 1\<rparr>) = after_credit r T"
  "row_of (row_transfer r\<lparr>t_State := StateCompleted, t_UpdatedAt := T,
     t_Version := tr_version r + 1\<rparr>) = after_complete r T"
  "row_of (row_transfer r\<lparr>t_FailureReason := reason, t_State := StateFailed, t_UpdatedAt := T,
     t_Version := tr_version r + 1\<rparr>) = after_failure r reason T"
  by (simp_all add: after_debit_def after_bank_def after_credit_def after_complete_def
      after_failure_def row_of_def transfer_row_of_def row_transfer_def)

text \<open>What is left of a PENDING transfer's step once the funds were seen.\<close>

definition debit_posting :: "uuid_lib \<Rightarrow> transfer_row \<Rightarrow> go_error option prog" where
  "debit_posting U r =
     newPosting (row_src r) (row_float r) (row_amount r)
       (''debit reserve transfer/'' @ TransferID_String U (TransferID (tr_id r))) (\<lambda>posting.
     case posting of
       Inl err \<Rightarrow> Return (Some (wrap ''build debit posting'' err))
     | Inr p \<Rightarrow>
     PostEntries (Entries p) (\<lambda>err.
     case err of
       Some e \<Rightarrow> Return (Some (wrap ''post debit entries'' e))
     | None \<Rightarrow> advance U (row_transfer r\<lparr>t_DebitPosted := True\<rparr>) StateDebited EventTransferDebited))"

lemma debit_posting_run:
  assumes st: "steady U (4 + b) w" and at: "transfer_at (db w) i = Some r" and s: "tr_state r = StatePending"
    and float: "has_account (db w) (acc_uuid (row_float r))" "row_float r \<noteq> row_src r"
  obtains w' T where "run U E (debit_posting U r) w = (None, w')"
    and "row_moved U b i (after_debit r T) EventTransferDebited w w'"
    and "ledger_leg (row_src r) (row_float r) (row_amount r) (db w) (db w')" and "ext w' = ext w"
proof -
  let ?t = "row_transfer r\<lparr>t_DebitPosted := True\<rparr>"
  let ?k' = "\<lambda>err. case err of Some e \<Rightarrow> Return (Some (wrap ''post debit entries'' e))
    | None \<Rightarrow> advance U ?t StateDebited EventTransferDebited"
  let ?k = "\<lambda>posting. case posting of Inl err \<Rightarrow> Return (Some (wrap ''build debit posting'' err))
    | Inr p \<Rightarrow> PostEntries (Entries p) ?k'"
  have acc: "has_account (db w) (acc_uuid (row_src r))" using row_facts [OF st at] by simp
  have valid: "StateDebited \<in> set (validTransitions (tr_state r))" by (simp add: s)
  obtain w' T where "run U E (debit_posting U r) w = (None, w')"
    "row_moved U b i (row_of (?t\<lparr>t_State := StateDebited, t_UpdatedAt := T, t_Version := t_Version ?t + 1\<rparr>))
       EventTransferDebited w w'"
    "ledger_leg (row_src r) (row_float r) (row_amount r) (db w) (db w')" "ext w' = ext w"
    unfolding debit_posting_def
    by (rule post_advance_run [where k = ?k and k' = ?k' and t = ?t, OF st at acc float(1)
        float(2) [symmetric] _ valid]) simp_all
  with that [of w' T] show ?thesis by (simp add: after_rows)
qed

text \<open>An active account with the funds: the amount moves to the float account.\<close>

lemma execute_debit:
  assumes st: "steady U (4 + b) w" and at: "transfer_at (db w) i = Some r" and s: "tr_state r = StatePending"
    and active: "status_at (db w) (row_src r) = Some StatusActive"
    and range: "int64_range (sum_balance (row_src r) (tr_currency r) (db w))"
    and funds: "sint (tr_amount r) \<le> sum_balance (row_src r) (tr_currency r) (db w)"
    and float: "has_account (db w) (acc_uuid (row_float r))" "row_float r \<noteq> row_src r"
  obtains w' T where "run U E (Execute U i) w = (None, w')"
    and "row_moved U b i (after_debit r T) EventTransferDebited w w'"
    and "ledger_leg (row_src r) (row_float r) (row_amount r) (db w) (db w')" and "ext w' = ext w"
proof -
  have "run U E (Execute U i) w = run U E (debit_posting U r) w"
    using funds account_at_status [OF active]
    by (simp add: Execute_run [OF st at] dispatch_def s reserveDebit_def lock_run [OF st active]
        balance_run [OF st range] CanTransact_def debit_posting_def)
  then show ?thesis
    by (metis debit_posting_run [OF st at s float, of E thesis] that)
qed

text \<open>Without the funds, or on an account that is not active, the transfer fails before any posting.\<close>

lemma fail_run:
  assumes st: "steady U (4 + b) w" and at: "transfer_at (db w) i = Some r" and s: "tr_state r = StatePending"
    and run: "run U E (Execute U i) w = run U E (failWith U (row_transfer r) reason) w"
  obtains w' T where "run U E (Execute U i) w = (None, w')"
    and "row_moved U b i (after_failure r reason T) EventTransferFailed w w'"
    and "ledger_entries (db w') = ledger_entries (db w)" and "ext w' = ext w"
proof -
  have at': "transfer_at (db w) (t_ID (row_transfer r)) = Some r"
    using at row_facts(6) [OF st at] by simp
  have valid: "StateFailed \<in> set (validTransitions (tr_state r))" by (simp add: s)
  show ?thesis
    by (rule failWith_run [OF steady_budget(2) [OF st] at' agrees_row_transfer valid, where E = E and reason = reason])
      (use that [of _ "clock w (ticks w)"] run row_facts(6) [OF st at] in \<open>simp add: after_rows\<close>)
qed

lemma execute_insufficient:
  assumes st: "steady U (4 + b) w" and at: "transfer_at (db w) i = Some r" and s: "tr_state r = StatePending"
    and active: "status_at (db w) (row_src r) = Some StatusActive"
    and range: "int64_range (sum_balance (row_src r) (tr_currency r) (db w))"
    and funds: "sum_balance (row_src r) (tr_currency r) (db w) < sint (tr_amount r)"
  obtains w' T where "run U E (Execute U i) w = (None, w')"
    and "row_moved U b i (after_failure r ''insufficient funds'' T) EventTransferFailed w w'"
    and "ledger_entries (db w') = ledger_entries (db w)" and "ext w' = ext w"
proof -
  have "run U E (Execute U i) w = run U E (failWith U (row_transfer r) ''insufficient funds'') w"
    using funds account_at_status [OF active]
    by (simp add: Execute_run [OF st at] dispatch_def s reserveDebit_def lock_run [OF st active]
        balance_run [OF st range] CanTransact_def)
  then show ?thesis by (rule fail_run [OF st at s]) (rule that)
qed

lemma execute_not_active:
  assumes st: "steady U (4 + b) w" and at: "transfer_at (db w) i = Some r" and s: "tr_state r = StatePending"
    and status: "status_at (db w) (row_src r) = Some x" "x \<noteq> StatusActive"
  obtains w' T reason where "run U E (Execute U i) w = (None, w')"
    and "row_moved U b i (after_failure r reason T) EventTransferFailed w w'"
    and "ledger_entries (db w') = ledger_entries (db w)" and "ext w' = ext w"
proof -
  obtain err where "CanTransact U (account_at (db w) (row_src r)) = Some err"
    using account_at_status [OF status(1)] status(2) by (cases x) (simp_all add: CanTransact_def)
  then have "run U E (Execute U i) w = run U E (failWith U (row_transfer r) (Error err)) w"
    by (simp add: Execute_run [OF st at] dispatch_def s reserveDebit_def lock_run [OF st status(1)])
  then show ?thesis by (rule fail_run [OF st at s]) (rule that)
qed

subsection \<open>From DEBITED\<close>

definition bank_request :: "uuid_lib \<Rightarrow> transfer_row \<Rightarrow> BankCallRequest" where
  "bank_request U r =
     \<lparr>b_TransferID = TransferID (tr_id r), b_SourceAccountID = row_src r, b_DestAccountID = row_dst r,
      b_Amount = row_amount r,
      b_Description = ''transfer/'' @ TransferID_String U (TransferID (tr_id r))\<rparr>"

lemma ext_steady: "steady U b w \<Longrightarrow> steady U b (w\<lparr>ext := s\<rparr>)"
  by (simp add: steady_def fresh_def good_clock_def)

lemma execute_bank_ok:
  assumes st: "steady U (4 + b) w" and at: "transfer_at (db w) i = Some r" and s: "tr_state r = StateDebited"
    and bank: "ext_bank E (bank_request U r) (ext w) = (Inr res, x)"
  obtains w' T where "run U E (Execute U i) w = (None, w')"
    and "row_moved U b i (after_bank r res T) EventTransferBankCalled w w'"
    and "ledger_entries (db w') = ledger_entries (db w)" and "ext w' = x"
proof -
  let ?w = "w\<lparr>ext := x\<rparr>"
  let ?t = "row_transfer r\<lparr>t_ExternalRef := b_ExternalRef res\<rparr>"
  have run: "run U E (Execute U i) w =
      run U E (advance U ?t StateBankCalled EventTransferBankCalled) ?w"
    using bank
    by (simp add: Execute_run [OF st at] dispatch_def s callBank_def InitiateTransfer_def on_ext_def
        bank_request_def)
  have at': "transfer_at (db ?w) (t_ID ?t) = Some r" using at row_facts(6) [OF st at] by simp
  have ag: "agrees r ?t" and valid: "StateBankCalled \<in> set (validTransitions (tr_state r))"
    by (simp_all add: s)
  obtain w' where "run U E (advance U ?t StateBankCalled EventTransferBankCalled) ?w = (None, w')"
    "row_moved U b (t_ID ?t) (row_of (?t\<lparr>t_State := StateBankCalled, t_UpdatedAt := clock ?w (ticks ?w),
       t_Version := t_Version ?t + 1\<rparr>)) EventTransferBankCalled ?w w'"
    "ledger_entries (db w') = ledger_entries (db ?w)" "ext w' = ext ?w"
    by (rule advance_run [OF ext_steady [OF steady_budget(2) [OF st]] at' ag valid])
  with run that [of w' "clock w (ticks w)"] row_facts(6) [OF st at] show ?thesis
    by (simp add: after_rows row_moved_def)
qed

subsection \<open>Compensation\<close>

lemma agrees_fields:
  assumes "agrees r t"
  shows "t_ID t = TransferID (tr_id r)" and "t_SourceAccountID t = row_src r"
    and "t_DestAccountID t = row_dst r" and "t_Amount t = row_amount r"
    and "t_State t = tr_state r" and "t_Version t = tr_version r"
  using assms
  by (cases "t_ID t"; cases "t_SourceAccountID t"; cases "t_DestAccountID t";
      simp add: agrees_def row_of_update_iff)+

lemma compensate_run:
  assumes st: "steady U (4 + b) w" and at: "transfer_at (db w) i = Some r"
    and s: "tr_state r = StateCompensating" and ag: "agrees r t"
    and flags: "t_DebitPosted t" "\<not> t_CreditPosted t"
    and float: "has_account (db w) (acc_uuid (row_float r))" "row_float r \<noteq> row_src r"
  obtains w' T where "run U E (compensate U t) w = (None, w')"
    and "row_moved U b i (row_of (t\<lparr>t_State := StateFailed, t_UpdatedAt := T,
      t_Version := t_Version t + 1\<rparr>)) EventTransferFailed w w'"
    and "ledger_leg (row_float r) (row_src r) (row_amount r) (db w) (db w')" and "ext w' = ext w"
proof -
  note f = row_facts [OF st at] and t = agrees_fields [OF ag]
  let ?k = "\<lambda>posting. case posting of Inl err \<Rightarrow> Return (Some (wrap ''build debit reversal'' err))
    | Inr p \<Rightarrow> PostEntries (Entries p) Return"
  have pos: "0 < sint (m_Amount (row_amount r))" "nchars (m_Currency (row_amount r)) = 3"
    and acc: "has_account (db w) (acc_uuid (row_src r))" using f by simp_all
  obtain w1 where w1: "run U E (newPosting (row_float r) (row_src r) (row_amount r)
        (''REVERSAL debit transfer/'' @ TransferID_String U (t_ID t)) ?k) w = run U E (Return None) w1"
      "steady U (Suc b) w1" "ledger_leg (row_float r) (row_src r) (row_amount r) (db w) (db w1)"
      "accounts (db w1) = accounts (db w)" "transfers (db w1) = transfers (db w)"
      "transfer_events (db w1) = transfer_events (db w)" "outbox (db w1) = outbox (db w)"
      "ext w1 = ext w"
    by (rule posting_run [where k = ?k and k' = Return, OF steady_budget(1) [OF st] pos float(2) float(1) acc]) simp_all
  have at1: "transfer_at (db w1) (t_ID t) = Some r" using at w1(5) t(1) f(6) by (simp add: transfer_at_def)
  have valid: "StateFailed \<in> set (validTransitions (tr_state r))" by (simp add: s)
  obtain w2 where w2: "run U E (failWith U t (t_FailureReason t)) w1 = (None, w2)"
    "row_moved U b (t_ID t) (row_of (t\<lparr>t_FailureReason := t_FailureReason t, t_State := StateFailed,
       t_UpdatedAt := clock w1 (ticks w1), t_Version := t_Version t + 1\<rparr>)) EventTransferFailed w1 w2"
    "ledger_entries (db w2) = ledger_entries (db w1)" "ext w2 = ext w1"
    by (rule failWith_run [OF w1(2) at1 ag valid])
  have "run U E (compensate U t) w = (None, w2)"
    using w1(1) w2(1) flags t by (simp add: compensate_def run_bind reverseDebit_def)
  moreover have "ledger_leg (row_float r) (row_src r) (row_amount r) (db w) (db w2)"
    using w1(3) w2(3) by (auto simp: ledger_leg_def)
  ultimately show ?thesis
    using that [of w2 "clock w1 (ticks w1)"] row_moved_from [OF w2(2) w1(4-7)] t(1) f(6) w1(8) w2(4)
    by simp
qed

text \<open>The bank's refusal: compensation runs to its end in the same delivery.\<close>

definition after_refusal :: "transfer_row \<Rightarrow> string \<Rightarrow> time \<Rightarrow> transfer_row" where
  "after_refusal r reason T = r\<lparr>tr_state := StateFailed, tr_failure_reason := reason,
     tr_updated_at := pg_time T, tr_version := tr_version r + 2\<rparr>"

lemma execute_bank_fail:
  assumes st: "steady U (4 + b) w" and at: "transfer_at (db w) i = Some r" and s: "tr_state r = StateDebited"
    and flags: "tr_debit_posted r" "\<not> tr_credit_posted r"
    and float: "has_account (db w) (acc_uuid (row_float r))" "row_float r \<noteq> row_src r"
    and bank: "ext_bank E (bank_request U r) (ext w) = (Inl err, x)"
  obtains w' T where "run U E (Execute U i) w = (None, w')"
    and "row_moved U b i (after_refusal r (Error err) T) EventTransferFailed w w'"
    and "ledger_leg (row_float r) (row_src r) (row_amount r) (db w) (db w')" and "ext w' = x"
proof -
  let ?w = "w\<lparr>ext := x, ticks := Suc (ticks w)\<rparr>"
  let ?t = "row_transfer r\<lparr>t_FailureReason := Error err, t_State := StateCompensating,
    t_UpdatedAt := clock w (ticks w), t_Version := tr_version r + 1\<rparr>"
  let ?k = "\<lambda>err. case err of Some e \<Rightarrow> Return (Some (wrap ''update state'' e))
    | None \<Rightarrow> compensate U ?t"
  have st': "steady U (4 + b) ?w" using tick_steady [OF ext_steady [OF st]] by simp
  note v = steady_version [OF st at]
  have tr: "Transition (clock w (ticks w)) (row_transfer r\<lparr>t_FailureReason := Error err\<rparr>)
      StateCompensating = Inr ?t"
    by (simp add: Transition_def s v)
  have run: "run U E (Execute U i) w = run U E (Transfers_UpdateState ?t ?k) ?w"
    using bank tr
    by (simp add: Execute_run [OF st at] dispatch_def s callBank_def InitiateTransfer_def on_ext_def
        bank_request_def startCompensation_def Now_def read_clock_def)
  have id: "t_ID ?t = i" using row_facts(6) [OF st at] by simp
  have at': "transfer_at (db ?w) (t_ID ?t) = Some r" using at id by simp
  have der: "derived r ?t" by (rule Transition_derived [OF _ v tr]) simp
  obtain w1 where w1: "run U E (Transfers_UpdateState ?t ?k) ?w = run U E (?k None) w1"
      "steady U (4 + b) w1" "transfers (db w1) = updated ?t (transfers (db ?w))"
      "accounts (db w1) = accounts (db ?w)" "ledger_entries (db w1) = ledger_entries (db ?w)"
      "transfer_events (db w1) = transfer_events (db ?w)" "outbox (db w1) = outbox (db ?w)"
      "ext w1 = ext ?w"
    by (rule update_run [OF st' at' der])
  have wf: "db_wf (db ?w)" using st' by (simp add: steady_def)
  note moved1 = transfer_at_updated [OF wf at' der w1(3)]
  have at1: "transfer_at (db w1) i = Some (row_of ?t)" using moved1 [of i] id by simp
  have same: "row_src (row_of ?t) = row_src r" "row_float (row_of ?t) = row_float r"
    "row_amount (row_of ?t) = row_amount r" "tr_state (row_of ?t) = StateCompensating"
    by (simp_all add: row_of_def transfer_row_of_def)
  have float1: "has_account (db w1) (acc_uuid (row_float (row_of ?t)))"
    "row_float (row_of ?t) \<noteq> row_src (row_of ?t)"
    using float same has_account_accounts [OF w1(4)] by simp_all
  have fl: "t_DebitPosted ?t" "\<not> t_CreditPosted ?t" using flags by simp_all
  obtain w2 T where w2: "run U E (compensate U ?t) w1 = (None, w2)"
    "row_moved U b i (row_of (?t\<lparr>t_State := StateFailed, t_UpdatedAt := T, t_Version := t_Version ?t + 1\<rparr>))
       EventTransferFailed w1 w2"
    "ledger_leg (row_float (row_of ?t)) (row_src (row_of ?t)) (row_amount (row_of ?t)) (db w1) (db w2)"
    "ext w2 = ext w1"
    by (rule compensate_run [OF w1(2) at1 same(4) agrees_row_of fl float1])
  have row: "row_of (?t\<lparr>t_State := StateFailed, t_UpdatedAt := T, t_Version := t_Version ?t + 1\<rparr>) =
      after_refusal r (Error err) T"
    by (simp add: row_of_def transfer_row_of_def row_transfer_def after_refusal_def)
  show ?thesis
  proof (rule that)
    show "run U E (Execute U i) w = (None, w2)" using run w1(1) w2(1) by simp
    show "row_moved U b i (after_refusal r (Error err) T) EventTransferFailed w w2"
      using w2(2) moved1 id w1(4,6,7) unfolding row by (simp add: row_moved_def announced_def)
    show "ledger_leg (row_float r) (row_src r) (row_amount r) (db w) (db w2)"
      using ledger_leg_from [OF w2(3)] w1(4,5) unfolding same by simp
    show "ext w2 = x" using w1(8) w2(4) by simp
  qed
qed

subsection \<open>From BANK\_CALLED, CREDITED and the terminal states\<close>

lemma execute_credit:
  assumes st: "steady U (4 + b) w" and at: "transfer_at (db w) i = Some r" and s: "tr_state r = StateBankCalled"
    and float: "has_account (db w) (acc_uuid (row_float r))" "row_float r \<noteq> row_dst r"
  obtains w' T where "run U E (Execute U i) w = (None, w')"
    and "row_moved U b i (after_credit r T) EventTransferCredited w w'"
    and "ledger_leg (row_float r) (row_dst r) (row_amount r) (db w) (db w')" and "ext w' = ext w"
proof -
  let ?t = "row_transfer r\<lparr>t_CreditPosted := True\<rparr>"
  let ?k' = "\<lambda>err. case err of Some e \<Rightarrow> Return (Some (wrap ''post credit entries'' e))
    | None \<Rightarrow> advance U ?t StateCredited EventTransferCredited"
  let ?k = "\<lambda>posting. case posting of Inl err \<Rightarrow> Return (Some (wrap ''build credit posting'' err))
    | Inr p \<Rightarrow> PostEntries (Entries p) ?k'"
  let ?m = "''credit transfer/'' @ TransferID_String U (TransferID (tr_id r))"
  have start: "run U E (Execute U i) w =
      run U E (newPosting (row_float r) (row_dst r) (row_amount r) ?m ?k) w"
    by (simp add: Execute_run [OF st at] dispatch_def s postCredit_def)
  have acc: "has_account (db w) (acc_uuid (row_dst r))" using row_facts [OF st at] by simp
  have valid: "StateCredited \<in> set (validTransitions (tr_state r))" by (simp add: s)
  obtain w' T where "run U E (newPosting (row_float r) (row_dst r) (row_amount r) ?m ?k) w = (None, w')"
    "row_moved U b i (row_of (?t\<lparr>t_State := StateCredited, t_UpdatedAt := T, t_Version := t_Version ?t + 1\<rparr>))
       EventTransferCredited w w'"
    "ledger_leg (row_float r) (row_dst r) (row_amount r) (db w) (db w')" "ext w' = ext w"
    by (rule post_advance_run [where k = ?k and k' = ?k' and t = ?t, OF st at float(1) acc
        float(2) _ valid]) simp_all
  with that [of w' T] start show ?thesis by (simp add: after_rows)
qed

lemma execute_complete:
  assumes st: "steady U (4 + b) w" and at: "transfer_at (db w) i = Some r" and s: "tr_state r = StateCredited"
  obtains w' T where "run U E (Execute U i) w = (None, w')"
    and "row_moved U b i (after_complete r T) EventTransferCompleted w w'"
    and "ledger_entries (db w') = ledger_entries (db w)" and "ext w' = ext w"
proof -
  have at': "transfer_at (db w) (t_ID (row_transfer r)) = Some r"
    using at row_facts(6) [OF st at] by simp
  have valid: "StateCompleted \<in> set (validTransitions (tr_state r))" by (simp add: s)
  show ?thesis
    by (rule advance_run [OF steady_budget(2) [OF st] at' agrees_row_transfer valid, of E EventTransferCompleted])
      (use that [of _ "clock w (ticks w)"] row_facts(6) [OF st at] in
        \<open>simp add: after_rows Execute_run [OF st at] dispatch_def s complete_def\<close>)
qed

lemma execute_terminal:
  assumes "steady U b w" and "transfer_at (db w) i = Some r" and "terminal (tr_state r)"
  shows "run U E (Execute U i) w = (None, w)"
  using assms(3) by (auto simp: Execute_run [OF assms(1,2)] dispatch_def)

section \<open>A transfer's life\<close>

text \<open>\<open>n\<close> deliveries of a message about transfer \<open>i\<close> to one worker.\<close>

primrec deliveries ::
  "uuid_lib \<Rightarrow> 's services \<Rightarrow> TransferID \<Rightarrow> nat \<Rightarrow> 's world \<Rightarrow> 's world" where
  "deliveries U E i 0 w = w"
| "deliveries U E i (Suc n) w = deliveries U E i n (snd (run U E (Execute U i) w))"

lemma deliveries_add: "deliveries U E i (m + n) w = deliveries U E i n (deliveries U E i m w)"
  by (induction m arbitrary: w) simp_all

lemma deliveries_terminal:
  "steady U b w \<Longrightarrow> transfer_at (db w) i = Some r \<Longrightarrow> terminal (tr_state r) \<Longrightarrow>
     deliveries U E i n w = w"
  by (induction n) (simp_all add: execute_terminal)

text \<open>The balances after moving the row's amount from its source to its destination.\<close>

definition settled :: "transfer_row \<Rightarrow> database \<Rightarrow> database \<Rightarrow> bool" where
  "settled r d d' \<longleftrightarrow>
     (\<forall>a c. sum_balance a c d' = sum_balance a c d +
        (if rstrip (tr_currency r) = rstrip c
         then (if a = row_dst r then sint (tr_amount r) else 0) -
              (if a = row_src r then sint (tr_amount r) else 0) else 0))"

definition undisturbed :: "database \<Rightarrow> database \<Rightarrow> bool" where
  "undisturbed d d' \<longleftrightarrow> (\<forall>a c. sum_balance a c d' = sum_balance a c d)"

text \<open>Whether a pending transfer will be settled: the source account is active and funded, and the
  bank accepts the request.\<close>

definition bank_accepts :: "uuid_lib \<Rightarrow> 's services \<Rightarrow> 's world \<Rightarrow> transfer_row \<Rightarrow> bool" where
  "bank_accepts U E w r \<longleftrightarrow>
     (case fst (ext_bank E (bank_request U r) (ext w)) of Inl e \<Rightarrow> False | Inr res \<Rightarrow> True)"

definition will_settle :: "uuid_lib \<Rightarrow> 's services \<Rightarrow> 's world \<Rightarrow> transfer_row \<Rightarrow> bool" where
  "will_settle U E w r \<longleftrightarrow>
     status_at (db w) (row_src r) = Some StatusActive \<and>
     sint (tr_amount r) \<le> sum_balance (row_src r) (tr_currency r) (db w) \<and> bank_accepts U E w r"

lemma after_same [simp]:
  "row_src (after_debit r T) = row_src r" "row_dst (after_debit r T) = row_dst r"
  "tr_amount (after_debit r T) = tr_amount r" "tr_currency (after_debit r T) = tr_currency r"
  "bank_request U (after_debit r T) = bank_request U r" "tr_state (after_debit r T) = StateDebited"
  "tr_debit_posted (after_debit r T)" "tr_credit_posted (after_debit r T) = tr_credit_posted r"
  "row_src (after_bank r res T) = row_src r" "row_dst (after_bank r res T) = row_dst r"
  "tr_amount (after_bank r res T) = tr_amount r" "tr_currency (after_bank r res T) = tr_currency r"
  "tr_state (after_bank r res T) = StateBankCalled"
  "tr_state (after_credit r T) = StateCredited" "tr_state (after_complete r T) = StateCompleted"
  "tr_state (after_failure r reason T) = StateFailed"
  "tr_state (after_refusal r reason T) = StateFailed"
  by (simp_all add: after_debit_def after_bank_def after_credit_def after_complete_def
      after_failure_def after_refusal_def bank_request_def)

lemma row_moved_accounts: "row_moved U b i r' typ w w' \<Longrightarrow> accounts (db w') = accounts (db w)"
  by (simp add: row_moved_def)

lemma legs_settle:
  assumes "ledger_leg (row_src r) m (row_amount r) d d1" and "ledger_leg m (row_dst r) (row_amount r) d2 d3"
    and "ledger_entries d2 = ledger_entries d1" and "ledger_entries d4 = ledger_entries d3"
  shows "settled r d d4"
  using ledger_leg_balance [OF assms(1)] ledger_leg_balance [OF assms(2)]
    sum_balance_cong [OF assms(3)] sum_balance_cong [OF assms(4)]
  by (auto simp: settled_def)

lemma legs_refund:
  assumes "ledger_leg s m amount d d1" and "ledger_leg m s amount d1 d2"
  shows "undisturbed d d2"
  using ledger_leg_balance [OF assms(1)] ledger_leg_balance [OF assms(2)]
  by (auto simp: undisturbed_def)

lemma pending_completes:
  assumes st: "steady U (4 + (4 + (4 + (4 + b)))) w" and at: "transfer_at (db w) i = Some r" and s: "tr_state r = StatePending"
    and range: "int64_range (sum_balance (row_src r) (tr_currency r) (db w))"
    and float: "has_account (db w) (acc_uuid (row_float r))" "row_float r \<noteq> row_src r"
      "row_float r \<noteq> row_dst r"
    and ok: "will_settle U E w r"
  shows "\<exists>r' w'. deliveries U E i 4 w = w' \<and> transfer_at (db w') i = Some r' \<and>
    tr_state r' = StateCompleted \<and> settled r (db w) (db w') \<and> steady U 0 w'"
proof -
  have active: "status_at (db w) (row_src r) = Some StatusActive"
    and funds: "sint (tr_amount r) \<le> sum_balance (row_src r) (tr_currency r) (db w)"
    using ok by (simp_all add: will_settle_def)
  obtain res x where bank: "ext_bank E (bank_request U r) (ext w) = (Inr res, x)"
    using ok by (auto simp: will_settle_def bank_accepts_def split: sum.splits) (metis prod.collapse)
  obtain w1 T1 where w1: "run U E (Execute U i) w = (None, w1)"
    "row_moved U (4 + (4 + (4 + b))) i (after_debit r T1) EventTransferDebited w w1"
    "ledger_leg (row_src r) (row_float r) (row_amount r) (db w) (db w1)" "ext w1 = ext w"
    by (rule execute_debit [OF st at s active range funds float(1,2)])
  let ?r1 = "after_debit r T1"
  note m1 = row_moved_end [OF w1(2)] and a1 = row_moved_accounts [OF w1(2)]
  have bank1: "ext_bank E (bank_request U ?r1) (ext w1) = (Inr res, x)" using bank w1(4) by simp
  obtain w2 T2 where w2: "run U E (Execute U i) w1 = (None, w2)"
    "row_moved U (4 + (4 + b)) i (after_bank ?r1 res T2) EventTransferBankCalled w1 w2"
    "ledger_entries (db w2) = ledger_entries (db w1)" "ext w2 = x"
    by (rule execute_bank_ok [OF _ _ _ bank1]) (use m1 in auto)
  let ?r2 = "after_bank ?r1 res T2"
  note m2 = row_moved_end [OF w2(2)] and a2 = row_moved_accounts [OF w2(2)]
  have float2: "has_account (db w2) (acc_uuid (row_float ?r2))" "row_float ?r2 \<noteq> row_dst ?r2"
    using float has_account_accounts [of "db w2" "db w"] a1 a2 by simp_all
  obtain w3 T3 where w3: "run U E (Execute U i) w2 = (None, w3)"
    "row_moved U (4 + b) i (after_credit ?r2 T3) EventTransferCredited w2 w3"
    "ledger_leg (row_float ?r2) (row_dst ?r2) (row_amount ?r2) (db w2) (db w3)" "ext w3 = ext w2"
    by (rule execute_credit [OF _ _ _ float2]) (use m2 in auto)
  let ?r3 = "after_credit ?r2 T3"
  note m3 = row_moved_end [OF w3(2)]
  obtain w4 T4 where w4: "run U E (Execute U i) w3 = (None, w4)"
    "row_moved U b i (after_complete ?r3 T4) EventTransferCompleted w3 w4"
    "ledger_entries (db w4) = ledger_entries (db w3)" "ext w4 = ext w3"
    by (rule execute_complete [of U b w3 i ?r3]) (use m3 in auto)
  have "deliveries U E i 4 w = w4"
    using w1(1) w2(1) w3(1) w4(1) by (simp add: numeral_eq_Suc)
  moreover have "settled r (db w) (db w4)"
    using legs_settle [OF w1(3) _ w2(3) w4(3)] w3(3) by simp
  ultimately show ?thesis using row_moved_end [OF w4(2)] steady_less [of U b w4 0] by auto
qed

lemma fails_now:
  assumes "run U E (Execute U i) w = (None, w')" and "row_moved U b i r' typ w w'"
    and "tr_state r' = StateFailed" and "undisturbed (db w) (db w')"
  shows "\<exists>r' w'. deliveries U E i (Suc n) w = w' \<and> transfer_at (db w') i = Some r' \<and>
    tr_state r' = StateFailed \<and> undisturbed (db w) (db w') \<and> steady U 0 w'"
  using assms row_moved_end [OF assms(2)] deliveries_terminal [of U b w' i r' E n] steady_less [of U b w' 0]
  by auto

lemma undisturbed_ledger: "ledger_entries d' = ledger_entries d \<Longrightarrow> undisturbed d d'"
  by (simp add: undisturbed_def sum_balance_def)

lemma pending_fails:
  assumes st: "steady U (4 + (4 + b)) w" and at: "transfer_at (db w) i = Some r" and s: "tr_state r = StatePending"
    and flags: "\<not> tr_credit_posted r"
    and range: "int64_range (sum_balance (row_src r) (tr_currency r) (db w))"
    and float: "has_account (db w) (acc_uuid (row_float r))" "row_float r \<noteq> row_src r"
    and no: "\<not> will_settle U E w r"
  shows "\<exists>r' w'. deliveries U E i 4 w = w' \<and> transfer_at (db w') i = Some r' \<and>
    tr_state r' = StateFailed \<and> undisturbed (db w) (db w') \<and> steady U 0 w'"
proof -
  obtain x where sx: "status_at (db w) (row_src r) = Some x"
    using has_account_status [of "db w" "row_src r"] row_facts(4) [OF st at] by auto
  have four: "4 = Suc 3" by simp
  consider (inactive) "x \<noteq> StatusActive"
    | (funds) "x = StatusActive" "sum_balance (row_src r) (tr_currency r) (db w) < sint (tr_amount r)"
    | (bank) "x = StatusActive" "sint (tr_amount r) \<le> sum_balance (row_src r) (tr_currency r) (db w)"
        "\<not> bank_accepts U E w r"
    using no sx by (force simp: will_settle_def)
  then show ?thesis
  proof cases
    case inactive
    show ?thesis
      unfolding four
      by (rule execute_not_active [OF st at s sx inactive, where E = E])
        (erule (1) fails_now; simp add: undisturbed_ledger)
  next
    case funds
    have active: "status_at (db w) (row_src r) = Some StatusActive" using sx funds by simp
    show ?thesis
      unfolding four
      by (rule execute_insufficient [OF st at s active range funds(2), where E = E])
        (erule (1) fails_now; simp add: undisturbed_ledger)
  next
    case bank
    with sx have active: "status_at (db w) (row_src r) = Some StatusActive" by simp
    obtain w1 T1 where w1: "run U E (Execute U i) w = (None, w1)"
      "row_moved U (4 + b) i (after_debit r T1) EventTransferDebited w w1"
      "ledger_leg (row_src r) (row_float r) (row_amount r) (db w) (db w1)" "ext w1 = ext w"
      by (rule execute_debit [OF st at s active range bank(2) float])
    let ?r1 = "after_debit r T1"
    note m1 = row_moved_end [OF w1(2)]
    obtain err y where refuse: "ext_bank E (bank_request U ?r1) (ext w1) = (Inl err, y)"
      using bank(3) w1(4) by (auto simp: bank_accepts_def split: sum.splits) (metis prod.collapse)
    have float1: "has_account (db w1) (acc_uuid (row_float ?r1))" "row_float ?r1 \<noteq> row_src ?r1"
      using float has_account_accounts [OF row_moved_accounts [OF w1(2)]] by simp_all
    obtain w2 T2 where w2: "run U E (Execute U i) w1 = (None, w2)"
      "row_moved U b i (after_refusal ?r1 (Error err) T2) EventTransferFailed w1 w2"
      "ledger_leg (row_float ?r1) (row_src ?r1) (row_amount ?r1) (db w1) (db w2)" "ext w2 = y"
      by (rule execute_bank_fail [OF _ _ _ _ _ float1 refuse]) (use m1 flags in auto)
    have "undisturbed (db w) (db w2)" using legs_refund [OF w1(3)] w2(3) by simp
    then show ?thesis
      using row_moved_end [OF w2(2)] deliveries_terminal [of U b w2 i _ E 2] w1(1) w2(1)
        steady_less [of U b w2 0]
      by (auto simp: numeral_eq_Suc)
  qed
qed

end
