(* ===== verification/Demo.thy ===== *)
theory Demo
  imports Saga_Runs
begin

text \<open>
  A concrete world, on which the hypotheses of the theorems are met and their conclusions evaluated:
  two customers and the float account of IDR, an opening balance of 1000 for the first customer, and
  a pending transfer of 300 to the second.
\<close>

definition demo_account :: "uuid \<Rightarrow> account_row" where
  "demo_account u = \<lparr>ac_id = u, ac_owner_name = ''owner'', ac_currency = ''IDR'',
     ac_status = StatusActive, ac_created_at = 0, ac_updated_at = 0\<rparr>"

definition demo_entry :: "uuid \<Rightarrow> uuid \<Rightarrow> EntryType \<Rightarrow> ledger_row" where
  "demo_entry u a ty = \<lparr>lr_id = u, lr_transaction_id = 90, lr_account_id = a, lr_entry_type = ty,
     lr_amount = 1000, lr_currency = ''IDR'', lr_description = ''opening'', lr_created_at = 0\<rparr>"

definition demo_row :: "uuid \<Rightarrow> string \<Rightarrow> int64 \<Rightarrow> transfer_row" where
  "demo_row u key amount = \<lparr>tr_id = u, tr_idempotency_key = key, tr_source_account_id = 10,
     tr_dest_account_id = 11, tr_amount = amount, tr_currency = ''IDR'', tr_state = StatePending,
     tr_external_ref = [], tr_failure_reason = [], tr_debit_posted = False, tr_credit_posted = False,
     tr_created_at = 0, tr_updated_at = 0, tr_version = 1\<rparr>"

definition demo_db :: "transfer_row list \<Rightarrow> database" where
  "demo_db rows = \<lparr>accounts = map demo_account [1, 10, 11],
     ledger_entries = [demo_entry 100 1 EntryTypeDebit, demo_entry 101 10 EntryTypeCredit],
     transfers = rows, transfer_events = [], outbox = [], outbox_seq = 1\<rparr>"

text \<open>The outside services: a bank with a constant answer, a broker that accepts a subject or not, and
  a cache that keeps what it is given. The state of the outside world is the content of the cache.\<close>

type_synonym demo_cache = "(string \<times> bytes) list"

definition demo_services ::
  "(go_error + BankCallResult) \<Rightarrow> (string \<Rightarrow> bool) \<Rightarrow> demo_cache services" where
  "demo_services answer accepted = \<lparr>ext_bank = (\<lambda>req s. (answer, s)),
     ext_redis_GET = (\<lambda>key s. (case map_of s key of
        None \<Rightarrow> Inl (Sentinel (LibErr goredis_Nil)) | Some v \<Rightarrow> Inr v, s)),
     ext_redis_SETNX = (\<lambda>key v ttl s.
        if map_of s key = None then (Inr True, (key, v) # s) else (Inr False, s)),
     ext_js_Publish = (\<lambda>subject p s.
        (if accepted subject then None else Some (Errorf ''nats: no response from stream'' None), s))\<rparr>"

text \<open>A bank that refuses and a broker that accepts everything.\<close>

abbreviation demo_E :: "demo_cache services" where
  "demo_E \<equiv> demo_services (Inl driver_error) (\<lambda>_. True)"

definition demo_world_at :: "'s \<Rightarrow> transfer_row list \<Rightarrow> fault list \<Rightarrow> 's world" where
  "demo_world_at x rows fs = \<lparr>db = demo_db rows, faults = fs, rand = (\<lambda>n. of_nat (1000 + n)), drawn = 0,
     clock = (\<lambda>n. 0), ticks = 0, ext = x\<rparr>"

abbreviation demo_world :: "transfer_row list \<Rightarrow> fault list \<Rightarrow> demo_cache world" where
  "demo_world \<equiv> demo_world_at []"

section \<open>It is healthy\<close>

lemma demo_rand: "n < 100 \<Longrightarrow> unat (of_nat (1000 + n) :: uuid) = 1000 + n"
  by (subst unat_of_nat) simp

lemma demo_rand_inj: "inj_on (\<lambda>n. of_nat (1000 + n) :: uuid) {0 ..< 100}"
  by (rule inj_on_inverseI [of _ "\<lambda>u. unat u - 1000"]) (simp add: demo_rand del: of_nat_add)

lemma demo_rand_new: "n < 100 \<Longrightarrow> u < 1000 \<Longrightarrow> (of_nat (1000 + n) :: uuid) \<noteq> u"
  using demo_rand [of n] by (auto simp: word_less_nat_alt simp del: of_nat_add)

lemma demo_date: "civil_from_days 0 = (1970, 1, 1)"
  by code_simp

lemma demo_time: "time_MarshalJSON 0 = Inr (JStr (rfc3339 0))"
  by (simp add: time_MarshalJSON_def demo_date)

definition demo_rows_ok :: "transfer_row list \<Rightarrow> bool" where
  "demo_rows_ok rows \<longleftrightarrow>
     distinct (map tr_id rows) \<and> distinct (map tr_idempotency_key rows) \<and>
     list_all (\<lambda>r. row_ok r \<and> tr_id r < 1000 \<and> 0 < sint (tr_amount r) \<and>
       tr_source_account_id r = 10 \<and> tr_dest_account_id r = 11) rows"

lemma demo_wf: "demo_rows_ok rows \<Longrightarrow> db_wf (demo_db rows)"
  by (auto simp: db_wf_def demo_db_def demo_account_def demo_entry_def has_account_def demo_rows_ok_def
      list_all_iff)

lemma demo_steady:
  assumes "demo_rows_ok rows" and "k \<le> 100"
  shows "steady decimal_uuid k (demo_world_at x rows [])"
proof -
  have "fresh decimal_uuid k (demo_world_at x rows [])"
    unfolding fresh_def
  proof (intro conjI ballI)
    show "inj_on (rand (demo_world_at x rows [])) {drawn (demo_world_at x rows [])..<drawn (demo_world_at x rows []) + k}"
      using inj_on_subset [OF demo_rand_inj, of "{0..<k}"] assms(2) by (simp add: demo_world_at_def)
  next
    fix n
    assume "n \<in> {drawn (demo_world_at x rows [])..<drawn (demo_world_at x rows []) + k}"
    then have n: "n < 100" using assms(2) by (simp add: demo_world_at_def)
    show "rand (demo_world_at x rows []) n \<notin> lr_id ` set (ledger_entries (db (demo_world_at x rows [])))"
      using demo_rand_new [OF n, of 100] demo_rand_new [OF n, of 101]
      by (simp add: demo_world_at_def demo_db_def demo_entry_def)
    show "rand (demo_world_at x rows []) n \<notin> tr_id ` set (transfers (db (demo_world_at x rows [])))"
      using demo_rand_new [OF n] assms(1)
      by (auto simp: demo_world_at_def demo_db_def demo_rows_ok_def list_all_iff)
  qed (simp add: demo_world_at_def demo_db_def)
  moreover have "good_clock (demo_world_at x rows [])"
    by (simp add: good_clock_def demo_world_at_def demo_time)
  ultimately show ?thesis
    using assms(1) demo_wf [OF assms(1)] decimal_uuid_ok
    by (simp add: steady_def demo_world_at_def demo_rows_ok_def demo_db_def list_all_iff)
qed

lemma demo_row_ok: "demo_rows_ok [demo_row 20 ''k'' 300]"
  by (simp add: demo_rows_ok_def demo_row_def row_ok_def nchars_def)

lemma demo_facts:
  "status_at (demo_db rows) (AccountID 10) = Some StatusActive"
  "has_account (demo_db rows) 1" "has_account (demo_db rows) 10"
  "sum_balance (AccountID 10) ''IDR'' (demo_db rows) = 1000"
  "sum_balance (AccountID 11) ''IDR'' (demo_db rows) = 0"
  "FloatAccounts ''IDR'' = AccountID 1"
  by (simp_all add: status_at_def demo_db_def demo_account_def has_account_def sum_balance_def
      demo_entry_def row_value_def rstrip_def FloatAccounts_def CurrencyIDR_def)

text \<open>The selectors of the world, and what the hypotheses of the theorems ask of it.\<close>

lemma demo_world_sel [simp]:
  "db (demo_world_at x rows fs) = demo_db rows" "faults (demo_world_at x rows fs) = fs"
  "ext (demo_world_at x rows fs) = x" "drawn (demo_world_at x rows fs) = 0" "ticks (demo_world_at x rows fs) = 0"
  "rand (demo_world_at x rows fs) n = of_nat (1000 + n)" "clock (demo_world_at x rows fs) n = 0"
  "(demo_world_at x rows fs)\<lparr>faults := fs'\<rparr> = demo_world_at x rows fs'"
  by (simp_all add: demo_world_at_def)

lemma demo_row_sel [simp]:
  "tr_state (demo_row u k n) = StatePending" "tr_amount (demo_row u k n) = n"
  "tr_currency (demo_row u k n) = ''IDR''" "tr_source_account_id (demo_row u k n) = 10"
  "tr_dest_account_id (demo_row u k n) = 11" "tr_id (demo_row u k n) = u"
  "tr_credit_posted (demo_row u k n) = False" "tr_idempotency_key (demo_row u k n) = k"
  by (simp_all add: demo_row_def)

lemma demo_at: "transfer_at (demo_db [demo_row u k n]) (TransferID u) = Some (demo_row u k n)"
  by (simp add: transfer_at_def demo_db_def)

lemma demo_bank [simp]: "ext_bank (demo_services answer f) req s = (answer, s)"
  by (simp add: demo_services_def)

text \<open>The pending transfer as a worker has it in memory after the debit.\<close>

definition demo_debited :: Transfer where
  "demo_debited = (row_transfer (demo_row 20 ''k'' 300))
     \<lparr>t_State := StateDebited, t_DebitPosted := True, t_Version := 2\<rparr>"

end
