(* ===== verification/Saga_Hazards.thy ===== *)
theory Saga_Hazards
  imports Demo
begin

text \<open>
  What the saga does not survive. Its steps are several separate statements, so a fault between the
  posting and the update of the row leaves a debit that the row does not know of; and the row lock
  of \<open>LockForUpdate\<close> ends with its statement, so two workers can both see the same funds.
\<close>

section \<open>A debit the row does not know of\<close>

lemma PostEntries_next:
  assumes "faults w = NoFault # NoFault # NoFault # NoFault # fs"
    and "insert_all (Entries p) (db w) = Inr d"
  shows "LedgerRepo_PostEntries (Entries p) w = (None, w\<lparr>faults := fs, db := d\<rparr>)"
  using assms
  by (auto simp: LedgerRepo_PostEntries_def next_fault_def Entries_def split: sum.splits)

lemma debit_unrecorded:
  assumes st: "steady U (3 + b) (w\<lparr>faults := []\<rparr>)" and fl: "faults w = replicate 7 NoFault @ [NotExecuted]"
    and at: "transfer_at (db w) i = Some r" and s: "tr_state r = StatePending"
    and active: "status_at (db w) (row_src r) = Some StatusActive"
    and range: "int64_range (sum_balance (row_src r) (tr_currency r) (db w))"
    and funds: "sint (tr_amount r) \<le> sum_balance (row_src r) (tr_currency r) (db w)"
    and float: "has_account (db w) (acc_uuid (row_float r))" "row_float r \<noteq> row_src r"
  obtains w' where "run U E (Execute U i) w =
      (Some (wrap ''update state'' (wrap ''update transfer'' driver_error)), w')"
    and "steady U b w'" and "accounts (db w') = accounts (db w)" and "transfers (db w') = transfers (db w)"
    and "ledger_leg (row_src r) (row_float r) (row_amount r) (db w) (db w')"
proof -
  let ?w0 = "w\<lparr>faults := []\<rparr>"
  let ?fs = "[NoFault, NoFault, NoFault, NoFault, NotExecuted]"
  let ?w3 = "w\<lparr>faults := ?fs\<rparr>"
  let ?t = "row_transfer r\<lparr>t_DebitPosted := True\<rparr>"
  let ?m = "''debit reserve transfer/'' @ TransferID_String U (TransferID (tr_id r))"
  have at0: "transfer_at (db ?w0) i = Some r" and ok: "uuid_ok U" using at st by (simp_all add: steady_def)
  note f = row_facts [OF st at0]
  obtain a where a: "find (\<lambda>x. ac_id x = tr_source_account_id r) (accounts (db w)) = Some a"
    and act: "ac_status a = StatusActive" using active by (auto simp: status_at_def)
  have fl': "faults w = NoFault # NoFault # NoFault # ?fs" using fl by (simp add: numeral_eq_Suc)
  have bal: "sint (balance_word (row_src r) (tr_currency r) (db w)) =
      sum_balance (row_src r) (tr_currency r) (db w)"
    using range by (simp add: int64_range_def sint64_exact)
  let ?k = "\<lambda>posting. case posting of Inl err \<Rightarrow> Return (Some (wrap ''build debit posting'' err))
    | Inr p \<Rightarrow> PostEntries (Entries p) (\<lambda>err. case err of
        Some e \<Rightarrow> Return (Some (wrap ''post debit entries'' e))
      | None \<Rightarrow> advance U ?t StateDebited EventTransferDebited)"
  have start: "run U E (Execute U i) w =
      run U E (newPosting (row_src r) (row_float r) (row_amount r) ?m ?k) ?w3"
    using at range funds bal act
    by (simp add: Execute_def Transfers_FindByID_def TransferRepo_FindByID_def fl' sql_exec_next
        select_transfer_def transfer_at_def scanTransfer_row [OF ok] dispatch_def s reserveDebit_def
        Accounts_LockForUpdate_def AccountRepo_LockForUpdate_def select_account_def a scanAccount_def
        ParseAccountID_def ok CanTransact_def GetBalance_def LedgerRepo_GetBalance_def
        select_balance_def)
  have pos: "0 < sint (m_Amount (row_amount r))" "nchars (m_Currency (row_amount r)) = 3"
    and acc: "has_account (db ?w0) (acc_uuid (row_src r))" "has_account (db ?w0) (acc_uuid (row_float r))"
    using f float by simp_all
  obtain p where p: "drawn_posting ?w0 (row_src r) (row_float r) (row_amount r) ?m = Inr p"
      "leg (row_src r) (row_float r) (row_amount r) p"
    and ins: "insert_all (Entries p) (db ?w0) = Inr (db (posted ?w0 p))" and st': "steady U b (posted ?w0 p)"
    by (rule posting_accepted [OF st pos float(2) [symmetric] acc])
  let ?w2 = "w\<lparr>ticks := Suc (ticks w), drawn := Suc (Suc (Suc (drawn w))), faults := [NotExecuted],
    db := db (posted ?w0 p)\<rparr>"
  let ?w' = "(posted ?w0 p)\<lparr>ticks := Suc (Suc (ticks w))\<rparr>"
  have upd: "run U E (advance U ?t StateDebited EventTransferDebited) ?w2 =
      (Some (wrap ''update state'' (wrap ''update transfer'' driver_error)), ?w')"
    by (simp add: advance_def Now_def read_clock_def Transition_def s Transfers_UpdateState_def
        TransferRepo_UpdateState_def sql_exec_refused)
  have "run U E (Execute U i) w =
      run U E (advance U ?t StateDebited EventTransferDebited) ?w2"
    using ins p(1) unfolding start
    by (simp add: newPosting_def port_defs draw_uuid_def read_clock_def PostEntries_next)
  moreover have "ledger_leg (row_src r) (row_float r) (row_amount r) (db w) (db ?w')"
    unfolding ledger_leg_def using p(2) ins by auto
  ultimately show ?thesis using that [of ?w'] upd tick_steady [OF st'] by simp
qed

text \<open>
  (C38) "Safe to call multiple times" fails: when the update of the row is lost after the posting was
  committed, the transfer is still PENDING, and the next delivery debits the source account again.
  The row ends in DEBITED with one amount on record and two amounts gone.
\<close>

theorem redelivery_debits_twice:
  assumes st: "steady U 7 (w\<lparr>faults := []\<rparr>)" and fl: "faults w = replicate 7 NoFault @ [NotExecuted]"
    and at: "transfer_at (db w) i = Some r" and s: "tr_state r = StatePending"
    and active: "status_at (db w) (row_src r) = Some StatusActive"
    and range: "int64_range (sum_balance (row_src r) (tr_currency r) (db w))"
    and funds: "2 * sint (tr_amount r) \<le> sum_balance (row_src r) (tr_currency r) (db w)"
    and float: "has_account (db w) (acc_uuid (row_float r))" "row_float r \<noteq> row_src r"
  shows "map_option tr_state (transfer_at (db (deliveries U E i 2 w)) i) = Some StateDebited \<and>
    sum_balance (row_src r) (tr_currency r) (db (deliveries U E i 2 w)) =
      sum_balance (row_src r) (tr_currency r) (db w) - 2 * sint (tr_amount r)"
proof -
  have st7: "steady U (3 + (4 + 0)) (w\<lparr>faults := []\<rparr>)" using st by simp
  have "0 < sint (tr_amount r)" using row_facts(1) [OF st, of i r] at by simp
  then have funds1: "sint (tr_amount r) \<le> sum_balance (row_src r) (tr_currency r) (db w)"
    using funds by simp
  obtain w1 e where w1: "run U E (Execute U i) w = (Some e, w1)" "steady U (4 + 0) w1"
    "accounts (db w1) = accounts (db w)" "transfers (db w1) = transfers (db w)"
    "ledger_leg (row_src r) (row_float r) (row_amount r) (db w) (db w1)"
    by (rule debit_unrecorded [OF st7 fl at s active range funds1 float])
  have at1: "transfer_at (db w1) i = Some r" using at w1(4) by (simp add: transfer_at_def)
  have active1: "status_at (db w1) (row_src r) = Some StatusActive"
    using active status_at_accounts [OF w1(3)] by simp
  have float1: "has_account (db w1) (acc_uuid (row_float r))"
    using float(1) has_account_accounts [OF w1(3)] by simp
  have bal1: "sum_balance (row_src r) (tr_currency r) (db w1) =
      sum_balance (row_src r) (tr_currency r) (db w) - sint (tr_amount r)"
    using ledger_leg_balance [OF w1(5), of "row_src r" "tr_currency r"] float(2) by simp
  have range1: "int64_range (sum_balance (row_src r) (tr_currency r) (db w1))"
    and funds2: "sint (tr_amount r) \<le> sum_balance (row_src r) (tr_currency r) (db w1)"
    using range funds \<open>0 < sint (tr_amount r)\<close> by (simp_all add: bal1 int64_range_def)
  obtain w2 T where w2: "run U E (Execute U i) w1 = (None, w2)"
    "row_moved U 0 i (after_debit r T) EventTransferDebited w1 w2"
    "ledger_leg (row_src r) (row_float r) (row_amount r) (db w1) (db w2)"
    by (rule execute_debit [OF w1(2) at1 s active1 range1 funds2 float1 float(2)])
  have two: "deliveries U E i 2 w = w2" using w1(1) w2(1) by (simp add: numeral_eq_Suc)
  have "map_option tr_state (transfer_at (db (deliveries U E i 2 w)) i) = Some StateDebited"
    using row_moved_end [OF w2(2)] two by simp
  moreover have "sum_balance (row_src r) (tr_currency r) (db (deliveries U E i 2 w)) =
      sum_balance (row_src r) (tr_currency r) (db w) - 2 * sint (tr_amount r)"
    using ledger_leg_balance [OF w2(3), of "row_src r" "tr_currency r"] float(2) bal1 two by simp
  ultimately show ?thesis by blast
qed

section \<open>Two workers, one balance\<close>

lemma run_schedule_append:
  "run_schedule U E (xs @ ys) s = run_schedule U E ys (run_schedule U E xs s)"
  by (induction U E xs s rule: run_schedule.induct)
    (auto simp: Let_def split_def split: prog.split)

lemma run_thread: "run U E (thread p) w = ((), snd (run U E p w))"
  unfolding thread_def by (induction p arbitrary: w) (simp_all add: split_def Let_def)

text \<open>Scheduled alone for long enough, a thread runs to its end.\<close>

lemma schedule_alone:
  "n < length ps \<Longrightarrow> ps ! n = p \<Longrightarrow> run U E p w = (x, w') \<Longrightarrow>
     \<exists>k. run_schedule U E (replicate k n) (ps, w) = (ps[n := Return x], w')"
proof (induction p arbitrary: ps w)
  case (Return y)
  then show ?case using list_update_id [of ps n] by (intro exI [of _ 0]) simp
next
  case (Call c k)
  obtain r w1 where r: "perform U E c w = (r, w1)" by fastforce
  have "\<exists>m. run_schedule U E (replicate m n) (ps[n := k r], w1) = ((ps[n := k r])[n := Return x], w')"
    by (rule Call.IH [OF rangeI [of k r]]) (use Call.prems r in auto)
  then obtain m where "run_schedule U E (replicate m n) (ps[n := k r], w1) = (ps[n := Return x], w')"
    by auto
  then have "run_schedule U E (replicate (Suc m) n) (ps, w) = (ps[n := Return x], w')"
    using Call.prems r by simp
  then show ?case by blast
qed

lemma schedule_reads:
  assumes st: "steady U b w" and at: "transfer_at (db w) i = Some r" and s: "tr_state r = StatePending"
    and active: "status_at (db w) (row_src r) = Some StatusActive"
    and range: "int64_range (sum_balance (row_src r) (tr_currency r) (db w))"
    and funds: "sint (tr_amount r) \<le> sum_balance (row_src r) (tr_currency r) (db w)"
    and n: "n < length ps" "ps ! n = thread (Execute U i)"
  shows "run_schedule U E [n, n, n] (ps, w) = (ps[n := thread (debit_posting U r)], w)"
proof -
  obtain a where a: "find (\<lambda>x. ac_id x = tr_source_account_id r) (accounts (db w)) = Some a"
    and act: "ac_status a = StatusActive" using active by (auto simp: status_at_def)
  have ok: "uuid_ok U" and nf: "faults w = []" using st by (simp_all add: steady_def)
  have bal: "sint (balance_word (row_src r) (tr_currency r) (db w)) =
      sum_balance (row_src r) (tr_currency r) (db w)"
    using range by (simp add: int64_range_def sint64_exact)
  show ?thesis
    using n at range funds bal act
    by (simp add: thread_def Execute_def Transfers_FindByID_def TransferRepo_FindByID_def nf
        sql_exec_nofault select_transfer_def transfer_at_def scanTransfer_row [OF ok] dispatch_def s
        reserveDebit_def Accounts_LockForUpdate_def AccountRepo_LockForUpdate_def select_account_def a
        scanAccount_def ParseAccountID_def ok CanTransact_def GetBalance_def LedgerRepo_GetBalance_def
        select_balance_def debit_posting_def)
qed

theorem redelivery_debits_twice_witness:
  "map_option tr_state (transfer_at (db (deliveries decimal_uuid demo_E (TransferID 20) 2
     (demo_world [demo_row 20 ''k'' 300] (replicate 7 NoFault @ [NotExecuted])))) (TransferID 20)) = Some StateDebited \<and>
   sum_balance (AccountID 10) ''IDR'' (db (deliveries decimal_uuid demo_E (TransferID 20) 2
     (demo_world [demo_row 20 ''k'' 300] (replicate 7 NoFault @ [NotExecuted])))) = 400"
  using redelivery_debits_twice [of decimal_uuid "demo_world [demo_row 20 ''k'' 300] (replicate 7 NoFault @ [NotExecuted])"
      "TransferID 20" "demo_row 20 ''k'' 300" demo_E]
    demo_steady [OF demo_row_ok, of 7 "[]"]
  by (simp add: demo_facts demo_at int64_range_def)

text \<open>
  (C39) The row lock of \<open>LockForUpdate\<close> protects nothing: two transfers of one account, each covered
  by the balance but not both together, can both be debited when two workers read the balance
  before either posts. The account is overdrawn.
\<close>

theorem race_overdraws:
  assumes st: "steady U 8 w"
    and at: "transfer_at (db w) i = Some r" "transfer_at (db w) j = Some q" and ne: "i \<noteq> j"
    and s: "tr_state r = StatePending" "tr_state q = StatePending"
    and src: "row_src q = row_src r" "tr_currency q = tr_currency r"
    and active: "status_at (db w) (row_src r) = Some StatusActive"
    and range: "int64_range (sum_balance (row_src r) (tr_currency r) (db w))"
    and each: "sint (tr_amount r) \<le> sum_balance (row_src r) (tr_currency r) (db w)"
      "sint (tr_amount q) \<le> sum_balance (row_src r) (tr_currency r) (db w)"
    and both: "sum_balance (row_src r) (tr_currency r) (db w) < sint (tr_amount r) + sint (tr_amount q)"
    and float: "has_account (db w) (acc_uuid (row_float r))" "row_float r \<noteq> row_src r"
  shows "\<exists>sched. sum_balance (row_src r) (tr_currency r)
    (db (snd (run_schedule U E sched ([thread (Execute U i), thread (Execute U j)], w)))) < 0"
proof -
  let ?p = "thread (debit_posting U r)" and ?q = "thread (debit_posting U q)"
  let ?start = "([thread (Execute U i), thread (Execute U j)], w)"
  have st8: "steady U (4 + (4 + 0)) w" using st by simp
  have "run_schedule U E [0, 0, 0] ?start = ([?p, thread (Execute U j)], w)"
    by (subst schedule_reads [OF st at(1) s(1) active range each(1)]) simp_all
  moreover have "run_schedule U E [1, 1, 1] ([?p, thread (Execute U j)], w) = ([?p, ?q], w)"
    by (subst schedule_reads [OF st at(2) s(2)]) (use src active range each(2) in simp_all)
  ultimately have reads: "run_schedule U E ([0, 0, 0] @ [1, 1, 1]) ?start = ([?p, ?q], w)"
    by (simp only: run_schedule_append)
  obtain w1 T where w1: "run U E (debit_posting U r) w = (None, w1)"
    "row_moved U (4 + 0) i (after_debit r T) EventTransferDebited w w1"
    "ledger_leg (row_src r) (row_float r) (row_amount r) (db w) (db w1)"
    by (rule debit_posting_run [OF st8 at(1) s(1) float])
  note m1 = row_moved_end [OF w1(2)]
  have at1: "transfer_at (db w1) j = Some q" using w1(2) at(2) ne by (simp add: row_moved_def)
  have float1: "has_account (db w1) (acc_uuid (row_float q))" "row_float q \<noteq> row_src q"
    using float src has_account_accounts [OF row_moved_accounts [OF w1(2)]] by simp_all
  obtain w2 T' where w2: "run U E (debit_posting U q) w1 = (None, w2)"
    "row_moved U 0 j (after_debit q T') EventTransferDebited w1 w2"
    "ledger_leg (row_src q) (row_float q) (row_amount q) (db w1) (db w2)"
    by (rule debit_posting_run [OF conjunct1 [OF m1] at1 s(2) float1])
  obtain k where k: "run_schedule U E (replicate k 0) ([?p, ?q], w) = ([?p, ?q][0 := Return ()], w1)"
    using schedule_alone [of 0 "[?p, ?q]" ?p U E w "()" w1] w1(1) by (auto simp: run_thread)
  obtain l where l: "run_schedule U E (replicate l 1) ([Return (), ?q], w1) = ([Return (), ?q][1 := Return ()], w2)"
    using schedule_alone [of 1 "[Return (), ?q]" ?q U E w1 "()" w2] w2(1) by (auto simp: run_thread)
  have "run_schedule U E (([0, 0, 0] @ [1, 1, 1]) @ replicate k 0 @ replicate l 1) ?start =
      ([Return (), Return ()], w2)"
    unfolding run_schedule_append [of U E "[0, 0, 0] @ [1, 1, 1]" _ ?start] reads
    using k l by (simp add: run_schedule_append)
  moreover have "sum_balance (row_src r) (tr_currency r) (db w2) < 0"
    using ledger_leg_balance [OF w1(3), of "row_src r" "tr_currency r"]
      ledger_leg_balance [OF w2(3), of "row_src r" "tr_currency r"] src float(2) both by simp
  ultimately show ?thesis by (metis snd_conv)
qed

theorem race_overdraws_witness:
  "\<exists>sched. sum_balance (AccountID 10) ''IDR'' (db (snd (run_schedule decimal_uuid
     demo_E sched
     ([thread (Execute decimal_uuid (TransferID 20)), thread (Execute decimal_uuid (TransferID 21))],
      demo_world [demo_row 20 ''k'' 600, demo_row 21 ''l'' 700] [])))) < 0"
proof -
  let ?rows = "[demo_row 20 ''k'' 600, demo_row 21 ''l'' 700]"
  have "demo_rows_ok ?rows" by (simp add: demo_rows_ok_def demo_row_def row_ok_def nchars_def)
  note st = demo_steady [OF this, of 8 "[]"]
  have "transfer_at (demo_db ?rows) (TransferID 20) = Some (demo_row 20 ''k'' 600)"
    "transfer_at (demo_db ?rows) (TransferID 21) = Some (demo_row 21 ''l'' 700)"
    by (simp_all add: transfer_at_def demo_db_def)
  then show ?thesis
    using race_overdraws [OF st, of "TransferID 20" "demo_row 20 ''k'' 600" "TransferID 21" "demo_row 21 ''l'' 700"
        demo_E]
    by (simp add: demo_facts int64_range_def)
qed

section \<open>A float account that was never created\<close>

lemma debit_refused:
  assumes st: "steady U b w" and at: "transfer_at (db w) i = Some r" and s: "tr_state r = StatePending"
    and active: "status_at (db w) (row_src r) = Some StatusActive"
    and range: "int64_range (sum_balance (row_src r) (tr_currency r) (db w))"
    and funds: "sint (tr_amount r) \<le> sum_balance (row_src r) (tr_currency r) (db w)"
    and missing: "\<not> has_account (db w) (acc_uuid (row_float r))"
  shows "\<exists>err. run U E (Execute U i) w =
    (Some err, w\<lparr>drawn := Suc (Suc (Suc (drawn w))), ticks := Suc (ticks w)\<rparr>)"
proof -
  let ?m = "''debit reserve transfer/'' @ TransferID_String U (TransferID (tr_id r))"
  note f = row_facts [OF st at]
  have ne: "row_src r \<noteq> row_float r" using f(4) missing by (metis AccountID.sel)
  obtain p where p: "drawn_posting w (row_src r) (row_float r) (row_amount r) ?m = Inr p"
    using f(1,2) ne nchars_ne NewPosting_Inr_iff by (metis Money.select_convs)
  have "posting_ok p" "e_AccountID (p_Credit p) = row_float r" using NewPosting_fields [OF p] by simp_all
  then obtain e where e: "insert_all (Entries p) (db w) = Inl e"
    using insert_all_missing [of p "db w"] missing by auto
  have "run U E (Execute U i) w = run U E (debit_posting U r) w"
    using funds account_at_status [OF active]
    by (simp add: Execute_run [OF st at] dispatch_def s reserveDebit_def lock_run [OF st active]
        balance_run [OF st range] CanTransact_def debit_posting_def)
  also have "\<dots> = (Some (wrap ''post debit entries'' (wrap ''insert ledger entry'' e)),
      w\<lparr>drawn := Suc (Suc (Suc (drawn w))), ticks := Suc (ticks w)\<rparr>)"
    using p e st
    by (simp add: debit_posting_def newPosting_def port_defs draw_uuid_def read_clock_def
        PostEntries_nofault steady_def)
  finally show ?thesis by blast
qed

text \<open>
  (C40) The float accounts are not created by any part of the system: while the float account of its
  currency is missing, a funded pending transfer never moves. Every delivery ends in an error and
  leaves the database as it was, however often the message is redelivered.
\<close>

theorem float_account_missing:
  assumes st: "steady U 0 w" and at: "transfer_at (db w) i = Some r" and s: "tr_state r = StatePending"
    and active: "status_at (db w) (row_src r) = Some StatusActive"
    and range: "int64_range (sum_balance (row_src r) (tr_currency r) (db w))"
    and funds: "sint (tr_amount r) \<le> sum_balance (row_src r) (tr_currency r) (db w)"
    and missing: "\<not> has_account (db w) (acc_uuid (row_float r))"
  shows "db (deliveries U E i n w) = db w \<and> fst (run U E (Execute U i) (deliveries U E i n w)) \<noteq> None"
  using assms
proof (induction n arbitrary: w)
  case 0
  then show ?case using debit_refused [of U 0 w i r E] by auto
next
  case (Suc n)
  let ?w = "w\<lparr>drawn := Suc (Suc (Suc (drawn w))), ticks := Suc (ticks w)\<rparr>"
  obtain err where run: "run U E (Execute U i) w = (Some err, ?w)" using debit_refused [OF Suc.prems] by blast
  have "steady U 0 ?w" using Suc.prems(1) by (simp add: steady_def fresh_def good_clock_def)
  then have "db (deliveries U E i n ?w) = db ?w \<and> fst (run U E (Execute U i) (deliveries U E i n ?w)) \<noteq> None"
    by (rule Suc.IH) (use Suc.prems in simp_all)
  with run show ?case by simp
qed

text \<open>The demonstration world before anyone has created the float account.\<close>

definition unseeded_db :: database where
  "unseeded_db = (demo_db [demo_row 20 ''k'' 300])
     \<lparr>accounts := map demo_account [10, 11], ledger_entries := [demo_entry 101 10 EntryTypeCredit]\<rparr>"

lemma unseeded_facts:
  "db_wf unseeded_db" "transfers unseeded_db = [demo_row 20 ''k'' 300]"
  "transfer_at unseeded_db (TransferID 20) = Some (demo_row 20 ''k'' 300)"
  "status_at unseeded_db (AccountID 10) = Some StatusActive"
  "sum_balance (AccountID 10) ''IDR'' unseeded_db = 1000" "\<not> has_account unseeded_db 1"
  by (simp_all add: unseeded_db_def db_wf_def demo_db_def demo_entry_def demo_account_def has_account_def
      transfer_at_def status_at_def sum_balance_def row_value_def rstrip_def)

theorem float_account_missing_witness:
  "db (deliveries decimal_uuid demo_E (TransferID 20) 9
     ((demo_world [] [])\<lparr>db := unseeded_db\<rparr>)) = unseeded_db"
proof -
  have "row_ok (demo_row 20 ''k'' 300)" by (simp add: demo_row_def row_ok_def nchars_def)
  then have "steady decimal_uuid 0 ((demo_world [] [])\<lparr>db := unseeded_db\<rparr>)"
    by (simp add: steady_def fresh_def good_clock_def decimal_uuid_ok unseeded_facts demo_time)
  from float_account_missing [OF this, of "TransferID 20" "demo_row 20 ''k'' 300"] show ?thesis
    by (simp add: unseeded_facts int64_range_def demo_facts(6))
qed

end
