(* ===== verification/Repositories.thy ===== *)
theory Repositories
  imports Demo
begin

text \<open>
  The contracts of the repositories as their clients see them: a posting is atomic, a saved transfer
  is found again, and of several updates that were made from one version of a transfer one wins.
  The last is the law of a store with versions (\<open>versioned_store\<close>), which \<open>transfer_repo.go\<close> provides.
\<close>

section \<open>A store with versions\<close>

text \<open>\<open>put t d\<close> says whether the update took effect, and gives the store after it.\<close>

locale versioned_store =
  fixes wf :: "'d \<Rightarrow> bool" and version_of :: "'d \<Rightarrow> TransferID \<Rightarrow> int option"
    and put :: "Transfer \<Rightarrow> 'd \<Rightarrow> bool \<times> 'd"
  assumes put_wf: "wf d \<Longrightarrow> wf (snd (put t d))"
    and put_guard: "wf d \<Longrightarrow> fst (put t d) \<Longrightarrow> version_of d (t_ID t) = Some (t_Version t - 1)"
    and put_new: "wf d \<Longrightarrow> fst (put t d) \<Longrightarrow> version_of (snd (put t d)) (t_ID t) = Some (t_Version t)"
    and put_refused: "wf d \<Longrightarrow> \<not> fst (put t d) \<Longrightarrow> snd (put t d) = d"
begin

lemma stale_refused:
  "wf d \<Longrightarrow> version_of d (t_ID t) = Some v \<Longrightarrow> v \<noteq> t_Version t - 1 \<Longrightarrow> \<not> fst (put t d) \<and> snd (put t d) = d"
  using put_guard put_refused by fastforce

lemma late_updates_refused:
  assumes "wf d" and "fst (put t d)"
    and "\<forall>t' \<in> set ts. t_ID t' = t_ID t \<and> t_Version t' = t_Version t"
  shows "\<forall>t' \<in> set ts. \<not> fst (put t' (snd (put t d))) \<and> snd (put t' (snd (put t d))) = snd (put t d)"
  using stale_refused [OF put_wf [OF assms(1)], of t _ "t_Version t"] put_new [OF assms(1,2)] assms(3)
  by auto

end

section \<open>transfer\_repo.go provides it\<close>

definition put_transfer :: "Transfer \<Rightarrow> database \<Rightarrow> bool \<times> database" where
  "put_transfer t d =
     (case update_transfer t d of Inl e \<Rightarrow> (False, d) | Inr (n, d') \<Rightarrow> if n = 0 then (False, d) else (True, d'))"

definition row_version :: "database \<Rightarrow> TransferID \<Rightarrow> int option" where
  "row_version d i = map_option tr_version (transfer_at d i)"

lemma put_transfer_hit:
  assumes "fst (put_transfer t d)"
  obtains r where "r \<in> set (transfers d)" and "update_hits t r"
    and "snd (put_transfer t d) = d\<lparr>transfers := updated t (transfers d)\<rparr>"
proof -
  obtain n d' where u: "update_transfer t d = Inr (n, d')" "n \<noteq> 0"
    using assms by (auto simp: put_transfer_def split: sum.splits if_splits)
  have "n = length (filter (update_hits t) (transfers d))" "d' = d\<lparr>transfers := updated t (transfers d)\<rparr>"
    using update_transfer_Inr [OF u(1)] by auto
  moreover from this(1) u(2) obtain r where "r \<in> set (transfers d)" "update_hits t r"
    by (auto simp: filter_empty_conv)
  ultimately show ?thesis using that u by (simp add: put_transfer_def)
qed

lemma wf_transfer_at: "db_wf d \<Longrightarrow> r \<in> set (transfers d) \<Longrightarrow> tr_id r = tr_uuid i \<Longrightarrow> transfer_at d i = Some r"
  using find_key_unique [of tr_id "transfers d" r] by (simp add: transfer_at_def db_wf_def)

interpretation transfer_store: versioned_store db_wf row_version put_transfer
proof
  fix d :: database and t :: Transfer
  assume wf: "db_wf d"
  show "db_wf (snd (put_transfer t d))"
    using wf update_transfer_wf [OF wf] by (auto simp: put_transfer_def split: sum.split)
  show "\<not> fst (put_transfer t d) \<Longrightarrow> snd (put_transfer t d) = d"
    by (auto simp: put_transfer_def split: sum.splits if_splits)
  assume "fst (put_transfer t d)"
  then obtain r where r: "r \<in> set (transfers d)" "update_hits t r"
    and d': "snd (put_transfer t d) = d\<lparr>transfers := updated t (transfers d)\<rparr>"
    by (rule put_transfer_hit)
  have at: "transfer_at d (t_ID t) = Some r" using wf r by (auto simp: update_hits_def intro: wf_transfer_at)
  then show "row_version d (t_ID t) = Some (t_Version t - 1)"
    using r(2) by (simp add: row_version_def update_hits_def)
  have "transfer_at (snd (put_transfer t d)) (t_ID t) =
      map_option (\<lambda>r. if update_hits t r then update_row t r else r) (transfer_at d (t_ID t))"
    unfolding transfer_at_def d' by simp (rule find_map_key, simp)
  with at r(2) show "row_version (snd (put_transfer t d)) (t_ID t) = Some (t_Version t)"
    by (simp add: row_version_def)
qed

lemma UpdateState_put:
  assumes "faults w = []"
  shows "(fst (TransferRepo_UpdateState U t w) = None) = fst (put_transfer t (db w)) \<and>
    db (snd (TransferRepo_UpdateState U t w)) = snd (put_transfer t (db w)) \<and>
    faults (snd (TransferRepo_UpdateState U t w)) = []"
  using assms update_transfer_Inr [of t "db w"]
  by (auto simp: TransferRepo_UpdateState_def sql_exec_nofault put_transfer_def filter_empty_conv
      intro!: database.equality map_idI split: sum.splits)

lemma demo_posting_accepted:
  assumes "leg (AccountID 10) (AccountID 11) \<lparr>m_Amount = n, m_Currency = ''IDR''\<rparr> p"
    and "e_ID (p_Debit p) = LedgerEntryID 500" and "e_ID (p_Credit p) = LedgerEntryID 501"
  shows "insert_all (Entries p) (demo_db rows) =
    Inr ((demo_db rows)\<lparr>ledger_entries := ledger_entries (demo_db rows) @ entry_rows (Entries p)\<rparr>)"
  by (rule insert_all_accepts [OF assms(1)])
    (simp_all add: assms(2,3) char3_def nchars_def demo_facts demo_db_def demo_entry_def has_account_def
      demo_account_def)

section \<open>Properties\<close>

text \<open>
  (C9) Optimistic locking: of any number of workers that read one version of a transfer and write its
  next one, only the first to write succeeds. Every later update returns an error and leaves the
  database as it is.
\<close>

theorem one_update_wins:
  assumes "db_wf (db w)" and "faults w = []" and "TransferRepo_UpdateState U t w = (None, w1)"
    and "t_ID t' = t_ID t" and "t_Version t' = t_Version t"
  shows "fst (TransferRepo_UpdateState U t' w1) \<noteq> None \<and>
    db (snd (TransferRepo_UpdateState U t' w1)) = db w1 \<and>
    row_version (db w) (t_ID t) = Some (t_Version t - 1) \<and> row_version (db w1) (t_ID t) = Some (t_Version t)"
proof -
  have won: "fst (put_transfer t (db w))" and w1: "db w1 = snd (put_transfer t (db w))" "faults w1 = []"
    using UpdateState_put [OF assms(2), of U t] assms(3) by simp_all
  have "\<not> fst (put_transfer t' (db w1)) \<and> snd (put_transfer t' (db w1)) = db w1"
    using transfer_store.late_updates_refused [OF assms(1) won, of "[t']"] assms(4,5) w1 by simp
  with UpdateState_put [OF w1(2), of U t'] show ?thesis
    using transfer_store.put_guard [OF assms(1) won] transfer_store.put_new [OF assms(1) won] w1(1) by simp
qed

theorem one_update_wins_witness:
  "fst (TransferRepo_UpdateState decimal_uuid demo_debited (demo_world [demo_row 20 ''k'' 300] [])) = None \<and>
   fst (TransferRepo_UpdateState decimal_uuid demo_debited
     (snd (TransferRepo_UpdateState decimal_uuid demo_debited (demo_world [demo_row 20 ''k'' 300] [])))) \<noteq> None"
proof -
  let ?w = "demo_world [demo_row 20 ''k'' 300] []"
  have first: "fst (TransferRepo_UpdateState decimal_uuid demo_debited ?w) = None"
    by (simp add: TransferRepo_UpdateState_def sql_exec_nofault update_transfer_def demo_debited_def
        demo_db_def demo_row_def row_transfer_def update_hits_def int32_range_def)
  then have "TransferRepo_UpdateState decimal_uuid demo_debited ?w =
      (None, snd (TransferRepo_UpdateState decimal_uuid demo_debited ?w))" by (metis prod.collapse)
  from one_update_wins [OF _ _ this refl refl] first show ?thesis
    by (simp add: demo_wf demo_row_ok)
qed

text \<open>
  (C33) What \<open>Save\<close> stores, the two finders return: after a successful save, with or without other rows,
  \<open>FindByID\<close> and \<open>FindByIdempotencyKey\<close> give back the transfer field by field, its two times cut to the
  microseconds that a \<open>TIMESTAMPTZ\<close> keeps.
\<close>

theorem save_find_roundtrip:
  assumes "uuid_ok U" and "faults w = []" and "nchars (m_Currency (t_Amount t)) = 3"
    and "TransferRepo_Save t w = (None, w')"
    and "t' = t\<lparr>t_CreatedAt := t_CreatedAt t - t_CreatedAt t mod 1000, t_UpdatedAt := t_UpdatedAt t - t_UpdatedAt t mod 1000\<rparr>"
  shows "TransferRepo_FindByID U (t_ID t) w' = (Inr t', w') \<and>
    TransferRepo_FindByIdempotencyKey U (t_IdempotencyKey t) w' = (Inr (Some t'), w')"
proof -
  have c: "char3 (m_Currency (t_Amount t)) = Some (m_Currency (t_Amount t))"
    using assms(3) by (simp add: char3_def)
  obtain d where d: "insert_transfer t (db w) = Inr ((), d)" and w': "w' = w\<lparr>db := d\<rparr>"
    using assms(2,4)
    by (auto simp: TransferRepo_Save_def sql_exec_nofault as_error_def split: sum.splits)
  have ts: "transfers d = transfers (db w) @ [row_of t]"
    and new: "tr_uuid (t_ID t) \<notin> tr_id ` set (transfers (db w))"
      "t_IdempotencyKey t \<notin> tr_idempotency_key ` set (transfers (db w))"
    using d c by (auto simp: insert_transfer_Inr row_of_def)
  have row: "tr_id (row_of t) = tr_uuid (t_ID t)" "tr_idempotency_key (row_of t) = t_IdempotencyKey t"
    "row_transfer (row_of t) = t'"
    by (simp_all add: assms(5) row_of_def transfer_row_of_def row_transfer_def pg_time_def go_time_def minus_mod_eq_div_mult)
  have "find (\<lambda>r. tr_id r = tr_uuid (t_ID t)) (transfers d) = Some (row_of t)"
    "find (\<lambda>r. tr_idempotency_key r = t_IdempotencyKey t) (transfers d) = Some (row_of t)"
    unfolding ts find_key_append using new row
    by (auto simp: image_iff find_None_iff split: option.split dest!: find_SomeD)
  then show ?thesis
    using assms(1,2) row(3)
    by (simp add: w' TransferRepo_FindByID_def TransferRepo_FindByIdempotencyKey_def sql_exec_nofault
        select_transfer_def scanTransfer_row)
qed

theorem save_find_roundtrip_witness:
  "fst (TransferRepo_Save ((row_transfer (demo_row 20 ''k'' 300))\<lparr>t_CreatedAt := 1234567\<rparr>) (demo_world [] [])) = None \<and>
   fst (TransferRepo_FindByIdempotencyKey decimal_uuid ''k''
     (snd (TransferRepo_Save ((row_transfer (demo_row 20 ''k'' 300))\<lparr>t_CreatedAt := 1234567\<rparr>) (demo_world [] [])))) =
     Inr (Some ((row_transfer (demo_row 20 ''k'' 300))\<lparr>t_CreatedAt := 1234000\<rparr>))"
proof -
  let ?t = "(row_transfer (demo_row 20 ''k'' 300))\<lparr>t_CreatedAt := 1234567\<rparr>" and ?w = "demo_world [] []"
  have first: "fst (TransferRepo_Save ?t ?w) = None"
    by (simp add: TransferRepo_Save_def sql_exec_nofault insert_transfer_def as_error_def demo_db_def
        demo_row_def row_transfer_def char3_def nchars_def int32_range_def has_account_def demo_account_def)
  then have save: "TransferRepo_Save ?t ?w = (None, snd (TransferRepo_Save ?t ?w))"
    by (metis prod.collapse)
  have "nchars (m_Currency (t_Amount ?t)) = 3" by (simp add: nchars_def)
  from save_find_roundtrip [OF decimal_uuid_ok _ this save refl] first show ?thesis
    by (simp add: row_transfer_def demo_row_def go_time_def)
qed

text \<open>
  (C6) A posting is atomic: whatever fails between \<open>BEGIN\<close> and \<open>COMMIT\<close>, \<open>PostEntries\<close> either appends
  all the given entries or none, changes no other table, and reports success only when all are in.
\<close>

theorem post_entries_atomic:
  "(ledger_entries (db (snd (LedgerRepo_PostEntries es w))) = ledger_entries (db w) \<or>
    ledger_entries (db (snd (LedgerRepo_PostEntries es w))) = ledger_entries (db w) @ entry_rows es) \<and>
   db (snd (LedgerRepo_PostEntries es w)) =
     (db w)\<lparr>ledger_entries := ledger_entries (db (snd (LedgerRepo_PostEntries es w)))\<rparr> \<and>
   (fst (LedgerRepo_PostEntries es w) = None \<longrightarrow>
    ledger_entries (db (snd (LedgerRepo_PostEntries es w))) = ledger_entries (db w) @ entry_rows es)"
proof -
  let ?d = "db (snd (LedgerRepo_PostEntries es w))"
  have all: "?d = (db w)\<lparr>ledger_entries := ledger_entries (db w) @ entry_rows es\<rparr>"
    if "insert_all es (db w) = Inr ?d"
    using insert_all_Inr [OF that] .
  have rows: "ledger_entries ?d = ledger_entries (db w) @ entry_rows es" if "insert_all es (db w) = Inr ?d"
    using arg_cong [OF all [OF that], of ledger_entries] by simp
  have frame: "?d = (db w)\<lparr>ledger_entries := ledger_entries ?d\<rparr>"
    using PostEntries_db [of es w]
  proof
    assume "insert_all es (db w) = Inr ?d"
    then show ?thesis using all rows by metis
  qed simp
  show ?thesis
  proof (intro conjI impI)
    show "ledger_entries ?d = ledger_entries (db w) \<or> ledger_entries ?d = ledger_entries (db w) @ entry_rows es"
      using PostEntries_db [of es w] rows by auto
  qed (rule frame, erule rows [OF PostEntries_None])
qed

theorem post_entries_atomic_witness:
  "\<exists>p. NewPosting 0 500 501 (TransactionID 3) (AccountID 10) (AccountID 11)
      \<lparr>m_Amount = 7, m_Currency = ''IDR''\<rparr> ''rent'' = Inr p \<and>
    fst (LedgerRepo_PostEntries (Entries p) (demo_world [] [])) = None \<and>
    ledger_entries (db (snd (LedgerRepo_PostEntries (Entries p) (demo_world [] [])))) =
      ledger_entries (demo_db []) @ entry_rows (Entries p)"
proof -
  obtain p where p: "NewPosting 0 500 501 (TransactionID 3) (AccountID 10) (AccountID 11)
      \<lparr>m_Amount = 7, m_Currency = ''IDR''\<rparr> ''rent'' = Inr p"
    by (simp add: NewPosting_eq money_Validate_def money_IsZero_def)
  have "fst (LedgerRepo_PostEntries (Entries p) (demo_world [] [])) = None"
    using NewPosting_fields [OF p] demo_posting_accepted [OF NewPosting_leg [OF p]]
    by (simp add: PostEntries_nofault)
  with p post_entries_atomic [of "Entries p" "demo_world [] []"] show ?thesis by auto
qed

end
