(* ===== verification/Contracts.thy ===== *)
theory Contracts
  imports Invariants
begin

text \<open>
  What a caller may rely on in the replies of the infrastructure. \<open>yields Q P p\<close>: whenever every reply
  satisfies \<open>Q\<close>, the program \<open>p\<close> ends with a result that satisfies \<open>P\<close>. The locale \<open>reply_contract\<close> is the
  promise that replies satisfy \<open>Q\<close>; its clients prove \<open>yields\<close> of a handler and get the fact for every
  run. The model's first contract is that of the Go type checker: a method returns a value of its
  declared type, so no selector of \<open>reply\<close> is ever applied to a foreign constructor. The second is
  about the errors a method can return.
\<close>

section \<open>Results of programs\<close>

primrec yields :: "(call \<Rightarrow> reply \<Rightarrow> bool) \<Rightarrow> ('r \<Rightarrow> bool) \<Rightarrow> 'r prog \<Rightarrow> bool" where
  "yields Q P (Return x) = P x"
| "yields Q P (Call c k) = (\<forall>r. Q c r \<longrightarrow> yields Q P (k r))"

lemma yields_bind:
  "yields Q R p \<Longrightarrow> (\<And>x. R x \<Longrightarrow> yields Q P (f x)) \<Longrightarrow> yields Q P (prog_bind p f)"
  by (induction p) auto

lemma yields_map: "yields Q P (map_prog f p) = yields Q (\<lambda>x. P (f x)) p"
  by (induction p) auto

lemma yields_mono: "yields Q P p \<Longrightarrow> (\<And>x. P x \<Longrightarrow> P' x) \<Longrightarrow> yields Q P' p"
  by (induction p) auto

lemma yields_stronger: "yields Q P p \<Longrightarrow> (\<And>c r. Q' c r \<Longrightarrow> Q c r) \<Longrightarrow> yields Q' P p"
  by (induction p) auto

lemma yields_top: "yields Q (\<lambda>_. True) p"
  by (induction p) auto

locale reply_contract =
  fixes U :: uuid_lib and E :: "'s services" and Q :: "call \<Rightarrow> reply \<Rightarrow> bool"
  assumes perform_reply: "Q c (fst (perform U E c w))"
begin

lemma run_yields: "yields Q P p \<Longrightarrow> P (fst (run U E p w))"
proof (induction p arbitrary: w)
  case (Return x)
  then show ?case by simp
next
  case (Call c k)
  obtain r w' where p: "perform U E c w = (r, w')" by fastforce
  have "Q c r" using perform_reply [of c w] p by simp
  with Call p show ?case by auto
qed

end

section \<open>Invariants that shape the replies\<close>

primrec guarded :: "(call \<Rightarrow> reply \<Rightarrow> bool) \<Rightarrow> (call \<Rightarrow> bool) \<Rightarrow> 'r prog \<Rightarrow> bool" where
  "guarded Q ok (Return x) = True"
| "guarded Q ok (Call c k) = (ok c \<and> (\<forall>r. Q c r \<longrightarrow> guarded Q ok (k r)))"

lemma all_calls_guarded: "all_calls ok p \<Longrightarrow> guarded Q ok p"
  by (induction p) auto

lemma guarded_map [simp]: "guarded Q ok (map_prog f p) = guarded Q ok p"
  by (induction p) auto

lemma guarded_bind: "guarded Q ok p \<Longrightarrow> (\<And>x. guarded Q ok (f x)) \<Longrightarrow> guarded Q ok (prog_bind p f)"
  by (induction p) auto

locale reply_invariant = world_invariant U E I ok
  for U :: uuid_lib and E :: "'s services" and I :: "'s world \<Rightarrow> bool" and ok :: "call \<Rightarrow> bool" +
  fixes Q :: "call \<Rightarrow> reply \<Rightarrow> bool"
  assumes perform_reply: "I w \<Longrightarrow> ok c \<Longrightarrow> Q c (fst (perform U E c w))"
begin

lemma guarded_run: "guarded Q ok p \<Longrightarrow> I w \<Longrightarrow> I (snd (run U E p w))"
proof (induction p arbitrary: w)
  case (Return x)
  then show ?case by simp
next
  case (Call c k)
  obtain r w' where p: "perform U E c w = (r, w')" by fastforce
  from Call.prems p have "I w'" "Q c r" using perform_keeps [of w c] perform_reply [of w c] by auto
  with Call p show ?case by auto
qed

lemma guarded_pool_step:
  assumes "pool_step U E (ps, w) (ps', w')" and "list_all (guarded Q ok) ps" and "I w"
  shows "list_all (guarded Q ok) ps' \<and> I w'"
proof -
  from assms(1) obtain i c k r where i: "i < length ps" "ps ! i = Call c k"
    and p: "perform U E c w = (r, w')" and ps': "ps' = ps[i := k r]"
    by (auto elim: pool_stepE)
  have thr: "guarded Q ok (Call c k)" using assms(2) i by (metis list_all_length)
  then have "I w'" "Q c r" using perform_keeps [OF assms(3), of c] perform_reply [OF assms(3), of c] p by simp_all
  moreover have "list_all (guarded Q ok) ps'"
    using assms(2) i thr \<open>Q c r\<close> by (auto simp: ps' list_all_length nth_list_update)
  ultimately show ?thesis by simp
qed

end

section \<open>Types\<close>

text \<open>The type of the value each method returns.\<close>

primrec returns :: "call \<Rightarrow> reply \<Rightarrow> bool" where
  "returns C_Now r = is_R_Time r"
| "returns C_NewUUID r = is_R_UUID r"
| "returns (C_Transfers_FindByID i) r = is_R_Transfer r"
| "returns (C_Transfers_FindByIdempotencyKey key) r = is_R_Transfer_opt r"
| "returns (C_Transfers_Save t) r = is_R_Err r"
| "returns (C_Transfers_UpdateState t) r = is_R_Err r"
| "returns (C_Accounts_FindByID i) r = is_R_Account r"
| "returns (C_Accounts_LockForUpdate i) r = is_R_Account r"
| "returns (C_Accounts_Save a) r = is_R_Err r"
| "returns (C_PostEntries es) r = is_R_Err r"
| "returns (C_GetBalance a c) r = is_R_Money r"
| "returns C_GetAllEntries r = is_R_Entries r"
| "returns (C_Events_Append e) r = is_R_Err r"
| "returns (C_Events_FindByTransferID i) r = is_R_Events r"
| "returns (C_Outbox_Write s p) r = is_R_Err r"
| "returns (C_InitiateTransfer req) r = is_R_Bank r"
| "returns (C_Idempotency_Get key) r = is_R_Cached r"
| "returns (C_Idempotency_SetIfAbsent key v ttl) r = is_R_Bool r"
| "returns (C_Publish s p) r = is_R_Err r"
| "returns (C_Outbox_Pending n) r = is_R_Outbox r"
| "returns (C_Outbox_MarkPublished i) r = is_R_Err r"

lemma perform_returns: "returns c (fst (perform U E c w))"
  by (cases c) (simp_all add: split_def Let_def)

interpretation typed: reply_contract U E returns for U E
  by unfold_locales (rule perform_returns)

section \<open>Errors\<close>

text \<open>An error whose chain has none of the given sentinels.\<close>

definition free_of :: "sentinel set \<Rightarrow> go_error \<Rightarrow> bool" where
  "free_of S e \<longleftrightarrow> (\<forall>s \<in> S. \<not> errors_Is e s)"

lemma free_of_simps [simp]:
  "free_of S (wrap ctx e) = free_of S e" "free_of S (Errorf m None)"
  "free_of S (Errorf m (Some e)) = free_of S e" "free_of S (Sentinel s) \<longleftrightarrow> s \<notin> S"
  "free_of S (pg_error m)" "free_of S driver_error"
  by (auto simp: free_of_def pg_error_def driver_error_def)

lemma sql_exec_error:
  assumes "\<And>d e. stmt d = Inl e \<Longrightarrow> free_of S e" and "fst (sql_exec stmt w) = Inl e"
  shows "free_of S e"
  using assms(2)
  by (auto simp: sql_exec_def split_def Let_def dest: assms(1) split: fault.splits sum.splits)

text \<open>The errors in a reply of a repository or of the cache.\<close>

fun reply_error :: "reply \<Rightarrow> go_error option" where
  "reply_error (R_Err e) = e"
| "reply_error (R_Transfer (Inl e)) = Some e"
| "reply_error (R_Account (Inl e)) = Some e"
| "reply_error (R_Money (Inl e)) = Some e"
| "reply_error (R_Cached (Inl e)) = Some e"
| "reply_error (R_Bool (Inl e)) = Some e"
| "reply_error r = None"

fun request_call :: "call \<Rightarrow> bool" where
  "request_call (C_Transfers_Save t) = True"
| "request_call (C_Accounts_FindByID i) = True"
| "request_call (C_Events_Append e) = True"
| "request_call (C_Outbox_Write s p) = True"
| "request_call (C_Idempotency_Get key) = True"
| "request_call (C_Idempotency_SetIfAbsent key v ttl) = True"
| "request_call c = False"

text \<open>What the clients of a Go library may assume of its errors: they wrap no sentinel of the program.\<close>

definition foreign_errors :: "sentinel set \<Rightarrow> uuid_lib \<Rightarrow> 's services \<Rightarrow> bool" where
  "foreign_errors S U E \<longleftrightarrow>
     (\<forall>s e. uuid_Parse U s = Inl e \<longrightarrow> free_of S e) \<and>
     (\<forall>k s e. fst (ext_redis_GET E k s) = Inl e \<longrightarrow> free_of S e) \<and>
     (\<forall>k v ttl s e. fst (ext_redis_SETNX E k v ttl s) = Inl e \<longrightarrow> free_of S e)"

definition clean_reply :: "sentinel set \<Rightarrow> call \<Rightarrow> reply \<Rightarrow> bool" where
  "clean_reply S c r \<longleftrightarrow>
     returns c r \<and> (request_call c \<longrightarrow> (\<forall>e. reply_error r = Some e \<longrightarrow> free_of S e))"

lemma ParseAccountID_foreign:
  "foreign_errors S U E \<Longrightarrow> ParseAccountID U s = Inl e \<Longrightarrow> free_of S e"
  by (auto simp: foreign_errors_def ParseAccountID_def split: sum.splits)

lemma scanAccount_error:
  assumes "foreign_errors S U E" and "AccountErr ErrAccountNotFound \<notin> S"
    and "\<And>e. row = Inl e \<Longrightarrow> errors_Is e (LibErr pgx_ErrNoRows) \<or> free_of S e"
    and "scanAccount U row = Inl e"
  shows "free_of S e"
  using assms ParseAccountID_foreign [OF assms(1)]
  by (auto simp: scanAccount_def split: sum.splits if_splits)

lemma perform_clean:
  assumes lib: "foreign_errors S U E" and S: "AccountErr ErrAccountNotFound \<notin> S" "LibErr pgx_ErrNoRows \<notin> S"
  shows "clean_reply S c (fst (perform U E c w))"
proof -
  have "free_of S e" if "request_call c" "reply_error (fst (perform U E c w)) = Some e" for e
  proof (cases c)
    case (C_Transfers_Save t)
    have "free_of S e" if "fst (sql_exec (insert_transfer t) w) = Inl e" for e
      by (rule sql_exec_error [OF _ that]) (auto simp: insert_transfer_def split: option.splits if_splits)
    with C_Transfers_Save that show ?thesis
      by (auto simp: TransferRepo_Save_def as_error_def split_def Let_def split: sum.splits)
  next
    case (C_Accounts_FindByID i)
    have "free_of S e" if "fst (sql_exec (select_account i) w) = Inl e" for e
      by (rule sql_exec_error [OF _ that]) (use S in \<open>auto simp: select_account_def split: option.splits\<close>)
    with C_Accounts_FindByID that scanAccount_error [OF lib S(1), of "fst (sql_exec (select_account i) w)"]
    show ?thesis
      by (cases "scanAccount U (fst (sql_exec (select_account i) w))")
        (auto simp: AccountRepo_FindByID_def split_def Let_def)
  next
    case (C_Events_Append ev)
    have "free_of S e" if "fst (sql_exec (insert_event ev) w) = Inl e" for e
      by (rule sql_exec_error [OF _ that]) (auto simp: insert_event_def split: option.splits if_splits)
    with C_Events_Append that show ?thesis
      by (auto simp: EventStore_Append_def plain_error_def split_def Let_def split: sum.splits)
  next
    case (C_Outbox_Write s p)
    have "free_of S e" if "fst (sql_exec (insert_outbox now s p) w) = Inl e" for e now and w :: "'a world"
      by (rule sql_exec_error [OF _ that]) (auto simp: insert_outbox_def split: option.splits)
    with C_Outbox_Write that show ?thesis
      by (auto simp: OutboxWriter_Write_def as_error_def split_def Let_def split: sum.splits)
  next
    case (C_Idempotency_Get key)
    with that lib show ?thesis
      by (auto simp: foreign_errors_def on_ext_def IdempotencyStore_Get_def split_def Let_def
          split: sum.splits if_splits)
  next
    case (C_Idempotency_SetIfAbsent key v ttl)
    with that lib show ?thesis
      by (cases "fst (ext_redis_SETNX E (prefixed key) v ttl (ext w))")
        (auto simp: foreign_errors_def on_ext_def IdempotencyStore_SetIfAbsent_def split_def Let_def)
  qed (use that in simp_all)
  then show ?thesis by (simp add: clean_reply_def perform_returns)
qed

section \<open>The outside services\<close>

text \<open>A call changes the state of the outside services as the one service it reaches does.\<close>

definition call_ext :: "'s services \<Rightarrow> call \<Rightarrow> 's \<Rightarrow> 's" where
  "call_ext E c s = (case c of
     C_InitiateTransfer req \<Rightarrow> snd (ext_bank E req s)
   | C_Idempotency_Get key \<Rightarrow> snd (ext_redis_GET E (prefixed key) s)
   | C_Idempotency_SetIfAbsent key v ttl \<Rightarrow> snd (ext_redis_SETNX E (prefixed key) v ttl s)
   | C_Publish subject p \<Rightarrow> snd (ext_js_Publish E subject p s)
   | _ \<Rightarrow> s)"

lemma sql_exec_ext [simp]: "ext (snd (sql_exec stmt w)) = ext w"
  by (simp add: sql_exec_def next_fault_def split_def Let_def split: list.split fault.split sum.split)

lemma tx_inserts_ext [simp]: "ext (snd (tx_inserts es w d)) = ext w"
  by (induction es arbitrary: w d)
    (auto simp: next_fault_def Let_def split: list.split sum.split)

lemma PostEntries_ext [simp]: "ext (snd (LedgerRepo_PostEntries es w)) = ext w"
  by (simp add: LedgerRepo_PostEntries_def next_fault_def split_def Let_def split: list.split sum.split fault.split)

lemma perform_ext: "ext (snd (perform U E c w)) = call_ext E c (ext w)"
  by (cases c) (simp_all add: call_ext_def on_ext_def IdempotencyStore_Get_def
      IdempotencyStore_SetIfAbsent_def Publisher_Publish_def TransferRepo_FindByID_def
      TransferRepo_FindByIdempotencyKey_def TransferRepo_Save_def TransferRepo_UpdateState_def
      AccountRepo_FindByID_def AccountRepo_LockForUpdate_def AccountRepo_Save_def LedgerRepo_GetBalance_def
      LedgerRepo_GetAllEntries_def EventStore_Append_def EventStore_FindByTransferID_def
      OutboxWriter_Write_def relay_pending_def relay_mark_def read_clock_def draw_uuid_def split_def Let_def)

end
