(* ===== verification/Store.thy ===== *)
theory Store
  imports Demo Contracts "HOL-Library.Multiset"
begin

text \<open>
  What the ports promise to the application layer, in its own terms: a store of domain objects, with the
  transfers and accounts by identity, the ledger and the events as histories and the outbox as a queue of
  messages. \<open>store_step\<close> says for every port method, without reference to tables or statements, when
  a reply may be given and what the store is then. \<open>store_of\<close> reads the store off the tables, and the
  repositories refine it under every pattern of faults. What follows from the promises alone holds of
  the program: that the version of a transfer counts its changes is proved on the store.
\<close>

section \<open>The store\<close>

record message_slot =
  ms_ID :: int
  ms_Subject :: string
  ms_Payload :: bytes
  ms_Pending :: bool

record store =
  st_account :: "AccountID \<rightharpoonup> Account"
  st_transfer :: "TransferID \<rightharpoonup> Transfer"
  st_ledger :: "LedgerEntry list"
  st_events :: "TransferEvent list"
  st_outbox :: "message_slot list"

text \<open>Times come back cut to microseconds, currencies as a \<open>CHAR(3)\<close>.\<close>

definition micro :: "time \<Rightarrow> time" where
  "micro t = t - t mod 1000"

definition kept_money :: "Money \<Rightarrow> Money" where
  "kept_money m = m\<lparr>m_Currency := the (char3 (m_Currency m))\<rparr>"

definition kept_transfer :: "Transfer \<Rightarrow> Transfer" where
  "kept_transfer t = t\<lparr>t_Amount := kept_money (t_Amount t), t_CreatedAt := micro (t_CreatedAt t),
     t_UpdatedAt := micro (t_UpdatedAt t)\<rparr>"

definition kept_account :: "Account \<Rightarrow> Account" where
  "kept_account a = a\<lparr>a_Currency := the (char3 (a_Currency a)), a_CreatedAt := micro (a_CreatedAt a),
     a_UpdatedAt := micro (a_UpdatedAt a)\<rparr>"

definition kept_entry :: "LedgerEntry \<Rightarrow> LedgerEntry" where
  "kept_entry e = e\<lparr>e_Amount := kept_money (e_Amount e), e_CreatedAt := micro (e_CreatedAt e)\<rparr>"

definition kept_event :: "TransferEvent \<Rightarrow> TransferEvent" where
  "kept_event e = e\<lparr>ev_Amount := kept_money (ev_Amount e), ev_OccurredAt := micro (ev_OccurredAt e)\<rparr>"

section \<open>When a write is possible\<close>

definition may_save :: "Transfer \<Rightarrow> store \<Rightarrow> bool" where
  "may_save t A \<longleftrightarrow>
     st_transfer A (t_ID t) = None \<and> (\<forall>u \<in> ran (st_transfer A). t_IdempotencyKey u \<noteq> t_IdempotencyKey t) \<and>
     st_account A (t_SourceAccountID t) \<noteq> None \<and> st_account A (t_DestAccountID t) \<noteq> None \<and>
     0 < sint (m_Amount (t_Amount t)) \<and> char3 (m_Currency (t_Amount t)) \<noteq> None \<and> int32_range (t_Version t)"

definition may_update :: "Transfer \<Rightarrow> store \<Rightarrow> bool" where
  "may_update t A \<longleftrightarrow>
     (\<exists>u. st_transfer A (t_ID t) = Some u \<and> t_Version t = t_Version u + 1 \<and> int32_range (t_Version u)) \<and>
     int32_range (t_Version t)"

definition may_post :: "LedgerEntry list \<Rightarrow> store \<Rightarrow> bool" where
  "may_post es A \<longleftrightarrow>
     distinct (map e_ID es) \<and> e_ID ` set es \<inter> e_ID ` set (st_ledger A) = {} \<and>
     (\<forall>e \<in> set es. st_account A (e_AccountID e) \<noteq> None \<and> 0 \<le> sint (m_Amount (e_Amount e)) \<and>
        char3 (m_Currency (e_Amount e)) \<noteq> None)"

definition may_append :: "TransferEvent \<Rightarrow> store \<Rightarrow> bool" where
  "may_append e A \<longleftrightarrow>
     ev_EventID e \<notin> ev_EventID ` set (st_events A) \<and> st_transfer A (ev_TransferID e) \<noteq> None \<and>
     char3 (m_Currency (ev_Amount e)) \<noteq> None"

text \<open>A transfer with the fields an update carries.\<close>

definition amended :: "Transfer \<Rightarrow> Transfer \<Rightarrow> Transfer" where
  "amended t u = u\<lparr>t_State := t_State t, t_ExternalRef := t_ExternalRef t, t_FailureReason := t_FailureReason t,
     t_DebitPosted := t_DebitPosted t, t_CreditPosted := t_CreditPosted t,
     t_UpdatedAt := micro (t_UpdatedAt t), t_Version := t_Version t\<rparr>"

definition account_after :: "Account \<Rightarrow> store \<Rightarrow> Account" where
  "account_after a A = (case st_account A (a_ID a) of
     None \<Rightarrow> kept_account a
   | Some b \<Rightarrow> b\<lparr>a_OwnerName := a_OwnerName a, a_Status := a_Status a, a_UpdatedAt := micro (a_UpdatedAt a)\<rparr>)"

section \<open>What a call promises\<close>

text \<open>A write that reports success was possible and has been done; one that reports an error has not been
  done, or was possible and its acknowledgement was lost.\<close>

definition attempted :: "go_error option \<Rightarrow> bool \<Rightarrow> store \<Rightarrow> store \<Rightarrow> store \<Rightarrow> bool" where
  "attempted err fits A B A' \<longleftrightarrow>
     (case err of None \<Rightarrow> fits \<and> A' = B | Some e \<Rightarrow> A' = A \<or> fits \<and> A' = B)"

definition found :: "sentinel \<Rightarrow> 'a option \<Rightarrow> go_error + 'a \<Rightarrow> bool" where
  "found missing x r \<longleftrightarrow>
     (case r of Inr y \<Rightarrow> x = Some y | Inl e \<Rightarrow> errors_Is e missing \<longrightarrow> x = None)"

definition ledger_sum :: "AccountID \<Rightarrow> Currency \<Rightarrow> LedgerEntry list \<Rightarrow> int" where
  "ledger_sum a c es = sum_list (map entry_value
     (filter (\<lambda>e. e_AccountID e = a \<and> rstrip (m_Currency (e_Amount e)) = rstrip c) es))"

primrec promised :: "call \<Rightarrow> reply \<Rightarrow> store \<Rightarrow> store \<Rightarrow> bool" where
  "promised (C_Transfers_Save t) r A A' =
     attempted (r_err r) (may_save t A) A (A\<lparr>st_transfer := (st_transfer A)(t_ID t \<mapsto> kept_transfer t)\<rparr>) A'"
| "promised (C_Transfers_UpdateState t) r A A' =
     attempted (r_err r) (may_update t A) A
       (A\<lparr>st_transfer := (st_transfer A)(t_ID t \<mapsto> amended t (the (st_transfer A (t_ID t))))\<rparr>) A'"
| "promised (C_Accounts_Save a) r A A' =
     attempted (r_err r) (char3 (a_Currency a) \<noteq> None) A
       (A\<lparr>st_account := (st_account A)(a_ID a \<mapsto> account_after a A)\<rparr>) A'"
| "promised (C_PostEntries es) r A A' =
     attempted (r_err r) (may_post es A) A (A\<lparr>st_ledger := st_ledger A @ map kept_entry es\<rparr>) A'"
| "promised (C_Events_Append e) r A A' =
     attempted (r_err r) (may_append e A) A (A\<lparr>st_events := st_events A @ [kept_event e]\<rparr>) A'"
| "promised (C_Outbox_Write subject payload) r A A' =
     (\<exists>i. (\<forall>m \<in> set (st_outbox A). ms_ID m < i) \<and>
        attempted (r_err r) (payload \<noteq> None) A
          (A\<lparr>st_outbox := st_outbox A @
            [\<lparr>ms_ID = i, ms_Subject = subject, ms_Payload = the payload, ms_Pending = True\<rparr>]\<rparr>) A')"
| "promised (C_Outbox_MarkPublished i) r A A' =
     attempted (r_err r) True A
       (A\<lparr>st_outbox := map (\<lambda>m. if ms_ID m = i then m\<lparr>ms_Pending := False\<rparr> else m) (st_outbox A)\<rparr>) A'"
| "promised (C_Transfers_FindByID i) r A A' \<longleftrightarrow>
     A' = A \<and> found (TransferErr ErrTransferNotFound) (st_transfer A i) (r_transfer r)"
| "promised (C_Transfers_FindByIdempotencyKey key) r A A' \<longleftrightarrow>
     A' = A \<and> (case r_transfer_opt r of
        Inl e \<Rightarrow> True
      | Inr None \<Rightarrow> \<forall>u \<in> ran (st_transfer A). t_IdempotencyKey u \<noteq> key
      | Inr (Some t) \<Rightarrow> t \<in> ran (st_transfer A) \<and> t_IdempotencyKey t = key)"
| "promised (C_Accounts_FindByID a) r A A' \<longleftrightarrow>
     A' = A \<and> found (AccountErr ErrAccountNotFound) (st_account A a) (r_account r)"
| "promised (C_Accounts_LockForUpdate a) r A A' \<longleftrightarrow>
     A' = A \<and> found (AccountErr ErrAccountNotFound) (st_account A a) (r_account r)"
| "promised (C_GetBalance a c) r A A' \<longleftrightarrow>
     A' = A \<and> (case r_money r of Inl e \<Rightarrow> True
      | Inr m \<Rightarrow> m_Currency m = c \<and> sint (m_Amount m) = ledger_sum a c (st_ledger A))"
| "promised C_GetAllEntries r A A' \<longleftrightarrow>
     A' = A \<and> (case r_entries r of Inl e \<Rightarrow> True
      | Inr es \<Rightarrow> mset es = mset (st_ledger A) \<and> sorted (map e_CreatedAt es))"
| "promised (C_Events_FindByTransferID i) r A A' \<longleftrightarrow>
     A' = A \<and> (case r_events r of Inl e \<Rightarrow> True
      | Inr es \<Rightarrow> mset es = mset (filter (\<lambda>e. ev_TransferID e = i) (st_events A)) \<and> sorted (map ev_OccurredAt es))"
| "promised (C_Outbox_Pending n) r A A' \<longleftrightarrow>
     A' = A \<and> (case r_outbox r of Inl e \<Rightarrow> True
      | Inr rows \<Rightarrow> rows = map (\<lambda>m. \<lparr>o_ID = ms_ID m, o_Subject = ms_Subject m, o_Payload = ms_Payload m\<rparr>)
          (take n (filter ms_Pending (st_outbox A))))"
| "promised C_Now r A A' \<longleftrightarrow> A' = A"
| "promised C_NewUUID r A A' \<longleftrightarrow> A' = A"
| "promised (C_InitiateTransfer req) r A A' \<longleftrightarrow> A' = A"
| "promised (C_Idempotency_Get key) r A A' \<longleftrightarrow> A' = A"
| "promised (C_Idempotency_SetIfAbsent key v ttl) r A A' \<longleftrightarrow> A' = A"
| "promised (C_Publish subject payload) r A A' \<longleftrightarrow> A' = A"

definition store_step :: "call \<Rightarrow> reply \<Rightarrow> store \<Rightarrow> store \<Rightarrow> bool" where
  "store_step c r A A' \<longleftrightarrow> returns c r \<and> promised c r A A'"

text \<open>On a healthy connection a possible write succeeds.\<close>

definition possible :: "call \<Rightarrow> store \<Rightarrow> bool" where
  "possible c A = (case c of
     C_Transfers_Save t \<Rightarrow> may_save t A
   | C_Transfers_UpdateState t \<Rightarrow> may_update t A
   | C_Accounts_Save a \<Rightarrow> char3 (a_Currency a) \<noteq> None
   | C_PostEntries es \<Rightarrow> may_post es A
   | C_Events_Append e \<Rightarrow> may_append e A
   | C_Outbox_Write subject payload \<Rightarrow> payload \<noteq> None
   | C_Outbox_MarkPublished i \<Rightarrow> True
   | _ \<Rightarrow> False)"

section \<open>The tables as a store\<close>

definition row_account :: "account_row \<Rightarrow> Account" where
  "row_account r = \<lparr>a_ID = AccountID (ac_id r), a_OwnerName = ac_owner_name r, a_Currency = ac_currency r,
     a_Status = ac_status r, a_CreatedAt = go_time (ac_created_at r), a_UpdatedAt = go_time (ac_updated_at r)\<rparr>"

definition row_posted :: "ledger_row \<Rightarrow> LedgerEntry" where
  "row_posted r = \<lparr>e_ID = LedgerEntryID (lr_id r), e_TransactionID = TransactionID (lr_transaction_id r),
     e_AccountID = AccountID (lr_account_id r), e_Type = lr_entry_type r,
     e_Amount = \<lparr>m_Amount = lr_amount r, m_Currency = lr_currency r\<rparr>, e_Description = lr_description r,
     e_CreatedAt = go_time (lr_created_at r)\<rparr>"

definition row_event :: "event_row \<Rightarrow> TransferEvent" where
  "row_event r = \<lparr>ev_EventID = er_id r, ev_TransferID = TransferID (er_transfer_id r), ev_Type = er_event_type r,
     ev_State = er_state r, ev_Amount = \<lparr>m_Amount = er_amount r, m_Currency = er_currency r\<rparr>,
     ev_OccurredAt = go_time (er_occurred_at r), ev_Metadata = er_metadata r\<rparr>"

definition row_slot :: "outbox_table_row \<Rightarrow> message_slot" where
  "row_slot r = \<lparr>ms_ID = ob_id r, ms_Subject = ob_subject r, ms_Payload = ob_payload r,
     ms_Pending = (ob_status r = OutboxPending)\<rparr>"

definition store_of :: "database \<Rightarrow> store" where
  "store_of d =
     \<lparr>st_account = (\<lambda>i. map_option row_account (find (\<lambda>r. ac_id r = acc_uuid i) (accounts d))),
      st_transfer = (\<lambda>i. map_option row_transfer (find (\<lambda>r. tr_id r = tr_uuid i) (transfers d))),
      st_ledger = map row_posted (ledger_entries d), st_events = map row_event (transfer_events d),
      st_outbox = map row_slot (outbox d)\<rparr>"

section \<open>Rows and objects\<close>

lemma micro_go: "go_time (pg_time t) = micro t"
  by (simp add: micro_def go_time_def pg_time_def minus_mod_eq_div_mult)

lemma kept_rows:
  "char3 (m_Currency (t_Amount t)) = Some c \<Longrightarrow> row_transfer (transfer_row_of c t) = kept_transfer t"
  "char3 (m_Currency (e_Amount e)) = Some c \<Longrightarrow> row_posted (entry_row c e) = kept_entry e"
  "row_transfer (update_row t r) = amended t (row_transfer r)"
  by (simp_all add: row_transfer_def transfer_row_of_def kept_transfer_def kept_money_def micro_go
      row_posted_def entry_row_def kept_entry_def amended_def update_row_def)

lemma row_identity [simp]:
  "a_ID (row_account a) = AccountID (ac_id a)" "e_ID (row_posted l) = LedgerEntryID (lr_id l)"
  "e_AccountID (row_posted l) = AccountID (lr_account_id l)" "ev_EventID (row_event v) = er_id v"
  "e_Amount (row_posted l) = \<lparr>m_Amount = lr_amount l, m_Currency = lr_currency l\<rparr>"
  "ev_TransferID (row_event v) = TransferID (er_transfer_id v)" "ms_ID (row_slot m) = ob_id m"
  "e_CreatedAt (row_posted l) = go_time (lr_created_at l)" "ev_OccurredAt (row_event v) = go_time (er_occurred_at v)"
  "ms_Pending (row_slot m) = (ob_status m = OutboxPending)" "entry_value (row_posted l) = row_value l"
  by (cases "lr_entry_type l"; simp add: row_account_def row_posted_def row_event_def row_slot_def entry_value_def
      row_value_def)+

lemma store_sel [simp]:
  "st_account (store_of d) a = map_option row_account (find (\<lambda>r. ac_id r = acc_uuid a) (accounts d))"
  "st_transfer (store_of d) i = map_option row_transfer (find (\<lambda>r. tr_id r = tr_uuid i) (transfers d))"
  "st_ledger (store_of d) = map row_posted (ledger_entries d)" "st_events (store_of d) = map row_event (transfer_events d)"
  "st_outbox (store_of d) = map row_slot (outbox d)"
  by (simp_all add: store_of_def)

lemma find_None_key: "find (\<lambda>r. key r = k) rs = None \<longleftrightarrow> k \<notin> key ` set rs"
  by (induction rs) auto

lemma find_new:
  "find (\<lambda>r. key r = k) (rs @ [x]) =
     (if key x = k \<and> k \<notin> key ` set rs then Some x else find (\<lambda>r. key r = k) rs)"
  by (induction rs) auto

lemma store_account_None: "st_account (store_of d) a = None \<longleftrightarrow> \<not> has_account d (acc_uuid a)"
  by (simp add: has_account_def find_None_key)

lemma store_transfer_None: "st_transfer (store_of d) i = None \<longleftrightarrow> tr_uuid i \<notin> tr_id ` set (transfers d)"
  by (simp add: find_None_key)

lemma store_transfers:
  assumes "db_wf d"
  shows "ran (st_transfer (store_of d)) = row_transfer ` set (transfers d)"
proof -
  have "st_transfer (store_of d) (TransferID (tr_id r)) = Some (row_transfer r)" if "r \<in> set (transfers d)" for r
    using find_key_unique [of tr_id "transfers d" r] assms that by (simp add: db_wf_def)
  moreover have "\<exists>r \<in> set (transfers d). t = row_transfer r" if "st_transfer (store_of d) i = Some t" for i t
    using that by (auto dest: find_SomeD)
  ultimately show ?thesis unfolding ran_def by blast
qed

section \<open>Statements on the store\<close>

lemma sql_attempted:
  assumes "\<And>x d'. stmt (db w) = Inr (x, d') \<Longrightarrow> fits \<and> store_of d' = B"
  shows "attempted (as_error ctx (fst (sql_exec stmt w))) fits (store_of (db w)) B (store_of (db (snd (sql_exec stmt w))))"
    and "attempted (plain_error (fst (sql_exec stmt w))) fits (store_of (db w)) B (store_of (db (snd (sql_exec stmt w))))"
  using sql_exec_db [of stmt w] sql_exec_Inr [of stmt w] assms
  by (auto simp: attempted_def as_error_def plain_error_def split: sum.splits)

lemma save_store:
  assumes "db_wf d" and "insert_transfer t d = Inr (x, d')"
  shows "may_save t (store_of d) \<and>
    store_of d' = (store_of d)\<lparr>st_transfer := (st_transfer (store_of d))(t_ID t \<mapsto> kept_transfer t)\<rparr>"
proof -
  obtain c where c: "char3 (m_Currency (t_Amount t)) = Some c" "int32_range (t_Version t)"
      "0 < sint (m_Amount (t_Amount t))" "tr_uuid (t_ID t) \<notin> tr_id ` set (transfers d)"
      "t_IdempotencyKey t \<notin> tr_idempotency_key ` set (transfers d)"
      "has_account d (acc_uuid (t_SourceAccountID t))" "has_account d (acc_uuid (t_DestAccountID t))"
    and d': "d' = d\<lparr>transfers := transfers d @ [transfer_row_of c t]\<rparr>"
    using assms(2) by (auto simp: insert_transfer_Inr)
  have "may_save t (store_of d)"
    unfolding may_save_def store_account_None store_transfer_None store_transfers [OF assms(1)] using c
    by (force simp: row_transfer_def)
  moreover have "st_transfer (store_of d') = (st_transfer (store_of d))(t_ID t \<mapsto> kept_transfer t)"
    using c(4) kept_rows(1) [OF c(1)]
    by (auto simp: fun_eq_iff d' find_new transfer_row_of_def TransferID.expand)
  ultimately show ?thesis by (simp add: store_of_def d')
qed

lemma save_possible:
  assumes "db_wf d" and "may_save t (store_of d)"
  shows "\<exists>d'. insert_transfer t d = Inr ((), d')"
  using assms(2) unfolding may_save_def store_account_None store_transfer_None store_transfers [OF assms(1)]
  by (auto simp: insert_transfer_Inr row_transfer_def)

lemma update_store:
  assumes "db_wf d" and "update_transfer t d = Inr (n, d')"
  shows "if n = 0 then store_of d' = store_of d
    else may_update t (store_of d) \<and> store_of d' = (store_of d)\<lparr>st_transfer :=
      (st_transfer (store_of d))(t_ID t \<mapsto> amended t (the (st_transfer (store_of d) (t_ID t))))\<rparr>"
proof -
  have n: "n = length (filter (update_hits t) (transfers d))" and d': "d' = d\<lparr>transfers := updated t (transfers d)\<rparr>"
    and range: "int32_range (t_Version t)" "int32_range (t_Version t - 1)"
    using update_transfer_Inr [OF assms(2)] assms(2) by (auto simp: update_transfer_def split: if_splits)
  have look: "st_transfer (store_of d') i = map_option (\<lambda>r. row_transfer (if update_hits t r then update_row t r else r))
      (find (\<lambda>r. tr_id r = tr_uuid i) (transfers d))" for i
    using find_map_key [where key = tr_id and k = "tr_uuid i" and f = "\<lambda>r. if update_hits t r then update_row t r else r"]
    by (simp add: d' option.map_comp comp_def)
  have frame: "store_of d' = (store_of d)\<lparr>st_transfer := st_transfer (store_of d')\<rparr>" by (simp add: store_of_def d')
  show ?thesis
  proof (cases "\<exists>r \<in> set (transfers d). update_hits t r")
    case False
    then have "updated t (transfers d) = transfers d" by (intro map_idI) auto
    moreover have "n = 0" using False by (simp add: n)
    ultimately show ?thesis by (simp add: d')
  next
    case True
    then obtain r where r: "r \<in> set (transfers d)" "update_hits t r" by blast
    then have at: "find (\<lambda>r. tr_id r = tr_uuid (t_ID t)) (transfers d) = Some r"
      using find_key_unique [of tr_id "transfers d" r] assms(1) by (auto simp: db_wf_def update_hits_def)
    have "st_transfer (store_of d') i = (if i = t_ID t then Some (amended t (row_transfer r)) else st_transfer (store_of d) i)" for i
    proof (cases "i = t_ID t")
      case True
      with at r(2) look [of i] show ?thesis by (simp add: kept_rows(3) del: store_sel)
    next
      case False
      then have "\<not> update_hits t q" if "find (\<lambda>r. tr_id r = tr_uuid i) (transfers d) = Some q" for q
        using find_SomeD [OF that] by (auto simp: update_hits_def TransferID.expand)
      with False show ?thesis by (cases "find (\<lambda>r. tr_id r = tr_uuid i) (transfers d)")
          (simp_all add: look [of i] store_sel(2) [of d] del: store_sel)
    qed
    moreover have "n \<noteq> 0" using r by (auto simp: n filter_empty_conv)
    moreover have "may_update t (store_of d)" using at r(2) range by (simp add: may_update_def update_hits_def)
    ultimately show ?thesis using at by (subst frame) (simp add: fun_eq_iff fun_upd_def)
  qed
qed

lemma update_possible:
  assumes "may_update t (store_of d)"
  shows "\<exists>n d'. update_transfer t d = Inr (Suc n, d')"
proof -
  obtain r where r: "find (\<lambda>r. tr_id r = tr_uuid (t_ID t)) (transfers d) = Some r" "t_Version t = tr_version r + 1"
    using assms by (auto simp: may_update_def)
  then have "filter (update_hits t) (transfers d) \<noteq> []"
    by (auto simp: filter_empty_conv update_hits_def dest: find_SomeD)
  moreover have "int32_range (t_Version t)" "int32_range (t_Version t - 1)"
    using assms r by (auto simp: may_update_def)
  ultimately show ?thesis by (cases "length (filter (update_hits t) (transfers d))") (simp_all add: update_transfer_def)
qed

lemma account_store:
  assumes "upsert_account a d = Inr (x, d')"
  shows "char3 (a_Currency a) \<noteq> None \<and>
    store_of d' = (store_of d)\<lparr>st_account := (st_account (store_of d))(a_ID a \<mapsto> account_after a (store_of d))\<rparr>"
proof -
  obtain c where c: "char3 (a_Currency a) = Some c" using assms by (auto simp: upsert_account_def split: option.splits)
  let ?f = "\<lambda>r. if ac_id r = acc_uuid (a_ID a) then r\<lparr>ac_owner_name := a_OwnerName a, ac_status := a_Status a,
      ac_updated_at := pg_time (a_UpdatedAt a)\<rparr> else r"
  have look: "find (\<lambda>r. ac_id r = k) (map ?f (accounts d)) = map_option ?f (find (\<lambda>r. ac_id r = k) (accounts d))" for k
    by (rule find_map_key) simp
  have id: "r \<in> set (accounts d) \<and> ac_id r = k" if "find (\<lambda>r. ac_id r = k) (accounts d) = Some r" for r k
    using find_SomeD [OF that] .
  have each: "st_account (store_of d') i = (if i = a_ID a then Some (account_after a (store_of d)) else st_account (store_of d) i)" for i
  proof (cases "find (\<lambda>r. ac_id r = acc_uuid (a_ID a)) (accounts d)")
    case None
    then have "\<not> has_account d (acc_uuid (a_ID a))" unfolding has_account_def by (rule find_None_key [THEN iffD1])
    with assms c None show ?thesis
      by (auto simp: upsert_account_def find_new account_after_def kept_account_def row_account_def micro_go
          has_account_def AccountID.expand)
  next
    case (Some r)
    then have "has_account d (acc_uuid (a_ID a))" using id [OF Some] by (force simp: has_account_def)
    then have d': "d' = d\<lparr>accounts := map ?f (accounts d)\<rparr>" using assms c by (simp add: upsert_account_def)
    have here: "st_account (store_of d') i = map_option (\<lambda>r. row_account (?f r)) (find (\<lambda>r. ac_id r = acc_uuid i) (accounts d))"
      by (simp add: d' look option.map_comp comp_def)
    show ?thesis
    proof (cases "i = a_ID a")
      case True
      with Some id [OF Some] show ?thesis
        unfolding here by (simp add: account_after_def row_account_def micro_go)
    next
      case False
      then have "?f q = q" if "find (\<lambda>r. ac_id r = acc_uuid i) (accounts d) = Some q" for q
        using id [OF that] by (auto simp: AccountID.expand)
      with False show ?thesis
        unfolding here by (cases "find (\<lambda>r. ac_id r = acc_uuid i) (accounts d)") simp_all
    qed
  qed
  have "st_account (store_of d') = (st_account (store_of d))(a_ID a \<mapsto> account_after a (store_of d))"
    by (rule ext) (simp only: each fun_upd_apply)
  moreover have "store_of d' = (store_of d)\<lparr>st_account := st_account (store_of d')\<rparr>"
    using upsert_account_ids(2-5) assms by (simp add: store_of_def)
  ultimately show ?thesis using c by simp
qed

lemma may_post_rows:
  "may_post es (store_of d) \<longleftrightarrow> distinct (map e_ID es) \<and>
     (\<forall>e \<in> set es. le_uuid (e_ID e) \<notin> lr_id ` set (ledger_entries d) \<and> has_account d (acc_uuid (e_AccountID e)) \<and>
        0 \<le> sint (m_Amount (e_Amount e)) \<and> char3 (m_Currency (e_Amount e)) \<noteq> None)"
proof -
  have "i \<in> e_ID ` set (st_ledger (store_of d)) \<longleftrightarrow> le_uuid i \<in> lr_id ` set (ledger_entries d)" for i
    by (cases i) (auto simp: image_image)
  then have "e_ID ` set es \<inter> e_ID ` set (st_ledger (store_of d)) = {} \<longleftrightarrow>
      (\<forall>e \<in> set es. le_uuid (e_ID e) \<notin> lr_id ` set (ledger_entries d))"
    by blast
  then show ?thesis unfolding may_post_def store_account_None by blast
qed

lemma insert_all_iff:
  "insert_all es d = Inr d' \<longleftrightarrow>
     may_post es (store_of d) \<and> d' = d\<lparr>ledger_entries := ledger_entries d @ entry_rows es\<rparr>"
proof (induction es arbitrary: d)
  case Nil
  show ?case by (auto simp: may_post_rows entry_rows_def)
next
  case (Cons e es)
  show ?case
  proof (cases "may_post [e] (store_of d)")
    case True
    then obtain c where c: "char3 (m_Currency (e_Amount e)) = Some c" by (auto simp: may_post_rows)
    let ?d = "d\<lparr>ledger_entries := ledger_entries d @ [entry_row c e]\<rparr>"
    have "insert_ledger_entry e d = Inr ?d"
      using True c by (auto simp: insert_ledger_entry_Inr may_post_rows)
    then have "insert_all (e # es) d = Inr d' \<longleftrightarrow> may_post es (store_of ?d) \<and>
        d' = d\<lparr>ledger_entries := ledger_entries d @ entry_rows (e # es)\<rparr>"
      using c by (simp add: Cons.IH entry_rows_def)
    also have "may_post es (store_of ?d) \<longleftrightarrow> may_post (e # es) (store_of d)"
    proof -
      have "lr_id (entry_row c e) = le_uuid (e_ID e)" by (simp add: entry_row_def)
      moreover have "le_uuid i = le_uuid j \<longleftrightarrow> i = j" for i j by (auto intro: LedgerEntryID.expand)
      ultimately show ?thesis using True by (auto simp: may_post_rows) (metis image_eqI)+
    qed
    finally show ?thesis .
  next
    case False
    then obtain err where "insert_ledger_entry e d = Inl err"
      by (cases "insert_ledger_entry e d") (auto simp: insert_ledger_entry_Inr may_post_rows)
    moreover have "\<not> may_post (e # es) (store_of d)" using False by (auto simp: may_post_rows)
    ultimately show ?thesis by simp
  qed
qed

lemma post_store:
  assumes "insert_all es d = Inr d'"
  shows "may_post es (store_of d) \<and> store_of d' = (store_of d)\<lparr>st_ledger := st_ledger (store_of d) @ map kept_entry es\<rparr>"
proof -
  have may: "may_post es (store_of d)" and d': "d' = d\<lparr>ledger_entries := ledger_entries d @ entry_rows es\<rparr>"
    using assms by (simp_all add: insert_all_iff)
  have "map row_posted (entry_rows es) = map kept_entry es"
    using may by (auto simp: may_post_rows entry_rows_def kept_rows(2))
  with may show ?thesis by (simp add: store_of_def d')
qed

lemma event_store:
  assumes "insert_event e d = Inr (x, d')"
  shows "may_append e (store_of d) \<and> store_of d' = (store_of d)\<lparr>st_events := st_events (store_of d) @ [kept_event e]\<rparr>"
proof -
  obtain c where c: "char3 (m_Currency (ev_Amount e)) = Some c" "ev_EventID e \<notin> er_id ` set (transfer_events d)"
      "tr_uuid (ev_TransferID e) \<in> tr_id ` set (transfers d)"
    using assms by (auto simp: insert_event_def split: option.splits if_splits)
  have "may_append e (store_of d)"
    unfolding may_append_def store_transfer_None using c by (force simp: image_image)
  moreover have "store_of d' = (store_of d)\<lparr>st_events := st_events (store_of d) @ [kept_event e]\<rparr>"
    using assms by (simp add: insert_event_def c del: image_iff)
      (auto simp: store_of_def row_event_def kept_event_def kept_money_def c(1) micro_go)
  ultimately show ?thesis ..
qed

lemma event_possible: "may_append e (store_of d) \<Longrightarrow> \<exists>d'. insert_event e d = Inr ((), d')"
  unfolding may_append_def store_transfer_None by (auto simp: insert_event_def image_image)

section \<open>Queries on the store\<close>

text \<open>A query answers from the table it reads, or with an error of the connection.\<close>

lemma sql_answer:
  assumes "fst (sql_exec stmt w) = r"
  shows "(\<exists>e. r = Inl e \<and> (e = driver_error \<or> stmt (db w) = Inl e)) \<or> (\<exists>x d. r = Inr x \<and> stmt (db w) = Inr (x, d))"
  using assms next_fault_db [of w]
  by (auto simp: sql_exec_def split_def Let_def split: fault.splits sum.splits)

lemma driver_error_is [simp]: "\<not> errors_Is driver_error x"
  by (simp add: driver_error_def)

lemma find_account_store:
  assumes "uuid_ok U"
  shows "found (AccountErr ErrAccountNotFound) (st_account (store_of (db w)) a) (fst (AccountRepo_FindByID U a w))"
    and "found (AccountErr ErrAccountNotFound) (st_account (store_of (db w)) a) (fst (AccountRepo_LockForUpdate U a w))"
  using sql_answer [OF refl, of "select_account a" w] assms
  by (auto simp: found_def AccountRepo_FindByID_def AccountRepo_LockForUpdate_def scanAccount_def select_account_def
      row_account_def ParseAccountID_def split_def Let_def
      split: option.splits sum.splits)

lemma find_transfer_store:
  assumes "uuid_ok U"
  shows "found (TransferErr ErrTransferNotFound) (st_transfer (store_of (db w)) i) (fst (TransferRepo_FindByID U i w))"
  using sql_answer [OF refl, of "select_transfer (\<lambda>r. tr_id r = tr_uuid i)" w] scanTransfer_row [OF assms]
  by (auto simp: found_def TransferRepo_FindByID_def select_transfer_def scanTransfer_def split_def Let_def
      split: option.splits)

lemma find_key_store:
  assumes "uuid_ok U" and "db_wf (db w)"
  shows "case fst (TransferRepo_FindByIdempotencyKey U key w) of
      Inl e \<Rightarrow> True
    | Inr None \<Rightarrow> \<forall>u \<in> ran (st_transfer (store_of (db w))). t_IdempotencyKey u \<noteq> key
    | Inr (Some t) \<Rightarrow> t \<in> ran (st_transfer (store_of (db w))) \<and> t_IdempotencyKey t = key"
  using sql_answer [OF refl, of "select_transfer (\<lambda>r. tr_idempotency_key r = key)" w] scanTransfer_row [OF assms(1)]
  unfolding store_transfers [OF assms(2)]
  by (auto simp: TransferRepo_FindByIdempotencyKey_def select_transfer_def scanTransfer_def split_def Let_def
      find_None_iff row_transfer_def dest: find_SomeD split: option.splits)

lemma balance_store:
  "case fst (LedgerRepo_GetBalance U a c w) of
      Inl e \<Rightarrow> True
    | Inr m \<Rightarrow> m_Currency m = c \<and> sint (m_Amount m) = ledger_sum a c (st_ledger (store_of (db w)))"
proof -
  have "sum_balance a c (db w) = ledger_sum a c (st_ledger (store_of (db w)))"
    by (cases a) (simp add: sum_balance_def ledger_sum_def filter_map comp_def)
  moreover have "sint (word_of_int x :: int64) = x" if "int64_range x" for x
    using that by (intro sint64_exact) (simp_all add: int64_range_def)
  ultimately show ?thesis
    using sql_answer [OF refl, of "select_balance a c" w]
    by (auto simp: LedgerRepo_GetBalance_def select_balance_def split_def Let_def split: sum.splits if_splits)
qed

lemma row_entry_posted: "uuid_ok U \<Longrightarrow> row_entry U = row_posted"
  by (rule ext) (simp add: row_entry_def row_posted_def ParseLedgerEntryID_def ParseTransactionID_def ParseAccountID_def)

lemma scan_events_rows: "uuid_ok U \<Longrightarrow> scan_events U rs = Inr (map row_event rs)"
  by (induction rs) (simp_all add: row_event_def ParseTransferID_def)

lemma go_time_mono: "sorted (map go_time ts) \<longleftrightarrow> sorted ts"
  by (induction ts) (auto simp: go_time_def)

lemma entries_store:
  assumes "uuid_ok U"
  shows "case fst (LedgerRepo_GetAllEntries U w) of
      Inl e \<Rightarrow> True
    | Inr es \<Rightarrow> mset es = mset (st_ledger (store_of (db w))) \<and> sorted (map e_CreatedAt es)"
proof -
  have "sorted (map (\<lambda>r. go_time (lr_created_at r)) (sort_key lr_created_at rs))" for rs
    using go_time_mono [of "map lr_created_at (sort_key lr_created_at rs)"] by (simp add: comp_def)
  then show ?thesis
    using sql_answer [OF refl, of "\<lambda>d. Inr (sort_key lr_created_at (ledger_entries d), d)" w]
    by (auto simp: LedgerRepo_GetAllEntries_def split_def Let_def row_entry_posted [OF assms] comp_def
        split: sum.splits)
qed

lemma events_store:
  assumes "uuid_ok U"
  shows "case fst (EventStore_FindByTransferID U i w) of
      Inl e \<Rightarrow> True
    | Inr es \<Rightarrow> mset es = mset (filter (\<lambda>e. ev_TransferID e = i) (st_events (store_of (db w)))) \<and>
        sorted (map ev_OccurredAt es)"
proof -
  have "sorted (map (\<lambda>r. go_time (er_occurred_at r)) (sort_key er_occurred_at rs))" for rs
    using go_time_mono [of "map er_occurred_at (sort_key er_occurred_at rs)"] by (simp add: comp_def)
  moreover have "TransferID u = i \<longleftrightarrow> u = tr_uuid i" for u by (cases i) auto
  ultimately show ?thesis
    using sql_answer [OF refl, of "\<lambda>d. Inr (sort_key er_occurred_at
        (filter (\<lambda>r. er_transfer_id r = tr_uuid i) (transfer_events d)), d)" w]
    by (auto simp: EventStore_FindByTransferID_def split_def Let_def scan_events_rows [OF assms] comp_def
        filter_map split: sum.splits)
qed

lemma pending_store:
  assumes "db_wf (db w)"
  shows "case fst (relay_pending n w) of
      Inl e \<Rightarrow> True
    | Inr rows \<Rightarrow> rows = map (\<lambda>m. \<lparr>o_ID = ms_ID m, o_Subject = ms_Subject m, o_Payload = ms_Payload m\<rparr>)
        (take n (filter ms_Pending (st_outbox (store_of (db w)))))"
proof -
  have "sorted (map ob_id (filter P (outbox (db w))))" for P
    using assms by (auto simp: db_wf_def sorted_wrt_map sorted_wrt_filter intro: sorted_wrt_mono_rel [of _ "\<lambda>x y. ob_id x < ob_id y"])
  then have "sort_key ob_id (filter P (outbox (db w))) = filter P (outbox (db w))" for P
    by (simp add: sort_key_id_if_sorted)
  then show ?thesis
    using sql_answer [OF refl, of "\<lambda>d. Inr (pending_rows n d, d)" w]
    by (auto simp: relay_pending_def pending_rows_def split_def Let_def filter_map comp_def take_map row_slot_def)
qed

section \<open>Refinement\<close>

lemma outbox_store:
  assumes "insert_outbox now s p d = Inr (x, d')"
  shows "p \<noteq> None \<and> store_of d' = (store_of d)\<lparr>st_outbox := st_outbox (store_of d) @
    [\<lparr>ms_ID = outbox_seq d, ms_Subject = s, ms_Payload = the p, ms_Pending = True\<rparr>]\<rparr>"
  using assms by (auto simp: insert_outbox_def store_of_def row_slot_def split: option.splits)

lemma mark_store:
  "store_of (mark_published now i d) = (store_of d)\<lparr>st_outbox :=
     map (\<lambda>m. if ms_ID m = i then m\<lparr>ms_Pending := False\<rparr> else m) (st_outbox (store_of d))\<rparr>"
  by (simp add: store_of_def mark_published_def row_slot_def)

lemma update_attempted:
  assumes "db_wf (db w)"
  shows "attempted (fst (TransferRepo_UpdateState U t w)) (may_update t (store_of (db w))) (store_of (db w))
    ((store_of (db w))\<lparr>st_transfer := (st_transfer (store_of (db w)))
       (t_ID t \<mapsto> amended t (the (st_transfer (store_of (db w)) (t_ID t))))\<rparr>)
    (store_of (db (snd (TransferRepo_UpdateState U t w))))"
proof -
  let ?x = "sql_exec (update_transfer t) w"
  have db: "db (snd (TransferRepo_UpdateState U t w)) = db (snd ?x)"
    by (simp add: TransferRepo_UpdateState_def split_def Let_def)
  have "fst (TransferRepo_UpdateState U t w) = None \<Longrightarrow> \<exists>n. fst ?x = Inr (Suc n)"
    by (auto simp: TransferRepo_UpdateState_def split_def Let_def gr0_conv_Suc split: sum.splits if_splits)
  with sql_exec_Inr [of "update_transfer t" w] sql_exec_db [of "update_transfer t" w] update_store [OF assms, of t]
  show ?thesis unfolding db attempted_def by (fastforce split: option.split if_splits)
qed

lemma post_attempted:
  "attempted (fst (LedgerRepo_PostEntries es w)) (may_post es (store_of (db w))) (store_of (db w))
     ((store_of (db w))\<lparr>st_ledger := st_ledger (store_of (db w)) @ map kept_entry es\<rparr>)
     (store_of (db (snd (LedgerRepo_PostEntries es w))))"
proof -
  let ?d = "db (snd (LedgerRepo_PostEntries es w))"
  have "may_post es (store_of (db w)) \<and>
      store_of ?d = (store_of (db w))\<lparr>st_ledger := st_ledger (store_of (db w)) @ map kept_entry es\<rparr>"
    if "insert_all es (db w) = Inr ?d" using post_store [OF that] .
  with PostEntries_db [of es w] PostEntries_None [of es w] show ?thesis
    unfolding attempted_def by (auto simp del: store_sel split: option.split)
qed

lemma calls_promised:
  assumes "uuid_ok U" and wf: "db_wf (db w)"
  shows "promised c (fst (perform U E c w)) (store_of (db w)) (store_of (db (snd (perform U E c w))))"
proof (cases c)
  case (C_Transfers_Save t)
  then show ?thesis
    using sql_attempted(1) [of "insert_transfer t" w, OF save_store [OF wf]]
    by (simp add: TransferRepo_Save_def split_def Let_def del: store_sel)
next
  case (C_Transfers_UpdateState t)
  then show ?thesis using update_attempted [OF wf, of U t] by (simp del: store_sel)
next
  case (C_Accounts_Save a)
  then show ?thesis
    using sql_attempted(2) [of "upsert_account a" w, OF account_store]
    by (simp add: AccountRepo_Save_def split_def Let_def del: store_sel)
next
  case (C_PostEntries es)
  then show ?thesis using post_attempted [of es w] by (simp del: store_sel)
next
  case (C_Events_Append e)
  then show ?thesis
    using sql_attempted(2) [of "insert_event e" w, OF event_store]
    by (simp add: EventStore_Append_def split_def Let_def del: store_sel)
next
  case (C_Outbox_Write s p)
  let ?w = "snd (read_clock w)"
  have "\<forall>m \<in> set (st_outbox (store_of (db w))). ms_ID m < outbox_seq (db w)"
    using wf by (auto simp: db_wf_def list_all_iff)
  then show ?thesis
    using sql_attempted(1) [of "insert_outbox (fst (read_clock w)) s p" ?w, OF outbox_store] C_Outbox_Write
    by (auto simp: OutboxWriter_Write_def split_def Let_def simp del: store_sel intro!: exI [of _ "outbox_seq (db w)"])
next
  case (C_Outbox_MarkPublished i)
  have "Inr ((), mark_published now i d) = Inr (x, d') \<Longrightarrow> True \<and> store_of d' = (store_of d)\<lparr>st_outbox :=
      map (\<lambda>m. if ms_ID m = i then m\<lparr>ms_Pending := False\<rparr> else m) (st_outbox (store_of d))\<rparr>" for now d x d'
    using mark_store [of now i d] by simp
  from sql_attempted(2) [of "\<lambda>d. Inr ((), mark_published (fst (read_clock w)) i d)" "snd (read_clock w)", OF this]
  show ?thesis by (simp add: C_Outbox_MarkPublished relay_mark_def split_def Let_def del: store_sel)
qed (use find_transfer_store [OF assms(1)] find_key_store [OF assms] find_account_store [OF assms(1)] balance_store
    entries_store [OF assms(1)] events_store [OF assms(1)] pending_store [OF wf]
    in \<open>simp_all del: store_sel\<close>)

lemma possible_done:
  assumes "db_wf (db w)" and "faults w = []" and "possible c (store_of (db w))"
  shows "fst (perform U E c w) = R_Err None"
  using assms(3)
proof (cases c)
  case (C_Transfers_Save t)
  with assms save_possible [OF assms(1), of t] show ?thesis
    by (auto simp: possible_def TransferRepo_Save_def sql_exec_nofault as_error_def simp del: store_sel)
next
  case (C_Transfers_UpdateState t)
  with assms update_possible [of t "db w"] show ?thesis
    by (auto simp: possible_def TransferRepo_UpdateState_def sql_exec_nofault simp del: store_sel)
next
  case (C_Accounts_Save a)
  with assms show ?thesis
    by (auto simp: possible_def AccountRepo_Save_def sql_exec_nofault upsert_account_def plain_error_def)
next
  case (C_PostEntries es)
  then obtain d' where "insert_all es (db w) = Inr d'"
    using assms(3) insert_all_iff [of es "db w"] by (simp add: possible_def del: store_sel)
  with C_PostEntries assms show ?thesis by (simp add: PostEntries_nofault)
next
  case (C_Events_Append e)
  with assms event_possible [of e "db w"] show ?thesis
    by (auto simp: possible_def EventStore_Append_def sql_exec_nofault plain_error_def simp del: store_sel)
next
  case (C_Outbox_Write s p)
  with assms show ?thesis
    by (auto simp: possible_def OutboxWriter_Write_def read_clock_def sql_exec_nofault as_error_def insert_outbox_def)
next
  case (C_Outbox_MarkPublished i)
  with assms show ?thesis
    by (simp add: relay_mark_def read_clock_def sql_exec_nofault plain_error_def)
qed (simp_all add: possible_def)

text \<open>What any threads do is a sequence of steps of the store.\<close>

definition store_moves :: "store \<Rightarrow> store \<Rightarrow> bool" where
  "store_moves A A' \<longleftrightarrow> (\<exists>c r. store_step c r A A')"

lemma pool_refines_store:
  assumes "pool_steps U E s s'" and "uuid_ok U" and "db_wf (db (snd s))"
  shows "store_moves\<^sup>*\<^sup>* (store_of (db (snd s))) (store_of (db (snd s'))) \<and> db_wf (db (snd s'))"
  using assms(1,3)
proof (induction rule: pool_steps.induct)
  case (pool_refl s)
  then show ?case by simp
next
  case (pool_next s s' s'')
  obtain ps w ps' w' where s: "s' = (ps, w)" "s'' = (ps', w')" by (cases s', cases s'')
  then obtain c r where p: "perform U E c w = (r, w')" using pool_next.hyps(2) by (auto elim: pool_stepE)
  have wf: "db_wf (db w)" using pool_next s by simp
  have "store_step c r (store_of (db w)) (store_of (db w'))"
    using calls_promised [OF assms(2) wf, of c E] perform_returns [of c U E w] p by (simp add: store_step_def del: store_sel)
  moreover have "db_wf (db w')" using db_write_wf [OF perform_db_write wf, of U E c] p by simp
  ultimately show ?case
    using pool_next s by (auto simp: store_moves_def simp del: store_sel intro: rtranclp.rtrancl_into_rtrancl)
qed

section \<open>Versions\<close>

text \<open>What may become of a stored transfer: what identifies it stays, and every change raises its version.\<close>

definition later :: "Transfer \<Rightarrow> Transfer \<Rightarrow> bool" where
  "later t t' \<longleftrightarrow>
     t_ID t' = t_ID t \<and> t_IdempotencyKey t' = t_IdempotencyKey t \<and> t_SourceAccountID t' = t_SourceAccountID t \<and>
     t_DestAccountID t' = t_DestAccountID t \<and> t_Amount t' = t_Amount t \<and> t_CreatedAt t' = t_CreatedAt t \<and>
     (t' = t \<or> t_Version t < t_Version t')"

lemma later_refl: "later t t"
  by (simp add: later_def)

lemma later_trans: "later t t' \<Longrightarrow> later t' t'' \<Longrightarrow> later t t''"
  by (auto simp: later_def)

lemma store_step_later:
  assumes "store_step c r A A'" and "st_transfer A i = Some t"
  shows "\<exists>t'. st_transfer A' i = Some t' \<and> later t t'"
  using assms
  by (cases c) (auto simp: store_step_def attempted_def may_save_def may_update_def later_def amended_def
      split: option.splits if_splits)

lemma store_moves_later:
  assumes "store_moves\<^sup>*\<^sup>* A A'" and "st_transfer A i = Some t"
  shows "\<exists>t'. st_transfer A' i = Some t' \<and> later t t'"
  using assms
  by (induction rule: rtranclp_induct) (auto simp: store_moves_def later_refl dest: store_step_later intro: later_trans)

section \<open>Properties\<close>



text \<open>
  (C15) The version of a transfer counts its changes: from any state of the tables and under any steps of
  any threads, with any faults, a stored transfer stays stored with its key, accounts, amount and time of
  creation, its version never falls, and as long as the version is the same nothing of it has changed.
\<close>

theorem version_counts_changes:
  assumes "uuid_ok U" and "db_wf (db w)" and "pool_steps U E (ps, w) (ps', w')"
    and "transfer_at (db w) i = Some r"
  shows "\<exists>r'. transfer_at (db w') i = Some r' \<and> tr_idempotency_key r' = tr_idempotency_key r \<and>
    tr_source_account_id r' = tr_source_account_id r \<and> tr_dest_account_id r' = tr_dest_account_id r \<and>
    tr_amount r' = tr_amount r \<and> tr_currency r' = tr_currency r \<and> tr_created_at r' = tr_created_at r \<and>
    tr_version r \<le> tr_version r' \<and> (tr_version r' = tr_version r \<longrightarrow> r' = r)"
proof -
  have "st_transfer (store_of (db w)) i = Some (row_transfer r)" using assms(4) by (simp add: transfer_at_def)
  moreover have "store_moves\<^sup>*\<^sup>* (store_of (db w)) (store_of (db w'))"
    using pool_refines_store [OF assms(3,1)] assms(2) by simp
  ultimately obtain t' where "st_transfer (store_of (db w')) i = Some t'" "later (row_transfer r) t'"
    using store_moves_later by blast
  then obtain r' where r': "transfer_at (db w') i = Some r'" and l: "later (row_transfer r) (row_transfer r')"
    by (auto simp: transfer_at_def)
  have "row_transfer r' = row_transfer r \<Longrightarrow> r' = r" by (metis row_of_row_transfer)
  with r' l show ?thesis by (auto simp: later_def row_transfer_def go_time_def)
qed

theorem version_counts_changes_witness:
  "\<exists>r'. transfer_at (db (snd (run_schedule decimal_uuid demo_E [0, 0, 0, 0, 0]
      ([thread (Execute decimal_uuid (TransferID 20))], demo_world [demo_row 20 ''k'' 300] [])))) (TransferID 20) = Some r' \<and>
    tr_amount r' = 300 \<and> 1 \<le> tr_version r'"
proof -
  let ?s = "([thread (Execute decimal_uuid (TransferID 20))], demo_world [demo_row 20 ''k'' 300] [])"
  obtain ps w' where s: "run_schedule decimal_uuid demo_E [0, 0, 0, 0, 0] ?s = (ps, w')" by fastforce
  then have "pool_steps decimal_uuid demo_E ?s (ps, w')" by (metis run_schedule_steps)
  from version_counts_changes [OF decimal_uuid_ok _ this, of "TransferID 20" "demo_row 20 ''k'' 300"]
  obtain r' where "transfer_at (db w') (TransferID 20) = Some r'" "tr_amount r' = 300"
      "tr_version (demo_row 20 ''k'' 300) \<le> tr_version r'"
    using demo_wf [OF demo_row_ok] by (auto simp: demo_at)
  then show ?thesis unfolding s by (simp add: demo_row_def)
qed

end
