(* ===== verification/Create_Transfer.thy ===== *)
theory Create_Transfer
  imports Demo Contracts
begin

text \<open>
  Package \<open>internal/application/command\<close>: the handler behind \<open>POST /v1/transfers\<close>. It answers a known
  idempotency key from the cache, and otherwise validates the command, saves the transfer in PENDING,
  appends its event, writes the outbox message and caches the answer. Go returns the result together
  with the error; so does the model.
\<close>

section \<open>Definitions\<close>

text \<open>24 hours.\<close>

definition idempotencyTTL :: time where
  "idempotencyTTL = 24 * 60 * 60 * 1000000000"

record CreateTransferCmd =
  c_IdempotencyKey :: string
  c_SourceAccountID :: string
  c_DestAccountID :: string
  c_Amount :: int64
  c_Currency :: Currency

text \<open>\<open>State\<close> is a string type, and a decoded result holds whatever string the cache had.\<close>

record CreateTransferResult =
  cr_TransferID :: string
  cr_State :: string
  cr_Cached :: bool

definition zero_result :: CreateTransferResult where
  "zero_result = \<lparr>cr_TransferID = [], cr_State = [], cr_Cached = False\<rparr>"

definition result_json :: "CreateTransferResult \<Rightarrow> json" where
  "result_json r =
     JObj ([(''transfer_id'', JStr (cr_TransferID r)), (''state'', JStr (cr_State r))] @
           (if cr_Cached r then [(''cached'', JBool True)] else []))"

definition result_tags :: "(string \<times> field_type) list" where
  "result_tags = [(''transfer_id'', FString), (''state'', FString), (''cached'', FBool)]"

definition Unmarshal_result :: "bytes \<Rightarrow> go_error + CreateTransferResult" where
  "Unmarshal_result b =
     map_sum id (\<lambda>kvs. \<lparr>cr_TransferID = string_field ''transfer_id'' kvs [],
                        cr_State = string_field ''state'' kvs [],
                        cr_Cached = bool_field ''cached'' kvs False\<rparr>)
       (Unmarshal_object result_tags b)"

definition checkIdempotency ::
  "string \<Rightarrow> (CreateTransferResult \<times> bool \<times> go_error option) prog" where
  "checkIdempotency key =
     Idempotency_Get key (\<lambda>cached.
       case cached of
         Inl err \<Rightarrow> Return (zero_result, False, Some (wrap ''idempotency get'' err))
       | Inr None \<Rightarrow> Return (zero_result, False, None)
       | Inr (Some b) \<Rightarrow>
           (case Unmarshal_result b of
              Inl err \<Rightarrow> Return (zero_result, False, Some (wrap ''unmarshal cached response'' err))
            | Inr result \<Rightarrow> Return (result\<lparr>cr_Cached := True\<rparr>, True, None)))"

definition validateAccounts ::
  "uuid_lib \<Rightarrow> AccountID \<Rightarrow> AccountID \<Rightarrow> go_error option prog" where
  "validateAccounts U src dst =
     Accounts_FindByID src (\<lambda>srcAcct.
       case srcAcct of
         Inl err \<Rightarrow> Return (Some (wrap ''source account'' err))
       | Inr srcAcct \<Rightarrow>
           (case CanTransact U srcAcct of
              Some err \<Rightarrow> Return (Some err)
            | None \<Rightarrow>
                Accounts_FindByID dst (\<lambda>dstAcct.
                  case dstAcct of
                    Inl err \<Rightarrow> Return (Some (wrap ''destination account'' err))
                  | Inr dstAcct \<Rightarrow> Return (CanTransact U dstAcct))))"

text \<open>Encoding a result cannot fail.\<close>

definition cacheResult :: "string \<Rightarrow> CreateTransferResult \<Rightarrow> go_error option prog" where
  "cacheResult key result =
     Idempotency_SetIfAbsent key (JSON (result_json result)) idempotencyTTL (\<lambda>r.
       Return (case r of Inl err \<Rightarrow> Some err | Inr stored \<Rightarrow> None))"

text \<open>\<open>json.Marshal(evt)\<close> with its error dropped: nil bytes when the time has no JSON form.\<close>

definition evt_payload :: "uuid_lib \<Rightarrow> TransferEvent \<Rightarrow> bytes option" where
  "evt_payload U evt = (case TransferEvent_json U evt of Inl err \<Rightarrow> None | Inr j \<Rightarrow> Some (JSON j))"

text \<open>From the validated transfer on: save, event, outbox, cache.\<close>

definition persist ::
  "uuid_lib \<Rightarrow> Transfer \<Rightarrow> (CreateTransferResult \<times> go_error option) prog" where
  "persist U t =
     Transfers_Save t (\<lambda>err.
       case err of
         Some e \<Rightarrow> Return (zero_result, Some (wrap ''save transfer'' e))
       | None \<Rightarrow>
     NewUUID (\<lambda>u. Now (\<lambda>now.
       let evt = NewEvent U u now t EventTransferRequested in
     Events_Append evt (\<lambda>err.
       case err of
         Some e \<Rightarrow> Return (zero_result, Some (wrap ''append event'' e))
       | None \<Rightarrow>
     Outbox_Write (event_string EventTransferRequested) (evt_payload U evt) (\<lambda>err.
       case err of
         Some e \<Rightarrow> Return (zero_result, Some (wrap ''write outbox'' e))
       | None \<Rightarrow>
     (let result = \<lparr>cr_TransferID = TransferID_String U (t_ID t), cr_State = state_string (t_State t),
                    cr_Cached = False\<rparr> in
      map_prog (Pair result) (cacheResult (t_IdempotencyKey t) result)))))))"

definition Handle ::
  "uuid_lib \<Rightarrow> CreateTransferCmd \<Rightarrow> (CreateTransferResult \<times> go_error option) prog" where
  "Handle U cmd =
     prog_bind (checkIdempotency (c_IdempotencyKey cmd)) (\<lambda>(result, ok, err).
       case err of
         Some e \<Rightarrow> Return (zero_result, Some e)
       | None \<Rightarrow>
       if ok then Return (result, None) else
       (case ParseAccountID U (c_SourceAccountID cmd) of
         Inl e \<Rightarrow> Return (zero_result, Some (wrap ''invalid source account'' e))
       | Inr srcID \<Rightarrow>
       (case ParseAccountID U (c_DestAccountID cmd) of
         Inl e \<Rightarrow> Return (zero_result, Some (wrap ''invalid destination account'' e))
       | Inr dstID \<Rightarrow>
       prog_bind (validateAccounts U srcID dstID) (\<lambda>err.
       case err of
         Some e \<Rightarrow> Return (zero_result, Some e)
       | None \<Rightarrow>
       (case money_New (c_Amount cmd) (c_Currency cmd) of
         Inl e \<Rightarrow> Return (zero_result, Some (wrap ''invalid amount'' e))
       | Inr amount \<Rightarrow>
       NewUUID (\<lambda>u. Now (\<lambda>now.
       case transfer_New now (NewTransferID u) (c_IdempotencyKey cmd) srcID dstID amount of
         Inl e \<Rightarrow> Return (zero_result, Some (wrap ''create transfer'' e))
       | Inr t \<Rightarrow> persist U t)))))))"

section \<open>The answer in the cache\<close>

lemma result_names: "ascii ''transfer_id''" "ascii ''state''" "ascii ''cached''"
  by (simp_all add: ascii_def)

lemma result_keys:
  "\<not> key_matches ''transfer_id'' ''state''" "\<not> key_matches ''transfer_id'' ''cached''"
  "\<not> key_matches ''state'' ''transfer_id''" "\<not> key_matches ''state'' ''cached''"
  "\<not> key_matches ''cached'' ''transfer_id''" "\<not> key_matches ''cached'' ''state''"
  by (rule ascii_not_matches; simp add: result_names)+

lemma decode_result: "Unmarshal_result (JSON (result_json r)) = Inr r"
  by (cases r) (simp add: Unmarshal_result_def result_json_def Unmarshal_object_def result_tags_def
      fields_fit_def result_keys)

section \<open>What the handler asks of the infrastructure\<close>

lemma persist_calls:
  assumes "P C_NewUUID" and "P C_Now" and "P (C_Transfers_Save t)" and "\<And>e. P (C_Events_Append e)"
    and "\<And>s ev. P (C_Outbox_Write s (evt_payload U ev))" and "\<And>k v ttl. P (C_Idempotency_SetIfAbsent k v ttl)"
  shows "all_calls P (persist U t)"
  unfolding persist_def cacheResult_def Let_def using assms
  by (auto intro!: all_calls_intros simp: all_calls_map split: option.split)

lemma Handle_calls:
  assumes "P C_NewUUID" and "P C_Now" and "\<And>k. P (C_Idempotency_Get k)"
    and "\<And>a. P (C_Accounts_FindByID a)"
    and "\<And>t. t_State t = StatePending \<Longrightarrow> t_Version t = 1 \<Longrightarrow> transfer_wf t \<Longrightarrow> \<not> t_DebitPosted t \<Longrightarrow>
      \<not> t_CreditPosted t \<Longrightarrow> P (C_Transfers_Save t)"
    and "\<And>e. P (C_Events_Append e)" and "\<And>s ev. P (C_Outbox_Write s (evt_payload U ev))"
    and "\<And>k v ttl. P (C_Idempotency_SetIfAbsent k v ttl)"
  shows "all_calls P (Handle U cmd)"
proof -
  have persist: "all_calls P (persist U t)"
    if "transfer_New now i key src dst amount = Inr t" for now i key src dst amount t
    using transfer_New_fields [OF that] assms by (auto intro!: persist_calls)
  have "all_calls P (checkIdempotency key)" for key
    unfolding checkIdempotency_def using assms
    by (auto intro!: all_calls_intros split: sum.split option.split)
  moreover have "all_calls P (validateAccounts U src dst)" for src dst
    unfolding validateAccounts_def using assms
    by (auto intro!: all_calls_intros split: sum.split option.split)
  ultimately show ?thesis
    unfolding Handle_def using assms persist
    by (auto intro!: all_calls_bind all_calls_intros split: sum.split option.split)
qed

lemma Handle_balanced: "all_calls balanced_call (Handle U cmd)"
  by (rule Handle_calls) simp_all

lemma Handle_new_only: "all_calls (call_tracks {}) (Handle U cmd)"
  by (rule Handle_calls) simp_all

lemma Handle_tracks: "tracks (Handle U cmd) K"
  using Handle_new_only by (rule new_only_tracks)

section \<open>A command for the examples\<close>

definition demo_cmd :: "string \<Rightarrow> CreateTransferCmd" where
  "demo_cmd key = \<lparr>c_IdempotencyKey = key, c_SourceAccountID = AccountID_String decimal_uuid (AccountID 10),
     c_DestAccountID = AccountID_String decimal_uuid (AccountID 11), c_Amount = 250, c_Currency = ''IDR''\<rparr>"

section \<open>A known key\<close>

text \<open>A key that is in the cache is answered from it, whatever the body is.\<close>

lemma replay_run:
  assumes "ext_redis_GET E (prefixed (c_IdempotencyKey cmd)) (ext w) = (Inr (JSON (result_json r)), s)"
  shows "run U E (Handle U cmd) w = ((r\<lparr>cr_Cached := True\<rparr>, None), w\<lparr>ext := s\<rparr>)"
  using assms
  by (simp add: Handle_def checkIdempotency_def run_bind Idempotency_Get_def on_ext_def
      IdempotencyStore_Get_def decode_result)

text \<open>Saving under a key that is already taken changes nothing and is always answered with an error, so the
  handler never comes to the statements behind it.\<close>

fun tries_key :: "string \<Rightarrow> call \<Rightarrow> bool" where
  "tries_key key (C_Transfers_Save t) = (t_IdempotencyKey t = key)"
| "tries_key key c = (c = C_Now \<or> c = C_NewUUID \<or> (\<exists>a. c = C_Accounts_FindByID a) \<or>
     (\<exists>k. c = C_Idempotency_Get k))"

fun save_refused :: "call \<Rightarrow> reply \<Rightarrow> bool" where
  "save_refused (C_Transfers_Save t) r = (r_err r \<noteq> None)"
| "save_refused c r = True"

lemma insert_taken:
  "t_IdempotencyKey t \<in> tr_idempotency_key ` set (transfers d) \<Longrightarrow> \<exists>e. insert_transfer t d = Inl e"
  by (auto simp: insert_transfer_def split: option.split)

lemma Save_taken:
  assumes "t_IdempotencyKey t \<in> tr_idempotency_key ` set (transfers (db w))"
  shows "fst (TransferRepo_Save t w) \<noteq> None" and "db (snd (TransferRepo_Save t w)) = db w"
  using insert_taken [OF assms] sql_exec_Inr [of "insert_transfer t" w] sql_exec_db [of "insert_transfer t" w]
  by (auto simp: TransferRepo_Save_def as_error_def split_def Let_def split: sum.splits)

interpretation taken_key: reply_invariant U E
  "\<lambda>w. db w = d \<and> key \<in> tr_idempotency_key ` set (transfers d)" "tries_key key" save_refused
  for U E d key
proof
  fix w :: "'a world" and c
  assume I: "db w = d \<and> key \<in> tr_idempotency_key ` set (transfers d)" and ok: "tries_key key c"
  from I ok show "db (snd (perform U E c w)) = d \<and> key \<in> tr_idempotency_key ` set (transfers d)"
    by (cases c) (auto simp: Save_taken(2))
  from I ok show "save_refused c (fst (perform U E c w))"
    by (cases c) (auto simp: Save_taken(1))
qed

lemma guarded_tries:
  "(\<And>t. guarded Q (tries_key key) (kt t)) \<Longrightarrow> guarded Q (tries_key key) (Now kt)"
  "(\<And>u. guarded Q (tries_key key) (ku u)) \<Longrightarrow> guarded Q (tries_key key) (NewUUID ku)"
  "(\<And>x. guarded Q (tries_key key) (ka x)) \<Longrightarrow> guarded Q (tries_key key) (Accounts_FindByID a ka)"
  "(\<And>x. guarded Q (tries_key key) (kg x)) \<Longrightarrow> guarded Q (tries_key key) (Idempotency_Get k kg)"
  by (simp_all add: port_defs)

lemma Handle_tries: "guarded save_refused (tries_key (c_IdempotencyKey cmd)) (Handle U cmd)"
proof -
  let ?g = "guarded save_refused (tries_key (c_IdempotencyKey cmd))"
  have persist: "?g (persist U t)" if "transfer_New now i (c_IdempotencyKey cmd) src dst amount = Inr t"
    for now i src dst amount t
    using transfer_New_fields(3) [OF that] by (auto simp: persist_def Transfers_Save_def)
  have check: "?g (checkIdempotency k)" for k
    unfolding checkIdempotency_def by (auto intro!: guarded_tries split: sum.split option.split)
  have valid: "guarded save_refused (tries_key (c_IdempotencyKey cmd)) (validateAccounts U src dst)" for src dst
    unfolding validateAccounts_def by (auto intro!: guarded_tries split: sum.split option.split)
  show ?thesis
    unfolding Handle_def using persist
    by (auto intro!: guarded_bind [OF check] guarded_bind [OF valid] guarded_tries split: sum.split option.split)
qed

text \<open>Any number of requests one after another.\<close>

definition handle_all :: "uuid_lib \<Rightarrow> 's services \<Rightarrow> CreateTransferCmd list \<Rightarrow> 's world \<Rightarrow> 's world" where
  "handle_all U E cmds w = foldl (\<lambda>w cmd. snd (run U E (Handle U cmd) w)) w cmds"

lemma taken_key_run:
  assumes "c_IdempotencyKey cmd \<in> tr_idempotency_key ` set (transfers (db w))"
  shows "db (snd (run U E (Handle U cmd) w)) = db w"
  using taken_key.guarded_run [OF Handle_tries, where d = "db w" and w = w] assms by simp

lemma taken_key_all:
  assumes "key \<in> tr_idempotency_key ` set (transfers (db w))" and "\<forall>cmd \<in> set cmds. c_IdempotencyKey cmd = key"
  shows "db (handle_all U E cmds w) = db w"
  using assms by (induction cmds arbitrary: w) (simp_all add: handle_all_def taken_key_run)

text \<open>
  (C21) A key is used for at most one transfer even when the cache has lost it: while a transfer with
  the key is stored, no request with that key writes anything to the database, under any faults and
  any behaviour of the cache.
\<close>

theorem handle_taken_key:
  assumes "c_IdempotencyKey cmd \<in> tr_idempotency_key ` set (transfers (db w))"
  shows "db (snd (run U E (Handle U cmd) w)) = db w"
  using assms by (rule taken_key_run)

theorem handle_taken_key_witness:
  "db (snd (run decimal_uuid demo_E (Handle decimal_uuid (demo_cmd ''k''))
     (demo_world [demo_row 20 ''k'' 300] []))) = demo_db [demo_row 20 ''k'' 300]"
  using handle_taken_key [of "demo_cmd ''k''" "demo_world [demo_row 20 ''k'' 300] []" decimal_uuid
      demo_E]
  by (simp add: demo_cmd_def demo_db_def)

section \<open>A new key\<close>

text \<open>A command the handler accepts: both identities parse, both accounts are active and differ, the
  amount is positive, the currency fits its column, the key is there and not taken.\<close>

definition acceptable :: "uuid_lib \<Rightarrow> CreateTransferCmd \<Rightarrow> AccountID \<Rightarrow> AccountID \<Rightarrow> database \<Rightarrow> bool" where
  "acceptable U cmd src dst d \<longleftrightarrow>
     ParseAccountID U (c_SourceAccountID cmd) = Inr src \<and>
     ParseAccountID U (c_DestAccountID cmd) = Inr dst \<and> src \<noteq> dst \<and>
     status_at d src = Some StatusActive \<and> status_at d dst = Some StatusActive \<and>
     0 < sint (c_Amount cmd) \<and> nchars (c_Currency cmd) = 3 \<and>
     c_IdempotencyKey cmd \<noteq> [] \<and> c_IdempotencyKey cmd \<notin> tr_idempotency_key ` set (transfers d)"

definition cache_miss :: "'s services \<Rightarrow> string \<Rightarrow> 's world \<Rightarrow> 's \<Rightarrow> bool" where
  "cache_miss E key w s \<longleftrightarrow>
     ext_redis_GET E (prefixed key) (ext w) = (Inl (Sentinel (LibErr goredis_Nil)), s)"

lemma find_account_run:
  assumes "uuid_ok U" and "faults w = []" and "status_at (db w) a = Some s"
  shows "run U E (Accounts_FindByID a k) w = run U E (k (Inr (account_at (db w) a))) w"
proof -
  obtain r where r: "find (\<lambda>r. ac_id r = acc_uuid a) (accounts (db w)) = Some r"
    using assms(3) by (auto simp: status_at_def)
  then have "ac_id r = acc_uuid a" by (auto dest: find_SomeD)
  with assms r show ?thesis
    by (simp add: Accounts_FindByID_def AccountRepo_FindByID_def sql_exec_nofault
        select_account_def scanAccount_def ParseAccountID_def account_at_def)
qed

text \<open>The new transfer, as \<open>transfer.New\<close> builds it.\<close>

definition new_transfer :: "CreateTransferCmd \<Rightarrow> AccountID \<Rightarrow> AccountID \<Rightarrow> uuid \<Rightarrow> time \<Rightarrow> Transfer" where
  "new_transfer cmd src dst u now =
     \<lparr>t_ID = TransferID u, t_IdempotencyKey = c_IdempotencyKey cmd,
      t_SourceAccountID = src, t_DestAccountID = dst,
      t_Amount = \<lparr>m_Amount = c_Amount cmd, m_Currency = c_Currency cmd\<rparr>, t_State = StatePending,
      t_ExternalRef = [], t_FailureReason = [], t_DebitPosted = False, t_CreditPosted = False,
      t_CreatedAt = now, t_UpdatedAt = now, t_Version = 1\<rparr>"

lemma Handle_to_persist:
  assumes ok: "uuid_ok U" "faults w = []" and acc: "acceptable U cmd src dst (db w)"
    and miss: "cache_miss E (c_IdempotencyKey cmd) w s"
  shows "run U E (Handle U cmd) w =
    run U E (persist U (new_transfer cmd src dst (rand w (drawn w)) (clock w (ticks w))))
      (w\<lparr>ext := s, drawn := Suc (drawn w), ticks := Suc (ticks w)\<rparr>)"
proof -
  let ?w = "w\<lparr>ext := s\<rparr>"
  have st: "status_at (db ?w) src = Some StatusActive" "status_at (db ?w) dst = Some StatusActive"
    using acc by (simp_all add: acceptable_def)
  have "run U E (checkIdempotency (c_IdempotencyKey cmd)) w = ((zero_result, False, None), ?w)"
    using miss
    by (simp add: checkIdempotency_def Idempotency_Get_def on_ext_def IdempotencyStore_Get_def
        cache_miss_def)
  moreover have "run U E (validateAccounts U src dst) ?w = (None, ?w)"
    using ok account_at_status [OF st(1)] account_at_status [OF st(2)]
    by (simp add: validateAccounts_def find_account_run [OF ok(1) _ st(1)]
        find_account_run [OF ok(1) _ st(2)] CanTransact_def)
  moreover have "transfer_New now (NewTransferID u) (c_IdempotencyKey cmd) src dst
      \<lparr>m_Amount = c_Amount cmd, m_Currency = c_Currency cmd\<rparr> = Inr (new_transfer cmd src dst u now)" for u now
    using acc
    by (auto simp: acceptable_def transfer_New_def money_Validate_def money_IsZero_iff NewTransferID_def
        new_transfer_def nchars_def)
  ultimately show ?thesis
    using acc
    by (simp add: Handle_def run_bind acceptable_def money_New_def NewUUID_def Now_def draw_uuid_def
        read_clock_def)
qed

lemma handle_creates_run:
  assumes st: "steady U 2 w" and acc: "acceptable U cmd src dst (db w)"
    and miss: "cache_miss E (c_IdempotencyKey cmd) w s"
    and t: "t = new_transfer cmd src dst (rand w (drawn w)) (clock w (ticks w))"
    and result: "result = \<lparr>cr_TransferID = TransferID_String U (t_ID t), cr_State = ''PENDING'', cr_Cached = False\<rparr>"
    and set: "ext_redis_SETNX E (prefixed (c_IdempotencyKey cmd)) (JSON (result_json result)) idempotencyTTL s = (Inr b, s')"
  shows "\<exists>w' e m j ev. run U E (Handle U cmd) w = ((result, None), w') \<and> ext w' = s' \<and>
    transfers (db w') = transfers (db w) @ [row_of t] \<and>
    transfer_events (db w') = transfer_events (db w) @ [e] \<and> er_transfer_id e = tr_uuid (t_ID t) \<and>
    er_event_type e = EventTransferRequested \<and>
    outbox (db w') = outbox (db w) @ [m] \<and> ob_subject m = ''transfer.requested'' \<and>
    ob_status m = OutboxPending \<and> ob_payload m = JSON j \<and>
    TransferEvent_json U ev = Inr j \<and> ev_TransferID ev = t_ID t \<and> ev_State ev = StatePending \<and>
    ledger_entries (db w') = ledger_entries (db w) \<and> accounts (db w') = accounts (db w)"
proof -
  have ok: "uuid_ok U" "faults w = []" and fr: "fresh U 2 w" and gc: "good_clock w"
    using st by (simp_all add: steady_def)
  let ?u = "rand w (drawn w)" and ?now = "clock w (ticks w)"
  let ?w0 = "w\<lparr>ext := s, drawn := Suc (drawn w), ticks := Suc (ticks w)\<rparr>"
  let ?ev = "NewEvent U (rand w (Suc (drawn w))) (clock w (Suc (ticks w))) t EventTransferRequested"
  obtain ts where ts: "time_MarshalJSON (clock w (Suc (ticks w))) = Inr ts"
    using gc by (auto simp: good_clock_def)
  have cur: "char3 (c_Currency cmd) = Some (c_Currency cmd)"
    using acc by (simp add: acceptable_def char3_def)
  have new: "?u \<notin> tr_id ` set (transfers (db w))"
    "TransferID_String U (NewTransferID (rand w (Suc (drawn w)))) \<notin> er_id ` set (transfer_events (db w))"
    using fr by (simp_all add: fresh_def TransferID_String_def NewTransferID_def)
  have ins: "insert_transfer t (db ?w0) = Inr ((), (db w)\<lparr>transfers := transfers (db w) @ [row_of t]\<rparr>)"
    using acc new(1) cur
    by (auto simp: insert_transfer_def t new_transfer_def acceptable_def int32_range_def row_of_def
        dest: status_at_has)
  obtain j where j: "TransferEvent_json U ?ev = Inr j"
    using ts by (simp add: TransferEvent_json_def NewEvent_def)
  have tid: "tr_id (row_of t) = tr_uuid (t_ID t)" and tcur: "m_Currency (t_Amount t) = c_Currency cmd"
    and tkey: "t_IdempotencyKey t = c_IdempotencyKey cmd" and tst: "t_State t = StatePending"
    by (simp_all add: row_of_def transfer_row_of_def t new_transfer_def)
  have start: "run U E (Handle U cmd) w = run U E (persist U t) ?w0"
    unfolding t by (rule Handle_to_persist [OF ok acc miss])
  show ?thesis
    unfolding start using ok ins j cur new(2) set tid
    by (fastforce simp: persist_def port_defs TransferRepo_Save_def sql_exec_nofault as_error_def
        draw_uuid_def read_clock_def EventStore_Append_def plain_error_def insert_event_def tcur
        OutboxWriter_Write_def insert_outbox_def evt_payload_def cacheResult_def on_ext_def tkey tst
        IdempotencyStore_SetIfAbsent_def result NewEvent_def Let_def)
qed

lemma demo_acceptable:
  "acceptable decimal_uuid (demo_cmd ''n'') (AccountID 10) (AccountID 11) (demo_db [])"
  by (simp add: acceptable_def demo_cmd_def decimal_uuid_ok nchars_def demo_db_def status_at_def demo_account_def)

lemma demo_miss: "cache_miss (demo_services answer f) key (demo_world rows fs) []"
  by (simp add: cache_miss_def demo_services_def)

lemma demo_set: "ext_redis_SETNX (demo_services answer f) key v ttl [] = (Inr True, [(key, v)])"
  by (simp add: demo_services_def)

lemma demo_none_ok: "demo_rows_ok []"
  by (simp add: demo_rows_ok_def)

text \<open>
  (C20) An acceptable request under a new key stores exactly one row more, a PENDING transfer with the
  requested accounts and amount, appends one event and one outbox message for it, leaves the ledger
  alone, answers with the new identity, and hands that answer to the cache.
\<close>

theorem handle_creates:
  assumes st: "steady U 2 w" and acc: "acceptable U cmd src dst (db w)"
    and miss: "cache_miss E (c_IdempotencyKey cmd) w s"
    and t: "t = new_transfer cmd src dst (rand w (drawn w)) (clock w (ticks w))"
    and result: "result = \<lparr>cr_TransferID = TransferID_String U (t_ID t), cr_State = ''PENDING'', cr_Cached = False\<rparr>"
    and set: "ext_redis_SETNX E (prefixed (c_IdempotencyKey cmd)) (JSON (result_json result)) idempotencyTTL s = (Inr b, s')"
  shows "\<exists>w' e m j ev. run U E (Handle U cmd) w = ((result, None), w') \<and> ext w' = s' \<and>
    transfers (db w') = transfers (db w) @ [row_of t] \<and>
    transfer_events (db w') = transfer_events (db w) @ [e] \<and> er_transfer_id e = tr_uuid (t_ID t) \<and>
    er_event_type e = EventTransferRequested \<and>
    outbox (db w') = outbox (db w) @ [m] \<and> ob_subject m = ''transfer.requested'' \<and>
    ob_status m = OutboxPending \<and> ob_payload m = JSON j \<and>
    TransferEvent_json U ev = Inr j \<and> ev_TransferID ev = t_ID t \<and> ev_State ev = StatePending \<and>
    ledger_entries (db w') = ledger_entries (db w) \<and> accounts (db w') = accounts (db w)"
  using assms by (rule handle_creates_run)

theorem handle_creates_witness:
  "map tr_state (transfers (db (snd (run decimal_uuid demo_E
     (Handle decimal_uuid (demo_cmd ''n'')) (demo_world [] []))))) = [StatePending]"
proof -
  have st: "steady decimal_uuid 2 (demo_world [] [])" by (rule demo_steady [OF demo_none_ok]) simp
  have acc: "acceptable decimal_uuid (demo_cmd ''n'') (AccountID 10) (AccountID 11) (db (demo_world [] []))"
    using demo_acceptable by simp
  from handle_creates [OF st acc demo_miss [where answer = "Inl driver_error" and f = "\<lambda>_. True"] refl refl demo_set] show ?thesis
    by (auto simp: demo_db_def row_of_def transfer_row_of_def new_transfer_def)
qed

section \<open>What Redis keeps\<close>

text \<open>What Redis documents about keys with a time to live, for a reading \<open>now\<close> of its clock and a reading
  \<open>entry\<close> of its keys with their values and deadlines: the clock does not run backwards; \<open>SET NX\<close> that
  reports success has stored the value for the given time at least; a stored key keeps its value and its
  deadline, whatever the program asks of any service, until the deadline is reached; and until then
  \<open>GET\<close> returns the value or fails, but does not report the key as missing.\<close>

definition redis_keeps :: "'s services \<Rightarrow> ('s \<Rightarrow> time) \<Rightarrow> ('s \<Rightarrow> string \<Rightarrow> (bytes \<times> time) option) \<Rightarrow> bool" where
  "redis_keeps E now entry \<longleftrightarrow>
     (\<forall>c s. now s \<le> now (call_ext E c s)) \<and>
     (\<forall>key v ttl s s'. ext_redis_SETNX E key v ttl s = (Inr True, s') \<longrightarrow>
        (\<exists>d. entry s' key = Some (v, d) \<and> now s + ttl \<le> d)) \<and>
     (\<forall>c s key v d. entry s key = Some (v, d) \<longrightarrow> now (call_ext E c s) < d \<longrightarrow>
        entry (call_ext E c s) key = Some (v, d)) \<and>
     (\<forall>key s v d. entry s key = Some (v, d) \<longrightarrow> now (snd (ext_redis_GET E key s)) < d \<longrightarrow>
        fst (ext_redis_GET E key s) = Inr v \<or>
        (\<exists>e. fst (ext_redis_GET E key s) = Inl e \<and> \<not> errors_Is e (LibErr goredis_Nil)))"

lemma redis_keepsD:
  assumes "redis_keeps E now entry"
  shows "now s \<le> now (call_ext E c s)"
    and "ext_redis_SETNX E key v ttl s = (Inr True, s') \<Longrightarrow> \<exists>d. entry s' key = Some (v, d) \<and> now s + ttl \<le> d"
    and "entry s key = Some (v, d) \<Longrightarrow> now (call_ext E c s) < d \<Longrightarrow> entry (call_ext E c s) key = Some (v, d)"
    and "entry s key = Some (v, d) \<Longrightarrow> now (snd (ext_redis_GET E key s)) < d \<Longrightarrow>
      fst (ext_redis_GET E key s) = Inr v \<or>
      (\<exists>e. fst (ext_redis_GET E key s) = Inl e \<and> \<not> errors_Is e (LibErr goredis_Nil))"
  using assms unfolding redis_keeps_def by blast+

text \<open>A stored answer stays where it is until its deadline, whatever any threads do.\<close>

interpretation kept: world_invariant U E
  "\<lambda>w. redis_keeps E now entry \<and> (now (ext w) < d \<longrightarrow> entry (ext w) key = Some (v, d))" "\<lambda>_. True"
  for U E now entry key v d
proof
  fix w :: "'a world" and c
  assume I: "redis_keeps E now entry \<and> (now (ext w) < d \<longrightarrow> entry (ext w) key = Some (v, d))"
  then have "now (ext w) \<le> now (call_ext E c (ext w))" by (blast intro: redis_keepsD(1))
  with I show "redis_keeps E now entry \<and>
      (now (ext (snd (perform U E c w))) < d \<longrightarrow> entry (ext (snd (perform U E c w))) key = Some (v, d))"
    unfolding perform_ext by (auto intro: redis_keepsD(3))
qed

lemma stored_answer_kept:
  assumes redis: "redis_keeps E now entry" and stored: "entry (ext w) key = Some (v, d)"
    and steps: "pool_steps U E (ps, w) (ps', w')" and time: "now (ext w') < d"
  shows "entry (ext w') key = Some (v, d)"
proof -
  have "list_all (all_calls (\<lambda>_. True)) ps" by (simp add: list_all_iff)
  with kept.pool_steps_keep [OF steps, of now entry d key v] redis stored time show ?thesis by simp
qed

lemma answer_kept:
  assumes redis: "redis_keeps E now entry"
    and set: "ext_redis_SETNX E key v ttl s = (Inr True, s')" and later: "pool_steps U E (ps, w) (ps', w')"
    and w: "ext w = s'" and time: "now (snd (ext_redis_GET E key (ext w'))) < now s + ttl"
    and answered: "\<And>e. fst (ext_redis_GET E key (ext w')) = Inl e \<Longrightarrow> errors_Is e (LibErr goredis_Nil)"
    and prefixed: "key = prefixed k"
  shows "fst (ext_redis_GET E key (ext w')) = Inr v"
proof -
  obtain d where d: "entry (ext w) key = Some (v, d)" "now s + ttl \<le> d"
    using redis_keepsD(2) [OF redis set] w by blast
  have "now (ext w') \<le> now (snd (ext_redis_GET E key (ext w')))"
    using redis_keepsD(1) [OF redis, of "ext w'" "C_Idempotency_Get k"] by (simp add: call_ext_def prefixed)
  then have "entry (ext w') key = Some (v, d)"
    using stored_answer_kept [OF redis d(1) later] time d(2) by simp
  from redis_keepsD(4) [OF redis this] time d(2) answered show ?thesis by auto
qed

section \<open>A transfer that is never announced\<close>

text \<open>
  (C22) Saving the transfer and announcing it are separate statements: when the connection fails after
  the save, the client gets an error and the transfer stays in PENDING with neither an event nor an
  outbox message, so no worker is ever told of it; and no number of retries under the same key, whatever
  they ask for, writes that event or that message or anything else.
\<close>

theorem handle_orphans_transfer:
  assumes st: "steady U 2 (w\<lparr>faults := []\<rparr>)" and fl: "faults w = [NoFault, NoFault, NoFault, NotExecuted]"
    and acc: "acceptable U cmd src dst (db w)"
    and miss: "cache_miss E (c_IdempotencyKey cmd) w s"
    and w': "w' = snd (run U E (Handle U cmd) w)"
    and keys: "\<forall>c \<in> set retries. c_IdempotencyKey c = c_IdempotencyKey cmd"
  shows "snd (fst (run U E (Handle U cmd) w)) \<noteq> None \<and>
    transfers (db w') = transfers (db w) @ [row_of (new_transfer cmd src dst (rand w (drawn w)) (clock w (ticks w)))] \<and>
    transfer_events (db w') = transfer_events (db w) \<and> outbox (db w') = outbox (db w) \<and>
    db (handle_all U E retries w') = db w'"
proof -
  let ?t = "new_transfer cmd src dst (rand w (drawn w)) (clock w (ticks w))"
  let ?w0 = "w\<lparr>ext := s, faults := [NoFault, NotExecuted], drawn := Suc (drawn w), ticks := Suc (ticks w)\<rparr>"
  let ?w1 = "w\<lparr>ext := s\<rparr>"
  have ok: "uuid_ok U" and fr: "fresh U 2 (w\<lparr>faults := []\<rparr>)" using st by (simp_all add: steady_def)
  obtain a b where a: "find (\<lambda>r. ac_id r = acc_uuid src) (accounts (db w)) = Some a" "ac_status a = StatusActive"
    and b: "find (\<lambda>r. ac_id r = acc_uuid dst) (accounts (db w)) = Some b" "ac_status b = StatusActive"
    using acc by (auto simp: acceptable_def status_at_def)
  have "run U E (checkIdempotency (c_IdempotencyKey cmd)) w = ((zero_result, False, None), ?w1)"
    using miss
    by (simp add: checkIdempotency_def Idempotency_Get_def on_ext_def IdempotencyStore_Get_def
        cache_miss_def)
  moreover have "run U E (validateAccounts U src dst) ?w1 = (None, ?w1\<lparr>faults := [NoFault, NotExecuted]\<rparr>)"
    using a b fl ok
    by (simp add: validateAccounts_def Accounts_FindByID_def AccountRepo_FindByID_def sql_exec_next
        select_account_def scanAccount_def ParseAccountID_def CanTransact_def)
  moreover have "transfer_New now (NewTransferID u) (c_IdempotencyKey cmd) src dst
      \<lparr>m_Amount = c_Amount cmd, m_Currency = c_Currency cmd\<rparr> = Inr (new_transfer cmd src dst u now)" for u now
    using acc
    by (auto simp: acceptable_def transfer_New_def money_Validate_def money_IsZero_iff NewTransferID_def
        new_transfer_def nchars_def)
  ultimately have start: "run U E (Handle U cmd) w = run U E (persist U ?t) ?w0"
    using acc
    by (simp add: Handle_def run_bind acceptable_def money_New_def NewUUID_def Now_def draw_uuid_def
        read_clock_def)
  have cur: "char3 (c_Currency cmd) = Some (c_Currency cmd)"
    using acc by (simp add: acceptable_def char3_def)
  have new: "rand w (drawn w) \<notin> tr_id ` set (transfers (db w))" using fr by (simp add: fresh_def)
  have ins: "insert_transfer ?t (db w) = Inr ((), (db w)\<lparr>transfers := transfers (db w) @ [row_of ?t]\<rparr>)"
    using acc new cur
    by (auto simp: insert_transfer_def new_transfer_def acceptable_def int32_range_def row_of_def
        dest: status_at_has)
  have saved: "snd (fst (run U E (Handle U cmd) w)) \<noteq> None \<and> db w' = (db w)\<lparr>transfers := transfers (db w) @ [row_of ?t]\<rparr>"
    unfolding w' start using ins
    by (simp add: persist_def port_defs TransferRepo_Save_def sql_exec_next as_error_def draw_uuid_def
        read_clock_def EventStore_Append_def sql_exec_refused plain_error_def Let_def)
  then have "c_IdempotencyKey cmd \<in> tr_idempotency_key ` set (transfers (db w'))"
    by (simp add: row_of_def transfer_row_of_def new_transfer_def)
  with saved show ?thesis using taken_key_all [OF _ keys, of w' U E] by simp
qed

theorem handle_orphans_transfer_witness:
  "outbox (db (handle_all decimal_uuid demo_E [demo_cmd ''n'', demo_cmd ''n'', demo_cmd ''n'']
     (demo_world [] [NoFault, NoFault, NoFault, NotExecuted]))) = [] \<and>
   length (transfers (db (handle_all decimal_uuid demo_E [demo_cmd ''n'', demo_cmd ''n'', demo_cmd ''n'']
     (demo_world [] [NoFault, NoFault, NoFault, NotExecuted])))) = 1"
proof -
  let ?w = "demo_world [] [NoFault, NoFault, NoFault, NotExecuted]" and ?c = "demo_cmd ''n''"
  have st: "steady decimal_uuid 2 (?w\<lparr>faults := []\<rparr>)" using demo_steady [OF demo_none_ok, of 2 "[]"] by simp
  have fl: "faults ?w = [NoFault, NoFault, NoFault, NotExecuted]" by simp
  have acc: "acceptable decimal_uuid ?c (AccountID 10) (AccountID 11) (db ?w)"
    using demo_acceptable by simp
  have keys: "\<forall>c \<in> set [?c, ?c]. c_IdempotencyKey c = c_IdempotencyKey ?c" by simp
  have first: "handle_all decimal_uuid demo_E [?c, ?c, ?c] ?w =
      handle_all decimal_uuid demo_E [?c, ?c] (snd (run decimal_uuid demo_E (Handle decimal_uuid ?c) ?w))"
    by (simp add: handle_all_def)
  from handle_orphans_transfer [OF st fl acc demo_miss [where answer = "Inl driver_error" and f = "\<lambda>_. True"] refl keys]
  show ?thesis unfolding first by (simp add: demo_db_def)
qed

end
