(* ===== verification/Outbox_Relay.thy ===== *)
theory Outbox_Relay
  imports Create_Transfer
begin

text \<open>
  Command \<open>cmd/outbox-relay\<close>: one poll of the outbox. Each pending row is published and, after the
  broker's acknowledgement, marked; a failure of either skips to the next row. Log lines, with the
  counter they report, are left out, and so is the ticker around the poll.
\<close>

section \<open>Definitions\<close>

primrec relay_rows :: "outboxRow list \<Rightarrow> go_error option prog" where
  "relay_rows [] = Return None"
| "relay_rows (row # pending) =
     Publish (o_Subject row) (o_Payload row) (\<lambda>err.
       case err of
         Some e \<Rightarrow> relay_rows pending
       | None \<Rightarrow> Outbox_MarkPublished (o_ID row) (\<lambda>err. relay_rows pending))"

definition relay :: "nat \<Rightarrow> go_error option prog" where
  "relay batchSize =
     Outbox_Pending batchSize (\<lambda>rows.
       case rows of
         Inl err \<Rightarrow> Return (Some err)
       | Inr pending \<Rightarrow> if pending = [] then Return None else relay_rows pending)"

text \<open>The batch size \<open>run\<close> passes.\<close>

definition relay_batchSize :: nat where
  "relay_batchSize = 100"

section \<open>The calls of a run\<close>

primrec trace :: "uuid_lib \<Rightarrow> 's services \<Rightarrow> 'r prog \<Rightarrow> 's world \<Rightarrow> (call \<times> reply) list" where
  "trace U E (Return x) w = []"
| "trace U E (Call c k) w =
     (let (r, w') = perform U E c w in (c, r) # trace U E (k r) w')"

definition acked :: "uuid_lib \<Rightarrow> 's services \<Rightarrow> 'r prog \<Rightarrow> 's world \<Rightarrow> string \<Rightarrow> bytes \<Rightarrow> bool" where
  "acked U E p w subject payload \<longleftrightarrow> (C_Publish subject payload, R_Err None) \<in> set (trace U E p w)"

lemma relay_rows_calls:
  assumes "\<And>s p. P (C_Publish s p)" and "\<And>i. P (C_Outbox_MarkPublished i)"
  shows "all_calls P (relay_rows rows)"
  using assms by (induction rows) (auto intro!: all_calls_intros split: option.split)

lemma relay_calls:
  assumes "\<And>n. P (C_Outbox_Pending n)" and "\<And>s p. P (C_Publish s p)"
    and "\<And>i. P (C_Outbox_MarkPublished i)"
  shows "all_calls P (relay n)"
  unfolding relay_def using assms
  by (auto intro!: all_calls_intros relay_rows_calls split: sum.split)

lemma relay_balanced: "all_calls balanced_call (relay n)"
  by (rule relay_calls) simp_all

lemma relay_tracks: "tracks (relay n) K"
  by (rule leaves_transfers_tracks) (rule relay_calls; simp)

section \<open>Marking\<close>

lemma relay_mark_db:
  "db (snd (relay_mark now i w)) = db w \<or> db (snd (relay_mark now i w)) = mark_published now i (db w)"
  using sql_exec_db [of "\<lambda>d. Inr ((), mark_published now i d)" w]
  by (auto simp: relay_mark_def split_def Let_def)

lemma mark_step_db:
  "db (snd (perform U E (C_Outbox_MarkPublished i) w)) = db w \<or>
   (\<exists>now. db (snd (perform U E (C_Outbox_MarkPublished i) w)) = mark_published now i (db w))"
  using relay_mark_db [of "fst (read_clock w)" i "snd (read_clock w)"]
  by (auto simp: split_def Let_def)

text \<open>What identifies a row of the outbox and what it carries; marking leaves it.\<close>

definition outbox_key :: "outbox_table_row \<Rightarrow> int \<times> string \<times> bytes" where
  "outbox_key r = (ob_id r, ob_subject r, ob_payload r)"

lemma mark_published_key [simp]:
  "map outbox_key (outbox (mark_published now i d)) = map outbox_key (outbox d)"
  by (simp add: mark_published_def outbox_key_def)

lemma mark_published_status:
  "r' \<in> set (outbox (mark_published now i d)) \<Longrightarrow> ob_status r' = OutboxPublished \<Longrightarrow>
     ob_id r' = i \<or> r' \<in> set (outbox d)"
  by (auto simp: mark_published_def split: if_splits)

lemma relay_rows_acked:
  "r' \<in> set (outbox (db (snd (run U E (relay_rows rows) w)))) \<Longrightarrow> ob_status r' = OutboxPublished \<Longrightarrow>
     r' \<in> set (outbox (db w)) \<or>
     (\<exists>row \<in> set rows. o_ID row = ob_id r' \<and> acked U E (relay_rows rows) w (o_Subject row) (o_Payload row))"
proof (induction rows arbitrary: w)
  case Nil
  then show ?case by simp
next
  case (Cons row rows)
  obtain rep w1 where p: "perform U E (C_Publish (o_Subject row) (o_Payload row)) w = (rep, w1)" by fastforce
  have db1: "db w1 = db w" using arg_cong [OF p, of "\<lambda>x. db (snd x)"] by simp
  show ?case
  proof (cases "r_err rep")
    case (Some e)
    then have "run U E (relay_rows (row # rows)) w = run U E (relay_rows rows) w1"
      and "acked U E (relay_rows rows) w1 s b \<Longrightarrow> acked U E (relay_rows (row # rows)) w s b" for s b
      using p by (simp_all add: Publish_def acked_def)
    with Cons.IH [of w1] Cons.prems db1 show ?thesis by auto
  next
    case None
    obtain rep2 w2 where m: "perform U E (C_Outbox_MarkPublished (o_ID row)) w1 = (rep2, w2)" by fastforce
    have rep: "rep = R_Err None" using p None by (auto simp: split_def apfst_def map_prod_def)
    have eq: "run U E (relay_rows (row # rows)) w = run U E (relay_rows rows) w2"
      and tl: "acked U E (relay_rows rows) w2 s b \<Longrightarrow> acked U E (relay_rows (row # rows)) w s b"
      and hd: "acked U E (relay_rows (row # rows)) w (o_Subject row) (o_Payload row)" for s b
      using p None m rep by (simp_all add: Publish_def Outbox_MarkPublished_def acked_def)
    have db2: "db w2 = db w \<or> (\<exists>now. db w2 = mark_published now (o_ID row) (db w))"
      using mark_step_db [of U E "o_ID row" w1] m db1 by auto
    from Cons.IH [of w2] Cons.prems eq consider "r' \<in> set (outbox (db w2))"
      | "\<exists>x \<in> set rows. o_ID x = ob_id r' \<and> acked U E (relay_rows rows) w2 (o_Subject x) (o_Payload x)"
      by auto
    then show ?thesis
    proof cases
      case 1
      with db2 Cons.prems(2) hd mark_published_status show ?thesis by fastforce
    next
      case 2
      with tl show ?thesis by auto
    qed
  qed
qed

lemma pending_rows_row:
  "row \<in> set (pending_rows n d) \<Longrightarrow>
     \<exists>r \<in> set (outbox d). o_ID row = ob_id r \<and> o_Subject row = ob_subject r \<and> o_Payload row = ob_payload r \<and>
       ob_status r = OutboxPending"
  by (auto simp: pending_rows_def dest!: in_set_takeD)

lemma relay_query:
  assumes "perform U E (C_Outbox_Pending n) w = (rep, w1)"
  shows "db w1 = db w" and "r_outbox rep = Inr rows \<Longrightarrow> rows = pending_rows n (db w)"
proof -
  show "db w1 = db w" using arg_cong [OF assms, of "\<lambda>x. db (snd x)"] by simp
  assume "r_outbox rep = Inr rows"
  then show "rows = pending_rows n (db w)"
    using assms sql_exec_Inr [of "\<lambda>d. Inr (pending_rows n d, d)" w rows]
    by (auto simp: relay_pending_def split_def Let_def map_sum_def split: sum.splits)
qed

text \<open>A world with one pending message, for the examples.\<close>

definition demo_message :: outbox_table_row where
  "demo_message = \<lparr>ob_id = 1, ob_subject = ''transfer.debited'', ob_payload = NotJSON [],
     ob_status = OutboxPending, ob_created_at = 0, ob_published_at = None\<rparr>"

definition demo_outbox_world :: "demo_cache world" where
  "demo_outbox_world =
     (demo_world [] [])\<lparr>db := (demo_db [])\<lparr>outbox := [demo_message], outbox_seq := 2\<rparr>\<rparr>"

lemma demo_outbox_world_facts:
  "db_wf (db demo_outbox_world)" "faults demo_outbox_world = []" "outbox (db demo_outbox_world) = [demo_message]"
  "ext demo_outbox_world = []"
  using demo_wf [of "[]"]
  by (simp_all add: demo_outbox_world_def demo_message_def db_wf_def demo_rows_ok_def has_account_def)

lemma demo_publish: "ext_js_Publish (demo_services answer f) s p c =
    (if f s then None else Some (Errorf ''nats: no response from stream'' None), c)"
  by (simp add: demo_services_def)

section \<open>Properties\<close>

text \<open>
  (C23) At least once: under any faults, a poll turns a row of the outbox to PUBLISHED only after the
  broker has acknowledged, in that poll, a publication of that row's subject and payload.
\<close>

theorem relay_marks_after_ack:
  assumes wf: "db_wf (db w)" and r: "r \<in> set (outbox (db w))" "ob_status r = OutboxPending"
    and r': "r' \<in> set (outbox (db (snd (run U E (relay n) w))))" "ob_status r' = OutboxPublished"
    and id: "ob_id r' = ob_id r"
  shows "acked U E (relay n) w (ob_subject r) (ob_payload r)"
proof -
  have inj: "x = y" if "x \<in> set (outbox (db w))" "y \<in> set (outbox (db w))" "ob_id x = ob_id y" for x y
    using wf that
    by (auto simp: db_wf_def strict_sorted_iff distinct_map dest: inj_onD)
  have not_old: "r' \<notin> set (outbox (db w))" using inj [of r' r] r r' id by auto
  obtain rep w1 where q: "perform U E (C_Outbox_Pending n) w = (rep, w1)" by fastforce
  note db1 = relay_query(1) [OF q]
  show ?thesis
  proof (cases "r_outbox rep")
    case (Inl e)
    then have "db (snd (run U E (relay n) w)) = db w1"
      using q by (simp add: relay_def Outbox_Pending_def)
    with r' not_old db1 show ?thesis by simp
  next
    case (Inr rows)
    have eq: "run U E (relay n) w = run U E (relay_rows rows) w1"
      and tl: "acked U E (relay_rows rows) w1 s b \<Longrightarrow> acked U E (relay n) w s b" for s b
      using q Inr by (cases "rows = []"; simp add: relay_def Outbox_Pending_def acked_def)+
    have "r' \<in> set (outbox (db (snd (run U E (relay_rows rows) w1))))" using r'(1) eq by simp
    from relay_rows_acked [OF this r'(2)] not_old db1 obtain row
      where row: "row \<in> set rows" "o_ID row = ob_id r'"
        and ack: "acked U E (relay_rows rows) w1 (o_Subject row) (o_Payload row)" by auto
    obtain x where "x \<in> set (outbox (db w))" "o_ID row = ob_id x" "o_Subject row = ob_subject x"
      "o_Payload row = ob_payload x"
      using pending_rows_row [of row n "db w"] row(1) relay_query(2) [OF q Inr] by auto
    with inj [of x r] r row(2) id tl [OF ack] show ?thesis by simp
  qed
qed

theorem relay_marks_after_ack_witness:
  "acked decimal_uuid demo_E (relay 100) demo_outbox_world ''transfer.debited'' (NotJSON [])"
proof -
  let ?r = "demo_message\<lparr>ob_status := OutboxPublished, ob_published_at := Some (pg_time 0)\<rparr>"
  have "outbox (db (snd (run decimal_uuid demo_E (relay 100) demo_outbox_world))) = [?r]"
    by (simp add: relay_def Outbox_Pending_def relay_pending_def sql_exec_nofault demo_outbox_world_facts
        pending_rows_def demo_message_def Publish_def on_ext_def Publisher_Publish_def demo_publish
        Outbox_MarkPublished_def read_clock_def relay_mark_def mark_published_def plain_error_def)
      (simp add: demo_outbox_world_def demo_message_def)
  with relay_marks_after_ack [OF demo_outbox_world_facts(1), of demo_message ?r decimal_uuid demo_E 100] show ?thesis
    by (simp add: demo_outbox_world_facts demo_message_def)
qed

text \<open>Rows the broker refuses stay: publishing changes nothing in the database.\<close>

definition js_rejects :: "'s services \<Rightarrow> string \<Rightarrow> bool" where
  "js_rejects E subject \<longleftrightarrow> (\<forall>payload s. fst (ext_js_Publish E subject payload s) \<noteq> None)"

lemma relay_rows_rejected:
  "\<forall>row \<in> set rows. js_rejects E (o_Subject row) \<Longrightarrow> db (snd (run U E (relay_rows rows) w)) = db w"
proof (induction rows arbitrary: w)
  case Nil
  then show ?case by simp
next
  case (Cons row rows)
  have "fst (ext_js_Publish E (o_Subject row) (o_Payload row) (ext w)) \<noteq> None"
    using Cons.prems by (simp add: js_rejects_def)
  then obtain e s where "ext_js_Publish E (o_Subject row) (o_Payload row) (ext w) = (Some e, s)"
    by (metis option.exhaust prod.collapse)
  then have "run U E (relay_rows (row # rows)) w = run U E (relay_rows rows) (w\<lparr>ext := s\<rparr>)"
    by (simp add: Publish_def on_ext_def Publisher_Publish_def)
  with Cons show ?case by simp
qed

text \<open>When the broker refuses the subjects of a whole batch, the poll changes nothing.\<close>

lemma relay_rejected:
  assumes "\<forall>row \<in> set (pending_rows n (db w)). js_rejects E (o_Subject row)"
  shows "db (snd (run U E (relay n) w)) = db w"
proof -
  obtain rep w1 where q: "perform U E (C_Outbox_Pending n) w = (rep, w1)" by fastforce
  note db1 = relay_query [OF q]
  show ?thesis
  proof (cases "r_outbox rep")
    case (Inl e)
    then show ?thesis using q db1(1) by (simp add: relay_def Outbox_Pending_def)
  next
    case (Inr rows)
    then show ?thesis
      using q db1 assms relay_rows_rejected [of rows E U w1]
      by (simp add: relay_def Outbox_Pending_def)
  qed
qed

section \<open>What is pending\<close>

definition pending_outbox :: "database \<Rightarrow> outbox_table_row list" where
  "pending_outbox d = filter (\<lambda>r. ob_status r = OutboxPending) (outbox d)"

lemma filter_marked:
  "filter (\<lambda>r. ob_status r = OutboxPending)
     (map (\<lambda>r. if ob_id r = i then r\<lparr>ob_status := OutboxPublished, ob_published_at := x\<rparr> else r) rs) =
   filter (\<lambda>r. ob_id r \<noteq> i) (filter (\<lambda>r. ob_status r = OutboxPending) rs)"
  by (induction rs) auto

lemma pending_mark:
  "pending_outbox (mark_published now i d) = filter (\<lambda>r. ob_id r \<noteq> i) (pending_outbox d)"
  by (simp add: pending_outbox_def mark_published_def filter_marked del: filter_filter)

lemma pending_rows_take:
  assumes "db_wf d"
  shows "pending_rows n d = map (\<lambda>r. \<lparr>o_ID = ob_id r, o_Subject = ob_subject r, o_Payload = ob_payload r\<rparr>)
    (take n (pending_outbox d))"
proof -
  have "sorted (map ob_id (pending_outbox d))"
    using assms unfolding db_wf_def pending_outbox_def
    by (auto simp: sorted_wrt_map intro!: sorted_wrt_filter elim: sorted_wrt_mono_rel [rotated])
  then have "sort_key ob_id (pending_outbox d) = pending_outbox d" by (rule sort_key_id_if_sorted)
  then show ?thesis by (simp add: pending_rows_def pending_outbox_def)
qed

lemma pending_ids: "db_wf d \<Longrightarrow> distinct (map ob_id (pending_outbox d))"
  by (auto simp: db_wf_def pending_outbox_def strict_sorted_iff distinct_map inj_on_def)

primrec polls :: "uuid_lib \<Rightarrow> 's services \<Rightarrow> nat \<Rightarrow> nat \<Rightarrow> 's world \<Rightarrow> 's world" where
  "polls U E n 0 w = w"
| "polls U E n (Suc k) w = polls U E n k (snd (run U E (relay n) w))"

end
