(* ===== verification/Circuit_Breaker.thy ===== *)
theory Circuit_Breaker
  imports Prelude
begin

text \<open>
  Package \<open>internal/infrastructure/circuitbreaker\<close>. \<open>Call\<close> holds the mutex twice, before and after
  the protected function: \<open>cb_enter\<close> and \<open>cb_exit\<close> are these two critical sections, \<open>Call\<close> their
  composition around the function. Calls of several goroutines interleave at that granularity;
  \<open>breaker_step\<close> is that step relation, with the calls in flight counted. The breaker reads the
  clock once in each section; \<open>now\<close> is what it reads.
\<close>

section \<open>Definitions\<close>

datatype breaker_state = StateClosed | StateOpen | StateHalfOpen

primrec breaker_state_String :: "breaker_state \<Rightarrow> string" where
  "breaker_state_String StateClosed = ''CLOSED''"
| "breaker_state_String StateOpen = ''OPEN''"
| "breaker_state_String StateHalfOpen = ''HALF_OPEN''"

record CircuitBreaker =
  cb_state :: breaker_state
  cb_consecutiveFails :: int64
  cb_maxFailures :: int64
  cb_resetTimeout :: time
  cb_openedAt :: time

text \<open>\<open>openedAt\<close> starts as the zero time, which is read only in the open state.\<close>

definition breaker_New :: "int64 \<Rightarrow> time \<Rightarrow> CircuitBreaker" where
  "breaker_New maxFailures resetTimeout =
     \<lparr>cb_state = StateClosed, cb_consecutiveFails = 0, cb_maxFailures = maxFailures,
      cb_resetTimeout = resetTimeout, cb_openedAt = 0\<rparr>"

definition cb_enter :: "time \<Rightarrow> CircuitBreaker \<Rightarrow> go_error option \<times> CircuitBreaker" where
  "cb_enter now cb =
     (case cb_state cb of
        StateOpen \<Rightarrow>
          if now - cb_openedAt cb \<ge> cb_resetTimeout cb
          then (None, cb\<lparr>cb_state := StateHalfOpen\<rparr>)
          else (Some (Sentinel (BreakerErr ErrCircuitOpen)), cb)
      | _ \<Rightarrow> (None, cb))"

definition onFailure :: "time \<Rightarrow> CircuitBreaker \<Rightarrow> CircuitBreaker" where
  "onFailure now cb =
     (let cb = cb\<lparr>cb_consecutiveFails := cb_consecutiveFails cb + 1\<rparr> in
      if cb_state cb = StateHalfOpen \<or> sint (cb_consecutiveFails cb) \<ge> sint (cb_maxFailures cb)
      then cb\<lparr>cb_state := StateOpen, cb_openedAt := now, cb_consecutiveFails := 0\<rparr>
      else cb)"

definition onSuccess :: "CircuitBreaker \<Rightarrow> CircuitBreaker" where
  "onSuccess cb = cb\<lparr>cb_state := StateClosed, cb_consecutiveFails := 0\<rparr>"

definition cb_exit :: "time \<Rightarrow> go_error option \<Rightarrow> CircuitBreaker \<Rightarrow> CircuitBreaker" where
  "cb_exit now err cb = (if err \<noteq> None then onFailure now cb else onSuccess cb)"

text \<open>One call on its own: \<open>now\<close> when it enters, \<open>now'\<close> when the function has returned.\<close>

definition cb_Call ::
  "time \<Rightarrow> time \<Rightarrow> ('s \<Rightarrow> go_error option \<times> 's) \<Rightarrow> CircuitBreaker \<times> 's \<Rightarrow>
   go_error option \<times> CircuitBreaker \<times> 's" where
  "cb_Call now now' fn = (\<lambda>(cb, s).
     case cb_enter now cb of
       (Some e, cb) \<Rightarrow> (Some e, cb, s)
     | (None, cb) \<Rightarrow> (let (err, s) = fn s in (err, cb_exit now' err cb, s)))"

definition CurrentState :: "CircuitBreaker \<Rightarrow> breaker_state" where
  "CurrentState cb = cb_state cb"

section \<open>Interleaved calls\<close>

text \<open>\<open>n\<close> is the number of calls that have entered and not yet left.\<close>

inductive breaker_step :: "CircuitBreaker \<times> nat \<Rightarrow> CircuitBreaker \<times> nat \<Rightarrow> bool" where
  step_admit: "cb_enter now cb = (None, cb') \<Longrightarrow> breaker_step (cb, n) (cb', Suc n)"
| step_reject: "cb_enter now cb = (Some e, cb') \<Longrightarrow> breaker_step (cb, n) (cb', n)"
| step_leave: "breaker_step (cb, Suc n) (cb_exit now err cb, n)"

inductive_cases breaker_stepE: "breaker_step s s'"

text \<open>The counter stays below the limit, so that incrementing it never wraps around.\<close>

definition breaker_inv :: "CircuitBreaker \<Rightarrow> bool" where
  "breaker_inv cb \<longleftrightarrow>
     0 \<le> sint (cb_consecutiveFails cb) \<and> sint (cb_consecutiveFails cb) < sint (cb_maxFailures cb)"

section \<open>Lemmas\<close>

lemma fails_Suc:
  "breaker_inv cb \<Longrightarrow> sint (cb_consecutiveFails cb + 1) = sint (cb_consecutiveFails cb) + 1"
  using sint64_add [of "cb_consecutiveFails cb" 1] sint64_bounds [of "cb_maxFailures cb"]
  by (simp add: breaker_inv_def)

lemma cb_enter_inv: "breaker_inv cb \<Longrightarrow> breaker_inv (snd (cb_enter now cb))"
  by (auto simp: cb_enter_def breaker_inv_def split: breaker_state.split)

lemma cb_exit_inv: "breaker_inv cb \<Longrightarrow> breaker_inv (cb_exit now err cb)"
  using fails_Suc [of cb]
  by (auto simp: cb_exit_def onFailure_def onSuccess_def breaker_inv_def Let_def)

lemma cb_enter_keeps: "cb_enter now cb = (x, cb') \<Longrightarrow> breaker_inv cb \<Longrightarrow> breaker_inv cb'"
  using cb_enter_inv [of cb now] by simp

lemma breaker_step_inv: "breaker_step s s' \<Longrightarrow> breaker_inv (fst s) \<Longrightarrow> breaker_inv (fst s')"
  by (induction rule: breaker_step.induct) (auto simp: cb_exit_inv intro: cb_enter_keeps)

lemma breaker_config_step:
  "breaker_step s s' \<Longrightarrow> cb_maxFailures (fst s') = cb_maxFailures (fst s) \<and>
     cb_resetTimeout (fst s') = cb_resetTimeout (fst s)"
  by (induction rule: breaker_step.induct)
    (auto simp: cb_enter_def cb_exit_def onFailure_def onSuccess_def Let_def
      split: breaker_state.splits if_splits)

lemma enter_closed [simp]: "cb_state cb = StateClosed \<Longrightarrow> cb_enter now cb = (None, cb)"
  by (simp add: cb_enter_def)

lemma enter_half_open [simp]: "cb_state cb = StateHalfOpen \<Longrightarrow> cb_enter now cb = (None, cb)"
  by (simp add: cb_enter_def)

lemma breaker_New_inv: "0 < sint maxFailures \<Longrightarrow> breaker_inv (breaker_New maxFailures timeout)"
  by (simp add: breaker_inv_def breaker_New_def)

lemma breaker_steps_inv:
  "breaker_step\<^sup>*\<^sup>* s s' \<Longrightarrow> breaker_inv (fst s) \<Longrightarrow> breaker_inv (fst s')"
  by (induction rule: rtranclp_induct) (auto intro: breaker_step_inv)

subsection \<open>Calls one after another\<close>

text \<open>A call whose function has the result \<open>err\<close>: when it entered, when it returned, the result.\<close>

type_synonym timed_call = "time \<times> time \<times> go_error option"

fun calls :: "timed_call list \<Rightarrow> CircuitBreaker \<Rightarrow> CircuitBreaker" where
  "calls [] cb = cb"
| "calls ((now, now', err) # cs) cb =
     calls cs (fst (snd (cb_Call now now' (\<lambda>s. (err, s)) (cb, ()))))"

lemma calls_append: "calls (xs @ ys) cb = calls ys (calls xs cb)"
  by (induction xs cb rule: calls.induct) auto

text \<open>How many of the last calls failed without a success between them.\<close>

definition fail_run :: "timed_call list \<Rightarrow> nat" where
  "fail_run cs = length (takeWhile (\<lambda>(now, now', err). err \<noteq> None) (rev cs))"

lemma fail_run_simps [simp]:
  "fail_run [] = 0" "fail_run (cs @ [(now, now', None)]) = 0"
  "fail_run (cs @ [(now, now', Some e)]) = Suc (fail_run cs)"
  by (simp_all add: fail_run_def)

text \<open>One call through a closed breaker.\<close>

lemma closed_call:
  assumes "cb_state cb = StateClosed" and "breaker_inv cb"
  shows "calls [(now, now', None)] cb = cb\<lparr>cb_consecutiveFails := 0\<rparr>"
    and "sint (cb_consecutiveFails cb) + 1 < sint (cb_maxFailures cb) \<Longrightarrow>
      calls [(now, now', Some e)] cb = cb\<lparr>cb_consecutiveFails := cb_consecutiveFails cb + 1\<rparr>"
    and "sint (cb_consecutiveFails cb) + 1 = sint (cb_maxFailures cb) \<Longrightarrow>
      calls [(now, now', Some e)] cb = cb\<lparr>cb_state := StateOpen, cb_openedAt := now', cb_consecutiveFails := 0\<rparr>"
  using assms fails_Suc [of cb]
  by (auto simp: cb_Call_def cb_exit_def onFailure_def onSuccess_def Let_def)

text \<open>As long as no run of failures has reached the limit, the breaker is closed and counts the run.\<close>

lemma below_limit:
  assumes "0 < sint n" and "\<And>k. k \<le> length cs \<Longrightarrow> int (fail_run (take k cs)) < sint n"
  shows "cb_state (calls cs (breaker_New n timeout)) = StateClosed \<and>
    sint (cb_consecutiveFails (calls cs (breaker_New n timeout))) = int (fail_run cs) \<and>
    cb_maxFailures (calls cs (breaker_New n timeout)) = n"
  using assms(2)
proof (induction cs rule: rev_induct)
  case Nil
  show ?case by (simp add: breaker_New_def)
next
  case (snoc c cs)
  let ?cb = "calls cs (breaker_New n timeout)"
  obtain now now' err where c: "c = (now, now', err)" by (cases c)
  have "int (fail_run (take k cs)) < sint n" if "k \<le> length cs" for k
    using snoc.prems [of k] that by simp
  note IH = snoc.IH [OF this]
  have inv: "breaker_inv ?cb" using IH snoc.prems [of "length cs"] by (simp add: breaker_inv_def)
  have run: "int (fail_run (cs @ [c])) < sint n" using snoc.prems [of "Suc (length cs)"] by simp
  show ?case
  proof (cases err)
    case None
    with IH closed_call(1) [OF _ inv] show ?thesis by (simp add: c calls_append del: calls.simps)
  next
    case (Some e)
    with IH run closed_call(2) [OF _ inv] fails_Suc [OF inv] show ?thesis
      by (simp add: c calls_append del: calls.simps)
  qed
qed

text \<open>An open breaker, for the examples.\<close>

definition demo_open :: CircuitBreaker where
  "demo_open = \<lparr>cb_state = StateOpen, cb_consecutiveFails = 0, cb_maxFailures = 2, cb_resetTimeout = 10,
     cb_openedAt = 100\<rparr>"

lemma demo_open_state: "CurrentState demo_open = StateOpen"
  by (simp add: CurrentState_def demo_open_def)

section \<open>Properties\<close>

text \<open>
  (C28) The breaker opens at the configured number of consecutive failures and not before: over any
  sequence of successful and failing calls, one after another, in which no run of consecutive failures has reached the limit,
  the breaker is closed, its counter is the length of the current run, and the next call is let through;
  that call opens the breaker, from the time it returns, exactly when it completes a run of that length.
\<close>

theorem breaker_opens_at_limit:
  assumes "0 < sint maxFailures"
    and "\<And>k. k \<le> length cs \<Longrightarrow> int (fail_run (take k cs)) < sint maxFailures"
    and "cb = calls cs (breaker_New maxFailures timeout)"
    and "cb' = calls (cs @ [(t, t', err)]) (breaker_New maxFailures timeout)"
  shows "CurrentState cb = StateClosed \<and> sint (cb_consecutiveFails cb) = int (fail_run cs) \<and>
    fst (cb_Call t t' fn (cb, s)) = fst (fn s) \<and>
    (CurrentState cb' = StateOpen \<longleftrightarrow> int (fail_run (cs @ [(t, t', err)])) = sint maxFailures) \<and>
    (CurrentState cb' \<noteq> StateOpen \<longrightarrow> CurrentState cb' = StateClosed) \<and>
    (CurrentState cb' = StateOpen \<longrightarrow> cb_openedAt cb' = t')"
proof -
  have cb: "cb_state cb = StateClosed" "sint (cb_consecutiveFails cb) = int (fail_run cs)"
      "cb_maxFailures cb = maxFailures"
    using below_limit [OF assms(1,2), where timeout = timeout] assms(3) by simp_all
  have inv: "breaker_inv cb" using cb assms(2) [of "length cs"] by (simp add: breaker_inv_def)
  have cb': "cb' = calls [(t, t', err)] cb" by (simp add: assms(3,4) calls_append del: calls.simps)
  have "fst (cb_Call t t' fn (cb, s)) = fst (fn s)"
    using cb by (simp add: cb_Call_def split_def Let_def)
  moreover have "int (fail_run cs) + 1 < sint maxFailures \<or> int (fail_run cs) + 1 = sint maxFailures"
    using assms(2) [of "length cs"] by auto
  ultimately show ?thesis
    using cb closed_call [OF cb(1) inv, of t t'] assms(1)
    by (cases err) (auto simp: cb' CurrentState_def simp del: calls.simps)
qed

theorem breaker_opens_at_limit_witness:
  "CurrentState (calls [(1, 2, Some (Errorf ''down'' None)), (3, 4, None), (5, 6, Some (Errorf ''down'' None))]
     (breaker_New 2 10)) = StateClosed \<and>
   CurrentState (calls [(1, 2, Some (Errorf ''down'' None)), (3, 4, None), (5, 6, Some (Errorf ''down'' None)),
     (7, 8, Some (Errorf ''down'' None))] (breaker_New 2 10)) = StateOpen"
proof -
  let ?cs = "[(1, 2, Some (Errorf ''down'' None)), (3, 4, None), (5, 6, Some (Errorf ''down'' None))] :: timed_call list"
  have "int (fail_run (take k ?cs)) < sint (2 :: int64)" if "k \<le> length ?cs" for k
  proof -
    from that have "k = 0 \<or> k = 1 \<or> k = 2 \<or> k = 3" by auto
    then show ?thesis by (auto simp: fail_run_def numeral_eq_Suc)
  qed
  from breaker_opens_at_limit [OF _ this refl refl, where timeout = 10 and t = 7 and t' = 8
      and err = "Some (Errorf ''down'' None)" and fn = "\<lambda>s :: unit. (None, s)" and s = "()"]
  show ?thesis by (simp add: fail_run_def del: calls.simps)
qed

text \<open>
  An open breaker before its timeout refuses the call with \<open>ErrCircuitOpen\<close> without running the
  function; after the timeout a call is a probe, whose success closes the breaker and whose failure
  opens it anew from the time it returned.
\<close>

lemma breaker_open_call:
  assumes "CurrentState cb = StateOpen"
  shows "cb_Call now now' fn (cb, s) =
    (if now - cb_openedAt cb < cb_resetTimeout cb
     then (Some (Sentinel (BreakerErr ErrCircuitOpen)), cb, s)
     else case fn s of
       (None, s') \<Rightarrow> (None, cb\<lparr>cb_state := StateClosed, cb_consecutiveFails := 0\<rparr>, s')
     | (Some e, s') \<Rightarrow>
         (Some e, cb\<lparr>cb_state := StateOpen, cb_openedAt := now', cb_consecutiveFails := 0\<rparr>, s'))"
  using assms
  by (auto simp: CurrentState_def cb_Call_def cb_enter_def cb_exit_def onFailure_def onSuccess_def
      Let_def split: prod.split option.split)

text \<open>
  (C29) Under every interleaving of calls the failure counter of a breaker with a positive limit
  stays between zero and the limit, so it never overflows, and the configuration never changes.
\<close>

theorem breaker_counter_bounded:
  assumes "0 < sint maxFailures" and "breaker_step\<^sup>*\<^sup>* (breaker_New maxFailures timeout, 0) (cb, n)"
  shows "0 \<le> sint (cb_consecutiveFails cb) \<and> sint (cb_consecutiveFails cb) < sint maxFailures"
proof -
  have "breaker_inv cb" using breaker_steps_inv [OF assms(2)] breaker_New_inv [OF assms(1)] by simp
  moreover have "cb_maxFailures cb = maxFailures"
    using assms(2)
    by (induction "(cb, n)" arbitrary: cb n rule: rtranclp_induct)
      (auto simp: breaker_New_def dest: breaker_config_step)
  ultimately show ?thesis by (simp add: breaker_inv_def)
qed

theorem breaker_counter_bounded_witness:
  "sint (cb_consecutiveFails (cb_exit 2 (Some (Errorf ''down'' None)) (breaker_New 5 30))) < 5"
proof -
  let ?cb = "breaker_New 5 30" and ?cb' = "cb_exit 2 (Some (Errorf ''down'' None)) (breaker_New 5 30)"
  have "breaker_step (?cb, 0) (?cb, Suc 0)"
    by (rule step_admit [of 1]) (simp add: cb_enter_def breaker_New_def)
  moreover have "breaker_step (?cb, Suc 0) (?cb', 0)" by (rule step_leave)
  ultimately have "breaker_step\<^sup>*\<^sup>* (?cb, 0) (?cb', 0)" by (meson r_into_rtranclp rtranclp_trans)
  from breaker_counter_bounded [OF _ this] show ?thesis by simp
qed

text \<open>
  (C30) "Allows one probe call" does not hold between goroutines: once the timeout has passed, any
  number of calls enter the half-open breaker before the first of them returns.
\<close>

theorem half_open_admits_all:
  assumes "CurrentState cb = StateOpen" and "cb_resetTimeout cb \<le> now - cb_openedAt cb"
  shows "(breaker_step ^^ Suc n) (cb, 0) (cb\<lparr>cb_state := StateHalfOpen\<rparr>, Suc n)"
proof (induction n)
  case 0
  have "cb_enter now cb = (None, cb\<lparr>cb_state := StateHalfOpen\<rparr>)"
    using assms by (simp add: CurrentState_def cb_enter_def)
  then show ?case by (auto intro: step_admit)
next
  case (Suc n)
  have "breaker_step (cb\<lparr>cb_state := StateHalfOpen\<rparr>, Suc n) (cb\<lparr>cb_state := StateHalfOpen\<rparr>, Suc (Suc n))"
    by (rule step_admit [of now]) simp
  with Suc show ?case by (metis relpowp_Suc_I)
qed

theorem half_open_admits_all_witness:
  "(breaker_step ^^ 3) (demo_open, 0) (demo_open\<lparr>cb_state := StateHalfOpen\<rparr>, 3)"
  using half_open_admits_all [OF demo_open_state, of 110 2] by (simp add: demo_open_def numeral_eq_Suc)

text \<open>
  "Blocks calls for resetTimeout" does not hold either: the late success of a call that had
  entered before the breaker opened closes it at once.
\<close>

lemma late_success_closes:
  assumes "CurrentState cb = StateOpen"
  shows "\<exists>cb'. breaker_step (cb, Suc n) (cb', n) \<and> CurrentState cb' = StateClosed"
  using step_leave [of cb n now None for now]
  by (force simp: CurrentState_def cb_exit_def onSuccess_def)

end
