(* ===== verification/Bank_Mock.thy ===== *)
theory Bank_Mock
  imports Ports Circuit_Breaker
begin

text \<open>
  Package \<open>internal/infrastructure/bankmock\<close>: the bank gateway the worker is wired to, and its wrapper
  in a circuit breaker. A context is the time after which it is done, if ever, with the error it then
  reports. A call that waits on a context that is never done does not return: \<open>None\<close>.
\<close>

section \<open>bank\_gateway.go\<close>

datatype FailureMode = ModeSuccess | ModeTimeout | ModePermanentErr | ModeFlaky

record Gateway =
  g_mode :: FailureMode
  g_flakyLimit :: "32 word"
  g_callCount :: "32 word"
  g_latency :: time

definition gateway_New :: "FailureMode \<Rightarrow> Gateway" where
  "gateway_New mode =
     \<lparr>g_mode = mode, g_flakyLimit = 0, g_callCount = 0, g_latency = 50 * 1000000\<rparr>"

definition gateway_NewFlaky :: "int64 \<Rightarrow> Gateway" where
  "gateway_NewFlaky failFirstN =
     \<lparr>g_mode = ModeFlaky, g_flakyLimit = ucast failFirstN, g_callCount = 0, g_latency = 50 * 1000000\<rparr>"

datatype context' = Background | DoneAfter time go_error

text \<open>The \<open>select\<close> between the latency and the context: the error of a context that is done first.
  When both are ready together Go picks either; \<open>tie\<close> is that choice.\<close>

fun done_first :: "bool \<Rightarrow> time \<Rightarrow> context' \<Rightarrow> go_error option" where
  "done_first tie latency Background = None"
| "done_first tie latency (DoneAfter d err) =
     (if d < latency \<or> d = latency \<and> tie then Some err else None)"

definition bank_ref :: "uuid_lib \<Rightarrow> BankCallRequest \<Rightarrow> BankCallResult" where
  "bank_ref U req = \<lparr>b_ExternalRef = ''BANK-REF-'' @ TransferID_String U (b_TransferID req)\<rparr>"

definition Gateway_InitiateTransfer ::
  "uuid_lib \<Rightarrow> bool \<Rightarrow> context' \<Rightarrow> BankCallRequest \<Rightarrow> Gateway \<Rightarrow>
   (go_error + BankCallResult) option \<times> Gateway" where
  "Gateway_InitiateTransfer U tie ctx req g =
     (let n = g_callCount g + 1; g = g\<lparr>g_callCount := n\<rparr> in
      case done_first tie (g_latency g) ctx of
        Some err \<Rightarrow> (Some (Inl err), g)
      | None \<Rightarrow>
        (case g_mode g of
           ModeSuccess \<Rightarrow> (Some (Inr (bank_ref U req)), g)
         | ModeTimeout \<Rightarrow>
             (case ctx of
                Background \<Rightarrow> (None, g)
              | DoneAfter d err \<Rightarrow> (Some (Inl (wrap ''bank timeout'' err)), g))
         | ModePermanentErr \<Rightarrow> (Some (Inl (Errorf ''bank returned HTTP 500'' None)), g)
         | ModeFlaky \<Rightarrow>
             if sint n \<le> sint (g_flakyLimit g)
             then (Some (Inl (Errorf (''bank flaky error (call '' @ show_int (sint n) @ ''/'' @
                                      show_int (sint (g_flakyLimit g)) @ '')'') None)), g)
             else (Some (Inr (bank_ref U req)), g)))"

definition CallCount :: "Gateway \<Rightarrow> int" where
  "CallCount g = sint (g_callCount g)"

section \<open>circuit\_bank.go\<close>

text \<open>
  \<open>CircuitBreakerGateway.InitiateTransfer\<close> over any inner gateway \<open>inner\<close>: the closure passed to
  \<open>Call\<close> stores the inner result and returns its error. A call of the inner gateway that does not
  return does not leave the breaker.
\<close>

definition CircuitBreakerGateway_InitiateTransfer ::
  "time \<Rightarrow> time \<Rightarrow> (BankCallRequest \<Rightarrow> 'g \<Rightarrow> (go_error + BankCallResult) option \<times> 'g) \<Rightarrow>
   BankCallRequest \<Rightarrow> CircuitBreaker \<times> 'g \<Rightarrow>
   (go_error + BankCallResult) option \<times> CircuitBreaker \<times> 'g" where
  "CircuitBreakerGateway_InitiateTransfer now now' inner req = (\<lambda>(cb, g).
     case cb_enter now cb of
       (Some e, cb) \<Rightarrow> (Some (Inl (wrap ''bank gateway'' e)), cb, g)
     | (None, cb) \<Rightarrow>
       (case inner req g of
          (None, g) \<Rightarrow> (None, cb, g)
        | (Some (Inl callErr), g) \<Rightarrow>
            (Some (Inl (wrap ''bank gateway'' callErr)), cb_exit now' (Some callErr) cb, g)
        | (Some (Inr result), g) \<Rightarrow> (Some (Inr result), cb_exit now' None cb, g)))"

definition CircuitBreakerGateway_State :: "CircuitBreaker \<Rightarrow> string" where
  "CircuitBreakerGateway_State cb = breaker_state_String (CurrentState cb)"

section \<open>Properties\<close>

text \<open>
  The wrapper is the circuit breaker's \<open>Call\<close> around the closure of the source, which stores
  the inner result and hands its error to the breaker; an error of either comes back wrapped, a
  success unchanged.
\<close>

lemma circuit_gateway_is_Call:
  assumes "\<And>g. fst (inner req g) \<noteq> None"
  shows "CircuitBreakerGateway_InitiateTransfer now now' inner req (cb, g) =
    (case cb_Call now now'
       (\<lambda>(g, result). case inner req g of
          (Some (Inr res), g') \<Rightarrow> (None, g', res)
        | (Some (Inl callErr), g') \<Rightarrow> (Some callErr, g', result)
        | (None, g') \<Rightarrow> (None, g', result)) (cb, g, zero) of
       (Some err, cb', g', result) \<Rightarrow> (Some (Inl (wrap ''bank gateway'' err)), cb', g')
     | (None, cb', g', result) \<Rightarrow> (Some (Inr result), cb', g'))"
  using assms [of g]
  by (auto simp: CircuitBreakerGateway_InitiateTransfer_def cb_Call_def Let_def
      split: prod.splits option.splits sum.splits)

text \<open>
  A flaky gateway refuses exactly its first calls: while its counter has not wrapped around, the
  call after \<open>n\<close> earlier ones fails if and only if \<open>n\<close> is below the limit, and the counter goes up by
  one on every outcome, a cancelled context included.
\<close>

lemma flaky_gateway_refuses_first:
  assumes "g_mode g = ModeFlaky" and "sint (g_callCount g) < 2 ^ 31 - 1"
  shows "((\<exists>err. fst (Gateway_InitiateTransfer U tie Background req g) = Some (Inl err)) \<longleftrightarrow>
      CallCount g < sint (g_flakyLimit g)) \<and>
    CallCount (snd (Gateway_InitiateTransfer U tie ctx req g)) = CallCount g + 1"
proof -
  have "- (2 ^ 31) \<le> sint (g_callCount g)" using sint_ge [of "g_callCount g"] by simp
  then have "sint (g_callCount g + 1) = sint (g_callCount g) + 1"
    using assms(2) by (simp add: sint_word_ariths signed_take_bit_int_eq_self)
  then show ?thesis
    using assms(1)
    by (auto simp: Gateway_InitiateTransfer_def CallCount_def Let_def
        split: option.split FailureMode.split)
qed

end
