(* ===== verification/Worker.thy ===== *)
theory Worker
  imports Outbox_Relay Bank_Mock
begin

text \<open>
  Command \<open>cmd/worker\<close> with \<open>internal/infrastructure/nats/consumer.go\<close>: the message handler that
  decodes a transfer identity and runs the saga, the consumer loop around it, the subjects of the
  stream, and the bank gateway the worker is wired to.
\<close>

section \<open>The handler\<close>

definition msg_tags :: "(string \<times> field_type) list" where
  "msg_tags = [(''transfer_id'', FString)]"

definition worker_handler :: "uuid_lib \<Rightarrow> string \<Rightarrow> bytes \<Rightarrow> go_error option prog" where
  "worker_handler U subject data =
     (case Unmarshal_object msg_tags data of
        Inl err \<Rightarrow> Return (Some (wrap ''unmarshal message'' err))
      | Inr kvs \<Rightarrow>
          (case ParseTransferID U (string_field ''transfer_id'' kvs []) of
             Inl err \<Rightarrow> Return (Some (wrap ''parse transfer id'' err))
           | Inr i \<Rightarrow> Execute U i))"

section \<open>consumer.go\<close>

text \<open>The JetStream client is a parameter: the fields of \<open>jetstream\<close> and of \<open>fetch\<close> are what its methods
  return.\<close>

record jetstream =
  js_CreateOrUpdateStream :: "string \<Rightarrow> string list \<Rightarrow> go_error option"
  js_CreateOrUpdateConsumer :: "string \<Rightarrow> string \<Rightarrow> go_error option"
  js_Messages :: "go_error option"

type_synonym MessageHandler = "string \<Rightarrow> bytes \<Rightarrow> go_error option prog"

record Consumer =
  cs_js :: jetstream
  cs_stream :: string
  cs_consumer :: string

text \<open>\<open>js\<close> is what \<open>jetstream.New(nc)\<close> returned.\<close>

definition NewConsumer :: "go_error + jetstream \<Rightarrow> string \<Rightarrow> string \<Rightarrow> go_error + Consumer" where
  "NewConsumer js stream consumer =
     (case js of
        Inl err \<Rightarrow> Inl (wrap ''create jetstream context'' err)
      | Inr js \<Rightarrow> Inr \<lparr>cs_js = js, cs_stream = stream, cs_consumer = consumer\<rparr>)"

definition EnsureStream :: "Consumer \<Rightarrow> string list \<Rightarrow> go_error option" where
  "EnsureStream c subjects =
     (case js_CreateOrUpdateStream (cs_js c) (cs_stream c) subjects of
        Some err \<Rightarrow> Some (wrap (''ensure stream '' @ cs_stream c) err)
      | None \<Rightarrow> None)"

record message =
  msg_Subject :: string
  msg_Data :: bytes

datatype disposition = Ack | Nak

text \<open>One turn of the loop: whether the context is done before \<open>Next\<close> is called, what \<open>Next\<close> returns,
  and whether the context is done after it.\<close>

record fetch =
  f_done :: bool
  f_next :: "go_error + message"
  f_ctx_Err :: bool

text \<open>
  The loop of \<open>Subscribe\<close> over the turns it makes. A message is acknowledged when the handler succeeds
  and negatively acknowledged when it fails; the result is what was said to the broker, and whether the
  loop has returned: where the list of turns ends it has not, it waits for the next one.
\<close>

fun consume :: "MessageHandler \<Rightarrow> fetch list \<Rightarrow> ((message \<times> disposition) list \<times> bool) prog" where
  "consume handler [] = Return ([], False)"
| "consume handler (f # rest) =
     (if f_done f then Return ([], True)
      else case f_next f of
        Inl err \<Rightarrow> if f_ctx_Err f then Return ([], True) else consume handler rest
      | Inr msg \<Rightarrow>
          prog_bind (handler (msg_Subject msg) (msg_Data msg)) (\<lambda>err.
            map_prog (apfst (Cons (msg, case err of Some e \<Rightarrow> Nak | None \<Rightarrow> Ack))) (consume handler rest)))"

text \<open>What a function that blocks has come to: nothing yet, or its result.\<close>

type_synonym outcome = "go_error option option"

abbreviation running :: outcome where
  "running \<equiv> None"

definition Subscribe ::
  "Consumer \<Rightarrow> MessageHandler \<Rightarrow> fetch list \<Rightarrow> (outcome \<times> (message \<times> disposition) list) prog" where
  "Subscribe c handler fs =
     (case js_CreateOrUpdateConsumer (cs_js c) (cs_stream c) (cs_consumer c) of
        Some err \<Rightarrow> Return (Some (Some (wrap (''create consumer '' @ cs_consumer c) err)), [])
      | None \<Rightarrow>
          (case js_Messages (cs_js c) of
             Some err \<Rightarrow> Return (Some (Some (wrap ''get messages context'' err)), [])
           | None \<Rightarrow> map_prog (\<lambda>(said, returned). (if returned then Some None else running, said))
               (consume handler fs)))"

text \<open>The subjects \<open>run\<close> passes to \<open>EnsureStream\<close>.\<close>

definition worker_subjects :: "string list" where
  "worker_subjects = [''transfer.requested'', ''transfer.debited'', ''transfer.bank_called'', ''transfer.credited'']"

section \<open>The bank the worker is wired to\<close>

record worker_ext =
  we_breaker :: CircuitBreaker
  we_bank :: Gateway
  we_clock :: "nat \<Rightarrow> time"
  we_reads :: nat

definition worker_ext_New :: "(nat \<Rightarrow> time) \<Rightarrow> worker_ext" where
  "worker_ext_New ts =
     \<lparr>we_breaker = breaker_New 5 (30 * 1000000000), we_bank = gateway_New ModeSuccess,
      we_clock = ts, we_reads = 0\<rparr>"

text \<open>The worker's context is done only at shutdown. In mode \<open>ModeSuccess\<close> the gateway then always
  returns, so the result of the wrapper is there.\<close>

definition worker_bank ::
  "uuid_lib \<Rightarrow> bool \<Rightarrow> BankCallRequest \<Rightarrow> worker_ext \<Rightarrow> (go_error + BankCallResult) \<times> worker_ext" where
  "worker_bank U tie req s =
     (let n = we_reads s;
          (r, cb, g) = CircuitBreakerGateway_InitiateTransfer (we_clock s n) (we_clock s (Suc n))
             (Gateway_InitiateTransfer U tie Background) req (we_breaker s, we_bank s)
      in (the r, s\<lparr>we_breaker := cb, we_bank := g, we_reads := Suc (Suc n)\<rparr>))"

section \<open>Lemmas\<close>

lemma worker_handler_all_calls:
  assumes "\<And>i. all_calls P (Execute U i)"
  shows "all_calls P (worker_handler U subject data)"
  unfolding worker_handler_def using assms by (auto split: sum.split)

lemma worker_handler_tracks: "tracks (worker_handler U subject data) K"
  unfolding worker_handler_def by (auto intro: Execute_tracks split: sum.split)

lemma consume_all_calls:
  assumes "\<And>s d. all_calls P (handler s d)"
  shows "all_calls P (consume handler fs)"
  using assms
  by (induction handler fs rule: consume.induct)
    (auto intro!: all_calls_bind simp: all_calls_map split: sum.split)

lemma Subscribe_all_calls:
  assumes "\<And>s d. all_calls P (handler s d)"
  shows "all_calls P (Subscribe c handler fs)"
  unfolding Subscribe_def using consume_all_calls [OF assms]
  by (auto simp: all_calls_map split: option.split)

lemma consume_tracks:
  assumes "\<And>s d K. tracks (handler s d) K"
  shows "tracks (consume handler fs) K"
  using assms
  by (induction handler fs arbitrary: K rule: consume.induct)
    (auto intro!: tracks_bind split: sum.split)

lemma Subscribe_tracks:
  assumes "\<And>s d K. tracks (handler s d) K"
  shows "tracks (Subscribe c handler fs) K"
  unfolding Subscribe_def using consume_tracks [OF assms] by (auto split: option.split)

lemma message_names:
  "\<not> key_matches ''transfer_id'' ''event_type''" "\<not> key_matches ''transfer_id'' ''state''"
  "\<not> key_matches ''transfer_id'' ''timestamp''" "\<not> key_matches ''transfer_id'' ''EventID''"
  "\<not> key_matches ''transfer_id'' ''TransferID''" "\<not> key_matches ''transfer_id'' ''Type''"
  "\<not> key_matches ''transfer_id'' ''State''" "\<not> key_matches ''transfer_id'' ''Amount''"
  "\<not> key_matches ''transfer_id'' ''OccurredAt''" "\<not> key_matches ''transfer_id'' ''Metadata''"
  by (rule ascii_not_matches; simp add: ascii_def)+

lemma TransferEvent_unseen:
  assumes "TransferEvent_json U ev = Inr (JObj kvs)"
  shows "k \<in> set (map fst kvs) \<Longrightarrow> \<not> key_matches ''transfer_id'' k"
  unfolding TransferEvent_json_keys [OF assms] using message_names by auto

lemma unseen_fit:
  "\<forall>k \<in> set (map fst kvs). \<not> key_matches ''transfer_id'' k \<Longrightarrow> fields_fit msg_tags kvs"
  by (auto simp: fields_fit_def msg_tags_def list_all_iff)

lemma finished_not_streamed:
  "{event_string EventTransferCompleted, event_string EventTransferFailed} \<inter> set worker_subjects = {}"
  by (simp add: worker_subjects_def)

definition worker_ext_ok :: "worker_ext \<Rightarrow> bool" where
  "worker_ext_ok s \<longleftrightarrow> cb_state (we_breaker s) = StateClosed \<and> g_mode (we_bank s) = ModeSuccess"

lemma worker_bank_ok:
  assumes "worker_ext_ok s"
  shows "fst (worker_bank U tie req s) = Inr (bank_ref U req)"
    and "worker_ext_ok (snd (worker_bank U tie req s))"
  using assms
  by (simp_all add: worker_bank_def CircuitBreakerGateway_InitiateTransfer_def
      Gateway_InitiateTransfer_def worker_ext_ok_def cb_enter_def cb_exit_def onSuccess_def Let_def)

text \<open>The answers to a sequence of requests, with the states they leave.\<close>

primrec bank_calls ::
  "uuid_lib \<Rightarrow> bool \<Rightarrow> BankCallRequest list \<Rightarrow> worker_ext \<Rightarrow>
   ((go_error + BankCallResult) \<times> worker_ext) list" where
  "bank_calls U tie [] s = []"
| "bank_calls U tie (req # reqs) s =
     (let a = worker_bank U tie req s in a # bank_calls U tie reqs (snd a))"

lemma bank_calls_ok:
  "worker_ext_ok s \<Longrightarrow> map fst (bank_calls U tie reqs s) = map (\<lambda>req. Inr (bank_ref U req)) reqs"
  by (induction reqs arbitrary: s) (simp_all add: worker_bank_ok Let_def)

section \<open>Properties\<close>

text \<open>
  The messages of the saga drive the saga: the payload that every step writes to the outbox is
  one the worker decodes to the identity of that very transfer, and handling it is one \<open>Execute\<close>.
\<close>

lemma worker_reads_saga_messages:
  assumes "uuid_ok U" and "event_payload U t typ ts = Inr payload"
  shows "worker_handler U subject payload = Execute U (t_ID t)"
  using assms
  by (cases "time_MarshalJSON ts")
    (auto simp: event_payload_def worker_handler_def Unmarshal_object_def msg_tags_def fields_fit_def
      message_names)

text \<open>
  The message of a new transfer is not one of these: \<open>CreateTransferHandler\<close> writes the event with Go's
  field names, in which the worker's \<open>transfer_id\<close> does not occur. As the empty string is no UUID, the
  handler fails before it makes any call.
\<close>

lemma requested_rejected:
  assumes "evt_payload U ev = Some payload" and "uuid_Parse U [] = Inl e"
  shows "\<exists>err. worker_handler U subject payload = Return (Some err)"
proof -
  obtain kvs where j: "TransferEvent_json U ev = Inr (JObj kvs)" and p: "payload = JSON (JObj kvs)"
    using assms(1) TransferEvent_json_obj [of U ev] by (auto simp: evt_payload_def split: sum.splits)
  have unseen: "\<forall>k \<in> set (map fst kvs). \<not> key_matches ''transfer_id'' k"
    using TransferEvent_unseen [OF j] by blast
  then have "string_field ''transfer_id'' kvs [] = []" by (rule string_field_unmatched)
  with unseen_fit [OF unseen] assms(2) p show ?thesis
    by (simp add: worker_handler_def Unmarshal_object_def ParseTransferID_def)
qed

lemma decimal_no_uuid: "uuid_Parse decimal_uuid [] = Inl (Errorf ''invalid UUID'' None)"
  by (simp add: decimal_uuid_def read_nat_def show_nat_ne [symmetric])

text \<open>
  (C27) The stream the worker declares does not carry the events of finished transfers, so a broker
  that refuses subjects outside the stream refuses them; once such rows fill a batch of the relay,
  a poll changes nothing, and no younger message is ever published.
\<close>

theorem finished_events_starve_relay:
  assumes "\<forall>s. s \<notin> set worker_subjects \<longrightarrow> js_rejects E s"
    and "\<forall>row \<in> set (pending_rows relay_batchSize (db w)).
      o_Subject row \<in> {event_string EventTransferCompleted, event_string EventTransferFailed}"
  shows "db (polls U E relay_batchSize k w) = db w"
  using assms(2)
proof (induction k arbitrary: w)
  case 0
  then show ?case by simp
next
  case (Suc k)
  have "\<forall>row \<in> set (pending_rows relay_batchSize (db w)). js_rejects E (o_Subject row)"
    using Suc.prems assms(1) finished_not_streamed by blast
  then have "db (snd (run U E (relay relay_batchSize) w)) = db w" by (rule relay_rejected)
  with Suc show ?case by simp
qed

theorem finished_events_starve_relay_witness:
  "db (polls decimal_uuid (demo_services (Inl driver_error) (\<lambda>s. s \<in> set worker_subjects)) relay_batchSize 5
     (demo_outbox_world\<lparr>db := (db demo_outbox_world)
        \<lparr>outbox := [demo_message\<lparr>ob_subject := ''transfer.completed''\<rparr>]\<rparr>\<rparr>)) =
   (db demo_outbox_world)\<lparr>outbox := [demo_message\<lparr>ob_subject := ''transfer.completed''\<rparr>]\<rparr>"
  using finished_events_starve_relay [of "demo_services (Inl driver_error) (\<lambda>s. s \<in> set worker_subjects)"
      "demo_outbox_world\<lparr>db := (db demo_outbox_world)
        \<lparr>outbox := [demo_message\<lparr>ob_subject := ''transfer.completed''\<rparr>]\<rparr>\<rparr>" decimal_uuid 5]
  by (simp add: js_rejects_def demo_publish pending_rows_def demo_message_def relay_batchSize_def)

text \<open>
  As wired, the bank never refuses: from the start of the worker every sequence of requests finds
  the breaker closed and is answered with a reference that names the transfer.
\<close>

lemma worker_bank_accepts:
  "map fst (bank_calls U tie reqs (worker_ext_New ts)) = map (\<lambda>req. Inr (bank_ref U req)) reqs"
  by (rule bank_calls_ok) (simp add: worker_ext_ok_def worker_ext_New_def breaker_New_def gateway_New_def)

end
