(* ===== verification/Reconciler.thy ===== *)
theory Reconciler
  imports Concurrency "HOL-Library.Multiset"
begin

text \<open>
  Command \<open>cmd/reconciler\<close>: the audit of the double-entry invariant. The Go map from currencies to
  \<open>int64\<close> totals is an association list with distinct keys; the log lines the function writes are its
  result. The sums wrap around, so the audit is exact modulo \<open>2 ^ 64\<close>.
\<close>

section \<open>Definitions\<close>

text \<open>\<open>totals[c] += v\<close>: a missing key reads as zero.\<close>

fun add_total :: "string \<Rightarrow> int64 \<Rightarrow> (string \<times> int64) list \<Rightarrow> (string \<times> int64) list" where
  "add_total c v [] = [(c, v)]"
| "add_total c v ((c', v') # totals) =
     (if c' = c then (c', v' + v) # totals else (c', v') # add_total c v totals)"

definition totals_of :: "LedgerEntry list \<Rightarrow> (string \<times> int64) list" where
  "totals_of entries = foldl (\<lambda>totals e. add_total (m_Currency (e_Amount e)) (SignedAmount e) totals) [] entries"

datatype log_line = Drift string int64 | ReconciliationOK nat

definition reconcile_log :: "LedgerEntry list \<Rightarrow> log_line list" where
  "reconcile_log entries =
     (let drifts = map (\<lambda>(currency, total). Drift currency total)
            (filter (\<lambda>(currency, total). total \<noteq> 0) (totals_of entries))
      in if drifts = [] then [ReconciliationOK (length entries)] else drifts)"

definition reconcile :: "(go_error + log_line list) prog" where
  "reconcile =
     GetAllEntries (\<lambda>entries.
       case entries of
         Inl err \<Rightarrow> Return (Inl (wrap ''load ledger entries'' err))
       | Inr entries \<Rightarrow> Return (Inr (reconcile_log entries)))"

section \<open>The totals\<close>

text \<open>The value under a key, zero when it is missing.\<close>

definition total_at :: "(string \<times> int64) list \<Rightarrow> string \<Rightarrow> int64" where
  "total_at totals c = (case map_of totals c of None \<Rightarrow> 0 | Some v \<Rightarrow> v)"

lemma total_at_Nil [simp]: "total_at [] c = 0"
  by (simp add: total_at_def)

lemma add_total_at [simp]:
  "total_at (add_total c v totals) c' = total_at totals c' + (if c' = c then v else 0)"
  by (induction c v totals rule: add_total.induct) (auto simp: total_at_def)

lemma add_total_keys [simp]: "fst ` set (add_total c v totals) = insert c (fst ` set totals)"
  by (induction c v totals rule: add_total.induct) auto

lemma add_total_distinct: "distinct (map fst totals) \<Longrightarrow> distinct (map fst (add_total c v totals))"
proof (induction c v totals rule: add_total.induct)
  case (2 c v c' v' totals)
  then show ?case using add_total_keys [of c v totals] by auto
qed simp

lemma totals_of_Nil [simp]: "totals_of [] = []"
  by (simp add: totals_of_def)

lemma totals_of_snoc [simp]:
  "totals_of (es @ [e]) = add_total (m_Currency (e_Amount e)) (SignedAmount e) (totals_of es)"
  by (simp add: totals_of_def)

lemma totals_of_distinct: "distinct (map fst (totals_of es))"
  by (induction es rule: rev_induct) (simp_all add: add_total_distinct)

lemma totals_of_at: "total_at (totals_of es) c = word_of_int (entries_total c es)"
  by (induction es rule: rev_induct)
    (simp_all add: entries_total_Cons SignedAmount_of_int flip: wi_hom_add)

lemma totals_of_mem:
  "v \<noteq> 0 \<Longrightarrow> (c, v) \<in> set (totals_of es) \<longleftrightarrow> v = word_of_int (entries_total c es)"
  using map_of_eq_Some_iff [OF totals_of_distinct, of es c v, symmetric] totals_of_at [of es c]
  by (auto simp: total_at_def split: option.splits)

lemma word64_zero_iff: "(word_of_int i :: int64) = 0 \<longleftrightarrow> 2 ^ 64 dvd i"
  by (simp add: word_of_int_eq_0_iff)

lemma reconcile_drift:
  "Drift c v \<in> set (reconcile_log es) \<longleftrightarrow> v \<noteq> 0 \<and> v = word_of_int (entries_total c es)"
  using totals_of_mem [of v c es] by (auto simp: reconcile_log_def Let_def filter_empty_conv)

lemma reconcile_ok:
  "reconcile_log es = [ReconciliationOK (length es)] \<longleftrightarrow> (\<forall>c. 2 ^ 64 dvd entries_total c es)"
proof -
  have "reconcile_log es = [ReconciliationOK (length es)] \<longleftrightarrow> (\<forall>c v. Drift c v \<notin> set (reconcile_log es))"
    by (auto simp: reconcile_log_def Let_def filter_empty_conv split: if_splits)
  also have "\<dots> \<longleftrightarrow> (\<forall>c. (word_of_int (entries_total c es) :: int64) = 0)"
    by (auto simp: reconcile_drift)
  finally show ?thesis by (simp add: word64_zero_iff)
qed

section \<open>The audit of the table\<close>

lemma entries_total_perm: "mset es = mset es' \<Longrightarrow> entries_total c es = entries_total c es'"
proof -
  assume eq: "mset es = mset es'"
  have "entries_total c xs = (\<Sum>e \<in># filter_mset (\<lambda>e. m_Currency (e_Amount e) = c) (mset xs). entry_value e)" for xs
    by (induction xs) (simp_all add: entries_total_Cons)
  with eq show ?thesis by simp
qed

lemma row_entry_total: "entries_total c (map (row_entry U) rows) =
    sum_list (map row_value (filter (\<lambda>r. lr_currency r = c) rows))"
  by (induction rows)
    (auto simp: entries_total_Cons row_entry_def entry_value_def row_value_def,
     (metis (full_types) EntryType.exhaust)+)

lemma all_entries_total:
  "entries_total c (map (row_entry U) (sort_key f (ledger_entries d))) = table_total c d"
proof -
  have "entries_total c (map (row_entry U) (sort_key f (ledger_entries d))) =
      entries_total c (map (row_entry U) (ledger_entries d))"
    by (rule entries_total_perm) simp
  then show ?thesis by (simp add: row_entry_total table_total_def)
qed

lemma reconcile_run:
  assumes "faults w = []"
  shows "run U E reconcile w =
    (Inr (reconcile_log (map (row_entry U) (sort_key lr_created_at (ledger_entries (db w))))), w)"
  using assms by (simp add: reconcile_def GetAllEntries_def LedgerRepo_GetAllEntries_def sql_exec_nofault)

lemma reconcile_balanced: "all_calls balanced_call reconcile"
  unfolding reconcile_def by (auto intro!: all_calls_intros split: sum.split)

lemma reconcile_tracks: "tracks reconcile K"
  by (rule leaves_transfers_tracks)
    (auto simp: reconcile_def intro!: all_calls_intros split: sum.split)

section \<open>Properties\<close>

text \<open>
  (C26) The audit is exact up to wrap-around: drift is reported for a currency with the total of its
  signed amounts, reduced to 64 bits, if and only if that is not zero, and the ledger is reported as
  sound if and only if the exact total of every currency is a multiple of \<open>2 ^ 64\<close>.
\<close>

theorem reconcile_log_exact:
  "(Drift c v \<in> set (reconcile_log es) \<longleftrightarrow> v \<noteq> 0 \<and> v = word_of_int (entries_total c es)) \<and>
   (reconcile_log es = [ReconciliationOK (length es)] \<longleftrightarrow> (\<forall>c. 2 ^ 64 dvd entries_total c es))"
  by (simp add: reconcile_drift reconcile_ok)

end
