(* ===== verification/Observability.thy ===== *)
theory Observability
  imports Prelude
begin

text \<open>
  Package \<open>internal/infrastructure/observability\<close>: the trace identity that a request carries in its
  context, the logger enriched with it, and the collectors registered with Prometheus. Of
  \<open>context.Context\<close> the model has the values, of \<open>slog.Logger\<close> the level and the attributes; what a
  handler prints is output. The Prometheus library is only called: its documented condition for
  registering a collector without a panic is the predicate \<open>registrable\<close>.
\<close>

section \<open>Contexts\<close>

text \<open>Keys of different Go types never compare equal: one constructor for each of the two types named
  \<open>contextKey\<close> in the program.\<close>

datatype context_key = ObservabilityKey string | HttpKey string

type_synonym go_context = "(context_key \<times> string) list"

definition context_WithValue :: "go_context \<Rightarrow> context_key \<Rightarrow> string \<Rightarrow> go_context" where
  "context_WithValue ctx key v = (key, v) # ctx"

definition context_Value :: "go_context \<Rightarrow> context_key \<Rightarrow> string option" where
  "context_Value ctx key = map_of ctx key"

lemma context_Value_With [simp]:
  "context_Value (context_WithValue ctx key v) key' = (if key' = key then Some v else context_Value ctx key')"
  by (simp add: context_Value_def context_WithValue_def)

section \<open>logger.go\<close>

definition traceIDKey :: context_key where
  "traceIDKey = ObservabilityKey ''trace_id''"

definition WithTraceID :: "go_context \<Rightarrow> string \<Rightarrow> go_context" where
  "WithTraceID ctx traceID = context_WithValue ctx traceIDKey traceID"

definition TraceIDFromContext :: "go_context \<Rightarrow> string" where
  "TraceIDFromContext ctx = (case context_Value ctx traceIDKey of Some v \<Rightarrow> v | None \<Rightarrow> [])"

record logger =
  lg_level :: int
  lg_attrs :: "(string \<times> string) list"

text \<open>\<open>slog.LevelInfo\<close> is 0.\<close>

definition NewLogger :: logger where
  "NewLogger = \<lparr>lg_level = 0, lg_attrs = []\<rparr>"

definition logger_With :: "logger \<Rightarrow> string \<Rightarrow> string \<Rightarrow> logger" where
  "logger_With base key v = base\<lparr>lg_attrs := lg_attrs base @ [(key, v)]\<rparr>"

definition FromContext :: "go_context \<Rightarrow> logger \<Rightarrow> logger" where
  "FromContext ctx base =
     (let traceID = TraceIDFromContext ctx in
      if traceID \<noteq> [] then logger_With base ''trace_id'' traceID else base)"

lemma TraceID_roundtrip [simp]: "TraceIDFromContext (WithTraceID ctx traceID) = traceID"
  by (simp add: TraceIDFromContext_def WithTraceID_def)

text \<open>A value under another key hides no trace identity.\<close>

lemma TraceID_other [simp]:
  "key \<noteq> traceIDKey \<Longrightarrow> TraceIDFromContext (context_WithValue ctx key v) = TraceIDFromContext ctx"
  by (simp add: TraceIDFromContext_def)

section \<open>metrics.go\<close>

datatype collector_kind = NewCounterVec | NewHistogramVec | NewGaugeVec | NewGauge | NewCounter

record collector =
  mt_kind :: collector_kind
  mt_Name :: string
  mt_Help :: string
  mt_labels :: "string list"

definition metrics :: "collector list" where
  "metrics =
     [\<lparr>mt_kind = NewCounterVec, mt_Name = ''transfers_total'',
       mt_Help = ''Total number of transfers by state'', mt_labels = [''state'']\<rparr>,
      \<lparr>mt_kind = NewHistogramVec, mt_Name = ''transfer_duration_seconds'',
       mt_Help = ''Time from transfer creation to completion or failure'', mt_labels = [''outcome'']\<rparr>,
      \<lparr>mt_kind = NewCounterVec, mt_Name = ''bank_calls_total'',
       mt_Help = ''Total bank API calls by outcome'', mt_labels = [''outcome'']\<rparr>,
      \<lparr>mt_kind = NewGaugeVec, mt_Name = ''circuit_breaker_state'',
       mt_Help = ''Current circuit breaker state (0=closed, 1=open, 2=half_open)'', mt_labels = [''gateway'']\<rparr>,
      \<lparr>mt_kind = NewGauge, mt_Name = ''outbox_pending_total'',
       mt_Help = ''Number of outbox events pending publication'', mt_labels = []\<rparr>,
      \<lparr>mt_kind = NewCounter, mt_Name = ''ledger_entries_total'',
       mt_Help = ''Total number of ledger entries posted'', mt_labels = []\<rparr>]"

definition name_letter :: "char \<Rightarrow> bool" where
  "name_letter c \<longleftrightarrow>
     (let n = of_char c :: nat in (97 \<le> n \<and> n \<le> 122) \<or> (65 \<le> n \<and> n \<le> 90) \<or> c = CHR ''_'')"

definition name_digit :: "char \<Rightarrow> bool" where
  "name_digit c \<longleftrightarrow> (let n = of_char c :: nat in 48 \<le> n \<and> n \<le> 57)"

text \<open>The Prometheus data model: names of metrics and labels, and labels that do not repeat or begin
  with two underscores.\<close>

definition valid_name :: "string \<Rightarrow> bool" where
  "valid_name s \<longleftrightarrow> s \<noteq> [] \<and> name_letter (hd s) \<and> list_all (\<lambda>c. name_letter c \<or> name_digit c) s"

definition registrable :: "collector list \<Rightarrow> bool" where
  "registrable ms \<longleftrightarrow>
     distinct (map mt_Name ms) \<and>
     list_all (\<lambda>m. valid_name (mt_Name m) \<and> distinct (mt_labels m) \<and>
       list_all (\<lambda>l. valid_name l \<and> take 2 l \<noteq> ''__'') (mt_labels m)) ms"

text \<open>The package initialises without a panic of \<open>promauto\<close>.\<close>

lemma metrics_registrable: "registrable metrics"
  by code_simp

end
