(* ===== verification/Http.thy ===== *)
theory Http
  imports Create_Transfer Observability
begin

text \<open>
  Package \<open>internal/interfaces/http\<close>: the route handlers, the middleware and the router. A
  \<open>ResponseWriter\<close> is the headers set so far; a handler is a program that ends with the response. The
  router library chi and the Prometheus handler are parameters: \<open>chi\<close> matches a request against the
  tables of routes the source registers. \<open>middleware.Recoverer\<close> acts on panics only, which no handler
  raises. The text of a decoding error is abbreviated as in theory \<open>Json\<close>; the body of a request is
  the first JSON value of the stream, beyond which \<open>Decoder.Decode\<close> does not read.
\<close>

section \<open>Requests and responses\<close>

type_synonym headers = "(string \<times> string) list"

record request =
  rq_Method :: string
  rq_Path :: string
  rq_Header :: headers
  rq_Body :: bytes
  rq_ctx :: go_context
  rq_URLParam :: "string \<Rightarrow> string"

record response =
  rs_Header :: headers
  rs_status :: int
  rs_Body :: bytes

text \<open>Names of headers are compared in their canonical form: a capital at the start and after each dash,
  small letters elsewhere.\<close>

fun canonical_from :: "bool \<Rightarrow> string \<Rightarrow> string" where
  "canonical_from start [] = []"
| "canonical_from start (c # cs) =
     (let n = of_char c :: nat in
      if start \<and> 97 \<le> n \<and> n \<le> 122 then char_of (n - 32)
      else if \<not> start \<and> 65 \<le> n \<and> n \<le> 90 then char_of (n + 32) else c) #
     canonical_from (c = CHR ''-'') cs"

definition CanonicalHeaderKey :: "string \<Rightarrow> string" where
  "CanonicalHeaderKey name = canonical_from True name"

definition header_Get :: "headers \<Rightarrow> string \<Rightarrow> string" where
  "header_Get hs name =
     (case find (\<lambda>(n, _). CanonicalHeaderKey n = CanonicalHeaderKey name) hs of None \<Rightarrow> [] | Some (_, v) \<Rightarrow> v)"

definition header_Set :: "string \<Rightarrow> string \<Rightarrow> headers \<Rightarrow> headers" where
  "header_Set name v hs =
     (name, v) # filter (\<lambda>(n, _). CanonicalHeaderKey n \<noteq> CanonicalHeaderKey name) hs"

lemma canonical_names:
  "CanonicalHeaderKey ''X-Request-ID'' = ''X-Request-Id''" "CanonicalHeaderKey ''Content-Type'' = ''Content-Type''"
  "CanonicalHeaderKey ''X-Idempotent-Replayed'' = ''X-Idempotent-Replayed''"
  by code_simp+

type_synonym http_handler = "headers \<Rightarrow> request \<Rightarrow> response prog"

abbreviation "StatusOK \<equiv> (200 :: int)"
abbreviation "StatusAccepted \<equiv> (202 :: int)"
abbreviation "StatusBadRequest \<equiv> (400 :: int)"
abbreviation "StatusNotFound \<equiv> (404 :: int)"
abbreviation "StatusUnprocessableEntity \<equiv> (422 :: int)"
abbreviation "StatusInternalServerError \<equiv> (500 :: int)"

section \<open>Writing a response\<close>

text \<open>\<open>Encode\<close> writes nothing when the value has no JSON form; the status line is out by then.\<close>

definition writeJSON :: "headers \<Rightarrow> int \<Rightarrow> (go_error + json) \<Rightarrow> response" where
  "writeJSON w status v =
     \<lparr>rs_Header = header_Set ''Content-Type'' ''application/json'' w, rs_status = status,
      rs_Body = (case v of Inl err \<Rightarrow> NotJSON [] | Inr j \<Rightarrow> JSON j)\<rparr>"

definition errorResponse_json :: "string \<Rightarrow> string \<Rightarrow> json" where
  [simp]: "errorResponse_json code message = JObj [(''code'', JStr code), (''message'', JStr message)]"

definition writeError :: "headers \<Rightarrow> int \<Rightarrow> string \<Rightarrow> string \<Rightarrow> response" where
  "writeError w status code message =
     \<lparr>rs_Header = header_Set ''Content-Type'' ''application/json'' w, rs_status = status,
      rs_Body = JSON (errorResponse_json code message)\<rparr>"

definition handleDomainError :: "headers \<Rightarrow> go_error \<Rightarrow> response" where
  "handleDomainError w err =
     (if errors_Is err (MoneyErr ErrInsufficientFunds)
      then writeError w StatusUnprocessableEntity ''insufficient_funds'' (Error err)
      else if errors_Is err (TransferErr ErrIdempotencyKeyReused)
      then writeError w StatusUnprocessableEntity ''idempotency_key_reused_with_different_payload'' (Error err)
      else if errors_Is err (AccountErr ErrAccountNotFound)
      then writeError w StatusNotFound ''account_not_found'' (Error err)
      else writeError w StatusInternalServerError ''internal_error'' ''internal server error'')"

section \<open>handler.go\<close>

record createTransferRequest =
  q_SourceAccountID :: string
  q_DestAccountID :: string
  q_Amount :: int64
  q_Currency :: string

definition request_tags :: "(string \<times> field_type) list" where
  "request_tags = [(''source_account_id'', FString), (''dest_account_id'', FString),
     (''amount'', FInt64), (''currency'', FString)]"

definition Decode_request :: "bytes \<Rightarrow> go_error + createTransferRequest" where
  "Decode_request b =
     map_sum id (\<lambda>kvs. \<lparr>q_SourceAccountID = string_field ''source_account_id'' kvs [],
                        q_DestAccountID = string_field ''dest_account_id'' kvs [],
                        q_Amount = int64_field ''amount'' kvs 0,
                        q_Currency = string_field ''currency'' kvs []\<rparr>)
       (Unmarshal_object request_tags b)"

definition idempotencyKeyCtx :: context_key where
  "idempotencyKeyCtx = HttpKey ''idempotency_key''"

definition requestIDCtx :: context_key where
  "requestIDCtx = HttpKey ''request_id''"

definition idempotencyKeyFromCtx :: "go_context \<Rightarrow> string" where
  "idempotencyKeyFromCtx ctx = (case context_Value ctx idempotencyKeyCtx of Some v \<Rightarrow> v | None \<Rightarrow> [])"

lemmas context_keys = traceIDKey_def idempotencyKeyCtx_def requestIDCtx_def

definition CreateTransfer :: "uuid_lib \<Rightarrow> http_handler" where
  "CreateTransfer U w r =
     (case Decode_request (rq_Body r) of
        Inl err \<Rightarrow> Return (writeError w StatusBadRequest ''invalid_request_body'' (Error err))
      | Inr req \<Rightarrow>
          prog_bind (Handle U
            \<lparr>c_IdempotencyKey = idempotencyKeyFromCtx (rq_ctx r), c_SourceAccountID = q_SourceAccountID req,
             c_DestAccountID = q_DestAccountID req, c_Amount = q_Amount req,
             c_Currency = q_Currency req\<rparr>) (\<lambda>(result, err).
            case err of
              Some e \<Rightarrow> Return (handleDomainError w e)
            | None \<Rightarrow> Return (writeJSON w (if cr_Cached result then StatusOK else StatusAccepted)
                 (Inr (result_json result)))))"

text \<open>A Go map encodes with its keys in order.\<close>

definition transfer_json :: "uuid_lib \<Rightarrow> Transfer \<Rightarrow> go_error + json" where
  "transfer_json U t =
     (case time_MarshalJSON (t_CreatedAt t) of
        Inl err \<Rightarrow> Inl err
      | Inr created \<Rightarrow>
          (case time_MarshalJSON (t_UpdatedAt t) of
             Inl err \<Rightarrow> Inl err
           | Inr upd \<Rightarrow> Inr (JObj
               [(''amount'', JInt (sint (m_Amount (t_Amount t)))),
                (''created_at'', created),
                (''currency'', JStr (m_Currency (t_Amount t))),
                (''dest_account_id'', JStr (AccountID_String U (t_DestAccountID t))),
                (''external_ref'', JStr (t_ExternalRef t)),
                (''failure_reason'', JStr (t_FailureReason t)),
                (''id'', JStr (TransferID_String U (t_ID t))),
                (''source_account_id'', JStr (AccountID_String U (t_SourceAccountID t))),
                (''state'', JStr (state_string (t_State t))),
                (''updated_at'', upd)])))"

definition GetTransfer :: "uuid_lib \<Rightarrow> http_handler" where
  "GetTransfer U w r =
     (case ParseTransferID U (rq_URLParam r ''id'') of
        Inl err \<Rightarrow> Return (writeError w StatusBadRequest ''invalid_transfer_id'' (Error err))
      | Inr transferID \<Rightarrow>
          Transfers_FindByID transferID (\<lambda>t.
            case t of
              Inl err \<Rightarrow>
                if errors_Is err (TransferErr ErrTransferNotFound)
                then Return (writeError w StatusNotFound ''transfer_not_found'' ''transfer not found'')
                else Return (writeError w StatusInternalServerError ''internal_error'' ''internal server error'')
            | Inr t \<Rightarrow> Return (writeJSON w StatusOK (transfer_json U t))))"

definition balance_json :: "string \<Rightarrow> Money \<Rightarrow> json" where
  "balance_json i balance =
     JObj [(''account_id'', JStr i), (''balance'', JInt (sint (m_Amount balance))),
           (''currency'', JStr (m_Currency balance))]"

definition GetAccountBalance :: "uuid_lib \<Rightarrow> http_handler" where
  "GetAccountBalance U w r =
     (case ParseAccountID U (rq_URLParam r ''id'') of
        Inl err \<Rightarrow> Return (writeError w StatusBadRequest ''invalid_account_id'' (Error err))
      | Inr accountID \<Rightarrow>
          Accounts_FindByID accountID (\<lambda>acct.
            case acct of
              Inl err \<Rightarrow>
                if errors_Is err (AccountErr ErrAccountNotFound)
                then Return (writeError w StatusNotFound ''account_not_found'' ''account not found'')
                else Return (writeError w StatusInternalServerError ''internal_error'' ''internal server error'')
            | Inr acct \<Rightarrow>
                GetBalance accountID (a_Currency acct) (\<lambda>balance.
                  case balance of
                    Inl err \<Rightarrow> Return (writeError w StatusInternalServerError ''internal_error'' ''internal server error'')
                  | Inr balance \<Rightarrow>
                      Return (writeJSON w StatusOK (Inr (balance_json (rq_URLParam r ''id'') balance))))))"

section \<open>middleware.go\<close>

definition requestIDMiddleware ::
  "uuid_lib \<Rightarrow> (headers \<Rightarrow> request \<Rightarrow> 'a prog) \<Rightarrow> headers \<Rightarrow> request \<Rightarrow> 'a prog" where
  "requestIDMiddleware U next' w r =
     (let serve = (\<lambda>traceID.
        next' (header_Set ''X-Request-ID'' traceID w)
          (r\<lparr>rq_ctx := context_WithValue (WithTraceID (rq_ctx r) traceID) requestIDCtx traceID\<rparr>)) in
      if header_Get (rq_Header r) ''X-Request-ID'' = []
      then NewUUID (\<lambda>u. serve (uuid_String U u))
      else serve (header_Get (rq_Header r) ''X-Request-ID''))"

text \<open>The line the access log gets.\<close>

record access_line =
  al_method :: string
  al_path :: string
  al_status :: int
  al_duration_ms :: int
  al_trace_id :: string

definition loggingMiddleware ::
  "http_handler \<Rightarrow> headers \<Rightarrow> request \<Rightarrow> (access_line \<times> response) prog" where
  "loggingMiddleware next' w r =
     Now (\<lambda>start.
       prog_bind (next' w r) (\<lambda>ww.
         Now (\<lambda>end'. Return
           (\<lparr>al_method = rq_Method r, al_path = rq_Path r, al_status = rs_status ww,
             al_duration_ms = (end' - start) div 1000000, al_trace_id = TraceIDFromContext (rq_ctx r)\<rparr>, ww))))"

definition idempotencyMiddleware :: "http_handler \<Rightarrow> http_handler" where
  "idempotencyMiddleware next' w r =
     (if rq_Method r = ''GET'' then next' w r
      else
        let key = header_Get (rq_Header r) ''Idempotency-Key'';
            forward = next' w (r\<lparr>rq_ctx := context_WithValue (rq_ctx r) idempotencyKeyCtx key\<rparr>) in
        if key = []
        then Return (writeError w StatusBadRequest ''idempotency_key_required''
               ''Idempotency-Key header is required'')
        else Idempotency_Get key (\<lambda>cached.
          case cached of
            Inr (Some b) \<Rightarrow> Return
              \<lparr>rs_Header = header_Set ''X-Idempotent-Replayed'' ''true''
                 (header_Set ''Content-Type'' ''application/json'' w),
               rs_status = StatusOK, rs_Body = b\<rparr>
          | Inr None \<Rightarrow> forward
          | Inl err \<Rightarrow> forward))"

section \<open>router.go\<close>

text \<open>A route: the method, or none for \<open>Handle\<close> and \<open>Route\<close>, and the pattern.\<close>

type_synonym routes = "(string option \<times> string) list"

definition top_routes :: routes where
  "top_routes = [(Some ''GET'', ''/healthz''), (None, ''/metrics''), (None, ''/v1'')]"

definition v1_routes :: routes where
  "v1_routes = [(Some ''POST'', ''/transfers''), (Some ''GET'', ''/transfers/{id}''),
     (Some ''GET'', ''/accounts/{id}/balance'')]"

text \<open>What the libraries do: the index of the route that serves a method and a path, with the URL
  parameters and the path that remains below it; the answer to a request no route serves; the page
  of \<open>promhttp\<close>.\<close>

record chi =
  chi_match :: "routes \<Rightarrow> string \<Rightarrow> string \<Rightarrow> (nat \<times> (string \<Rightarrow> string) \<times> string) option"
  chi_unmatched :: "headers \<Rightarrow> request \<Rightarrow> response"
  promhttp :: "headers \<Rightarrow> request \<Rightarrow> response"

definition healthz :: http_handler where
  "healthz w r = Return \<lparr>rs_Header = w, rs_status = StatusOK, rs_Body = NotJSON ''ok''\<rparr>"

definition v1_handler :: "uuid_lib \<Rightarrow> chi \<Rightarrow> string \<Rightarrow> http_handler" where
  "v1_handler U ch path w r =
     (case chi_match ch v1_routes (rq_Method r) path of
        None \<Rightarrow> Return (chi_unmatched ch w r)
      | Some (i, params, _) \<Rightarrow>
          let r = r\<lparr>rq_URLParam := params\<rparr> in
          if i = 0 then CreateTransfer U w r
          else if i = 1 then GetTransfer U w r
          else GetAccountBalance U w r)"

definition top_handler :: "uuid_lib \<Rightarrow> chi \<Rightarrow> http_handler" where
  "top_handler U ch w r =
     (case chi_match ch top_routes (rq_Method r) (rq_Path r) of
        None \<Rightarrow> Return (chi_unmatched ch w r)
      | Some (i, params, rest) \<Rightarrow>
          if i = 0 then healthz w r
          else if i = 1 then Return (promhttp ch w r)
          else idempotencyMiddleware (v1_handler U ch rest) w r)"

text \<open>\<open>NewRouter(h).ServeHTTP\<close>.\<close>

definition ServeHTTP :: "uuid_lib \<Rightarrow> chi \<Rightarrow> request \<Rightarrow> (access_line \<times> response) prog" where
  "ServeHTTP U ch r = requestIDMiddleware U (loggingMiddleware (top_handler U ch)) [] r"

section \<open>What a request asks of the infrastructure\<close>

text \<open>What the handlers may call: the command handler's calls, the cache and the three queries.\<close>

lemma CreateTransfer_calls:
  assumes "\<And>cmd. all_calls P (Handle U cmd)"
  shows "all_calls P (CreateTransfer U w r)"
  unfolding CreateTransfer_def using assms
  by (auto intro!: all_calls_bind split: sum.split option.split)

lemma GetTransfer_calls:
  assumes "\<And>i. P (C_Transfers_FindByID i)"
  shows "all_calls P (GetTransfer U w r)"
  unfolding GetTransfer_def using assms by (auto intro!: all_calls_intros split: sum.split)

lemma GetAccountBalance_calls:
  assumes "\<And>a. P (C_Accounts_FindByID a)" and "\<And>a c. P (C_GetBalance a c)"
  shows "all_calls P (GetAccountBalance U w r)"
  unfolding GetAccountBalance_def using assms by (auto intro!: all_calls_intros split: sum.split)

lemma idempotencyMiddleware_calls:
  assumes "\<And>w r. all_calls P (next' w r)" and "\<And>k. P (C_Idempotency_Get k)"
  shows "all_calls P (idempotencyMiddleware next' w r)"
  unfolding idempotencyMiddleware_def Let_def using assms
  by (auto intro!: all_calls_intros split: sum.split option.split)

lemma top_handler_calls:
  assumes "\<And>cmd. all_calls P (Handle U cmd)" and "\<And>k. P (C_Idempotency_Get k)"
    and "\<And>i. P (C_Transfers_FindByID i)" and "\<And>a. P (C_Accounts_FindByID a)"
    and "\<And>a c. P (C_GetBalance a c)"
  shows "all_calls P (top_handler U ch w r)"
proof -
  have "all_calls P (v1_handler U ch path w r)" for path w r
    unfolding v1_handler_def Let_def
    using assms CreateTransfer_calls GetTransfer_calls GetAccountBalance_calls
    by (auto split: option.split)
  then show ?thesis
    unfolding top_handler_def healthz_def using idempotencyMiddleware_calls assms(2)
    by (auto split: option.split)
qed

lemma ServeHTTP_calls:
  assumes "\<And>w r. all_calls P (top_handler U ch w r)" and "P C_NewUUID" and "P C_Now"
  shows "all_calls P (ServeHTTP U ch r)"
  unfolding ServeHTTP_def requestIDMiddleware_def loggingMiddleware_def Let_def
  using assms by (auto intro!: all_calls_intros all_calls_bind)

lemma ServeHTTP_tracks: "tracks (ServeHTTP U ch r) K"
  by (rule new_only_tracks) (intro ServeHTTP_calls top_handler_calls Handle_new_only; simp)

lemma ServeHTTP_balanced: "all_calls balanced_call (ServeHTTP U ch r)"
  by (intro ServeHTTP_calls top_handler_calls Handle_balanced) simp_all

section \<open>Runs of the router\<close>

text \<open>The trace identity of a request and the world after it is known.\<close>

definition trace_id :: "uuid_lib \<Rightarrow> request \<Rightarrow> 's world \<Rightarrow> string \<times> 's world" where
  "trace_id U r w =
     (if header_Get (rq_Header r) ''X-Request-ID'' = []
      then (uuid_String U (rand w (drawn w)), w\<lparr>drawn := Suc (drawn w)\<rparr>)
      else (header_Get (rq_Header r) ''X-Request-ID'', w))"

text \<open>The world, the headers and the request the routed handler starts with.\<close>

definition entry_world :: "uuid_lib \<Rightarrow> request \<Rightarrow> 's world \<Rightarrow> 's world" where
  "entry_world U r w = (let w1 = snd (trace_id U r w) in w1\<lparr>ticks := Suc (ticks w1)\<rparr>)"

definition entry_headers :: "uuid_lib \<Rightarrow> request \<Rightarrow> 's world \<Rightarrow> headers" where
  "entry_headers U r w = [(''X-Request-ID'', fst (trace_id U r w))]"

definition entry_request :: "uuid_lib \<Rightarrow> request \<Rightarrow> 's world \<Rightarrow> request" where
  "entry_request U r w =
     r\<lparr>rq_ctx := context_WithValue (WithTraceID (rq_ctx r) (fst (trace_id U r w))) requestIDCtx (fst (trace_id U r w))\<rparr>"

text \<open>The same request once the middleware has put the idempotency key into its context.\<close>

definition keyed_request :: "string \<Rightarrow> request \<Rightarrow> request" where
  "keyed_request key r = r\<lparr>rq_ctx := context_WithValue (rq_ctx r) idempotencyKeyCtx key\<rparr>"

lemma keyed_request_sel [simp]:
  "idempotencyKeyFromCtx (rq_ctx (keyed_request key r)) = key" "rq_Body (keyed_request key r) = rq_Body r"
  by (simp_all add: keyed_request_def idempotencyKeyFromCtx_def)

lemma entry_sel [simp]:
  "db (entry_world U r w) = db w" "ext (entry_world U r w) = ext w" "faults (entry_world U r w) = faults w"
  "rand (entry_world U r w) = rand w" "clock (entry_world U r w) = clock w"
  "rq_Method (entry_request U r w) = rq_Method r" "rq_Path (entry_request U r w) = rq_Path r"
  "rq_Header (entry_request U r w) = rq_Header r" "rq_Body (entry_request U r w) = rq_Body r"
  by (simp_all add: entry_world_def entry_request_def trace_id_def Let_def)

text \<open>The response and the world of a run, without the access line.\<close>

definition serve :: "uuid_lib \<Rightarrow> 's services \<Rightarrow> chi \<Rightarrow> request \<Rightarrow> 's world \<Rightarrow> response \<times> 's world" where
  "serve U E ch r w = apfst snd (run U E (ServeHTTP U ch r) w)"

lemma serve_top:
  "serve U E ch r w =
     (let (resp, w') = run U E (top_handler U ch (entry_headers U r w) (entry_request U r w)) (entry_world U r w)
      in (resp, w'\<lparr>ticks := Suc (ticks w')\<rparr>))"
  by (simp add: serve_def ServeHTTP_def requestIDMiddleware_def loggingMiddleware_def entry_world_def
      entry_headers_def entry_request_def trace_id_def header_Set_def Now_def NewUUID_def run_bind
      read_clock_def draw_uuid_def Let_def split_def)

lemma entry_steady:
  assumes "steady U (Suc k) w"
  shows "steady U k (entry_world U r w)"
proof -
  have "fresh U k (w\<lparr>drawn := Suc (drawn w)\<rparr>)"
    by (rule fresh_later [of U 1 k w]) (use steady_fresh [OF assms] in auto)
  then have "steady U k (w\<lparr>drawn := Suc (drawn w)\<rparr>)" using assms by (simp add: steady_def good_clock_def)
  moreover have "steady U k w" using assms by (rule steady_less) simp
  ultimately show ?thesis by (simp add: entry_world_def trace_id_def tick_steady Let_def)
qed

text \<open>A request that chi sends to a route of the group \<open>/v1\<close>.\<close>

definition routed :: "chi \<Rightarrow> request \<Rightarrow> nat \<Rightarrow> (string \<Rightarrow> string) \<Rightarrow> bool" where
  "routed ch r i params \<longleftrightarrow>
     (\<exists>ps rest q. chi_match ch top_routes (rq_Method r) (rq_Path r) = Some (2, ps, rest) \<and>
        chi_match ch v1_routes (rq_Method r) rest = Some (i, params, q))"

lemma serve_get:
  assumes "routed ch r i params" and "rq_Method r = ''GET''"
    and "i = 1 \<Longrightarrow> h = GetTransfer U" and "i = 2 \<Longrightarrow> h = GetAccountBalance U" and "i \<in> {1, 2}"
  shows "serve U E ch r w =
    (let (resp, w') = run U E (h (entry_headers U r w) ((entry_request U r w)\<lparr>rq_URLParam := params\<rparr>)) (entry_world U r w)
     in (resp, w'\<lparr>ticks := Suc (ticks w')\<rparr>))"
  using assms
  by (auto simp: serve_top routed_def top_handler_def v1_handler_def idempotencyMiddleware_def Let_def)

lemma serve_post:
  assumes "routed ch r 0 params" and "rq_Method r = ''POST''"
    and key: "header_Get (rq_Header r) ''Idempotency-Key'' = key" "key \<noteq> []"
    and miss: "ext_redis_GET E (prefixed key) (ext w) = (Inl (Sentinel (LibErr goredis_Nil)), s)"
  shows "serve U E ch r w =
    (let (resp, w') = run U E (CreateTransfer U (entry_headers U r w)
        ((keyed_request key (entry_request U r w))\<lparr>rq_URLParam := params\<rparr>)) ((entry_world U r w)\<lparr>ext := s\<rparr>)
     in (resp, w'\<lparr>ticks := Suc (ticks w')\<rparr>))"
  using assms
  by (auto simp: serve_top routed_def top_handler_def v1_handler_def idempotencyMiddleware_def Let_def
      Idempotency_Get_def on_ext_def IdempotencyStore_Get_def keyed_request_def)

section \<open>A router and requests for the examples\<close>

text \<open>The first route with the right method whose fixed part is a prefix of the path; the parameter is
  the text up to the next slash.\<close>

definition fixed_part :: "string \<Rightarrow> string" where
  "fixed_part pattern = takeWhile (\<lambda>c. c \<noteq> CHR ''{'') pattern"

definition demo_chi :: chi where
  "demo_chi = \<lparr>chi_match = (\<lambda>tbl m path. map_option
       (\<lambda>i. (i, \<lambda>_. takeWhile (\<lambda>c. c \<noteq> CHR ''/'') (drop (length (fixed_part (snd (tbl ! i)))) path),
            drop (length (fixed_part (snd (tbl ! i)))) path))
       (find (\<lambda>i. (fst (tbl ! i) = None \<or> fst (tbl ! i) = Some m) \<and> prefix (fixed_part (snd (tbl ! i))) path)
          [0..<length tbl])),
     chi_unmatched = (\<lambda>w r. \<lparr>rs_Header = w, rs_status = StatusNotFound, rs_Body = NotJSON []\<rparr>),
     promhttp = (\<lambda>w r. \<lparr>rs_Header = w, rs_status = StatusOK, rs_Body = NotJSON []\<rparr>)\<rparr>"

definition demo_request :: "string \<Rightarrow> string \<Rightarrow> headers \<Rightarrow> bytes \<Rightarrow> request" where
  "demo_request m path hs body = \<lparr>rq_Method = m, rq_Path = path, rq_Header = hs, rq_Body = body,
     rq_ctx = [], rq_URLParam = (\<lambda>_. [])\<rparr>"

lemma demo_request_sel [simp]:
  "rq_Method (demo_request m path hs body) = m" "rq_Path (demo_request m path hs body) = path"
  "rq_Header (demo_request m path hs body) = hs" "rq_Body (demo_request m path hs body) = body"
  by (simp_all add: demo_request_def)

lemma demo_match_top:
  "chi_match demo_chi top_routes ''POST'' ''/v1/transfers'' = Some (2, \<lambda>_. [], ''/transfers'')"
  "chi_match demo_chi top_routes ''PUT'' ''/v1/transfers'' = Some (2, \<lambda>_. [], ''/transfers'')"
  "chi_match demo_chi v1_routes ''POST'' ''/transfers'' = Some (0, \<lambda>_. [], [])"
  by (simp_all add: demo_chi_def top_routes_def v1_routes_def fixed_part_def upt_rec numeral_eq_Suc)

lemma demo_routed_post: "routed demo_chi (demo_request ''POST'' ''/v1/transfers'' hs body) 0 (\<lambda>_. [])"
  by (simp add: routed_def demo_match_top)

lemma demo_routed_balance:
  "routed demo_chi (demo_request ''GET'' ''/v1/accounts/10/balance'' hs body) 2 (\<lambda>_. ''10'')"
  by (simp add: routed_def demo_chi_def top_routes_def v1_routes_def fixed_part_def upt_rec numeral_eq_Suc)

lemma demo_ids: "uuid_Parse decimal_uuid ''10'' = Inr 10" "uuid_Parse decimal_uuid ''11'' = Inr 11"
proof -
  have "show_nat 10 = ''10''" "show_nat 11 = ''11''" by code_simp+
  then have "uuid_String decimal_uuid 10 = ''10''" "uuid_String decimal_uuid 11 = ''11''"
    by (simp_all add: decimal_uuid_def)
  then show "uuid_Parse decimal_uuid ''10'' = Inr 10" "uuid_Parse decimal_uuid ''11'' = Inr 11"
    using uuid_okD [OF decimal_uuid_ok, of 10] uuid_okD [OF decimal_uuid_ok, of 11] by simp_all
qed

definition demo_body :: bytes where
  "demo_body = JSON (JObj [(''source_account_id'', JStr ''10''), (''dest_account_id'', JStr ''11''),
     (''amount'', JInt 250), (''currency'', JStr ''IDR'')])"

definition demo_order :: createTransferRequest where
  "demo_order = \<lparr>q_SourceAccountID = ''10'', q_DestAccountID = ''11'', q_Amount = 250, q_Currency = ''IDR''\<rparr>"

lemma request_names:
  "\<not> key_matches ''source_account_id'' ''dest_account_id''" "\<not> key_matches ''source_account_id'' ''amount''"
  "\<not> key_matches ''source_account_id'' ''currency''" "\<not> key_matches ''dest_account_id'' ''source_account_id''"
  "\<not> key_matches ''dest_account_id'' ''amount''" "\<not> key_matches ''dest_account_id'' ''currency''"
  "\<not> key_matches ''amount'' ''source_account_id''" "\<not> key_matches ''amount'' ''dest_account_id''"
  "\<not> key_matches ''amount'' ''currency''" "\<not> key_matches ''currency'' ''source_account_id''"
  "\<not> key_matches ''currency'' ''dest_account_id''" "\<not> key_matches ''currency'' ''amount''"
  by (rule ascii_not_matches; simp add: ascii_def)+

lemma demo_decode: "Decode_request demo_body = Inr demo_order"
  by (simp add: Decode_request_def demo_body_def Unmarshal_object_def request_tags_def fields_fit_def
      request_names demo_order_def int64_range_def)

section \<open>Properties\<close>

text \<open>
  Every request under \<open>/v1\<close> other than GET must carry an idempotency key: without one the answer
  is 400 with the code \<open>idempotency_key_required\<close>, whichever route it was for and whatever its body,
  and neither the database nor any service has been touched.
\<close>

lemma post_requires_key:
  assumes "chi_match ch top_routes (rq_Method r) (rq_Path r) = Some (2, ps, rest)"
    and "rq_Method r \<noteq> ''GET''" and "header_Get (rq_Header r) ''Idempotency-Key'' = []"
  shows "rs_status (fst (serve U E ch r w)) = StatusBadRequest \<and>
    rs_Body (fst (serve U E ch r w)) = JSON (JObj [(''code'', JStr ''idempotency_key_required''),
      (''message'', JStr ''Idempotency-Key header is required'')]) \<and>
    db (snd (serve U E ch r w)) = db w \<and> ext (snd (serve U E ch r w)) = ext w"
  using assms by (simp add: serve_top top_handler_def idempotencyMiddleware_def writeError_def)

text \<open>What chi documents about methods: a route registered for one method serves only that method.\<close>

definition chi_methods :: "chi \<Rightarrow> bool" where
  "chi_methods ch \<longleftrightarrow>
     (\<forall>tbl m path i ps rest. chi_match ch tbl m path = Some (i, ps, rest) \<longrightarrow>
        i < length tbl \<and> (fst (tbl ! i) = None \<or> fst (tbl ! i) = Some m))"

definition query_call :: "call \<Rightarrow> bool" where
  "query_call c \<longleftrightarrow> (\<forall>d d'. db_write c d d' \<longrightarrow> d' = d)"

lemma query_calls:
  "query_call C_Now" "query_call C_NewUUID" "query_call (C_Transfers_FindByID i)"
  "query_call (C_Accounts_FindByID a)" "query_call (C_GetBalance a c)"
  by (auto simp: query_call_def elim: db_write.cases)

interpretation read_only: world_invariant U E "\<lambda>w. db w = d" query_call for U E d
  by unfold_locales (metis perform_db_write query_call_def)

text \<open>
  GET requests are safe: whatever the path, the headers and the body, and under any faults, a
  GET request leaves the database as it was.
\<close>

lemma get_is_safe:
  assumes "chi_methods ch" and "rq_Method r = ''GET''"
  shows "db (snd (serve U E ch r w)) = db w"
proof -
  have "all_calls query_call (v1_handler U ch path hs (entry_request U r w))" for path hs
  proof (cases "chi_match ch v1_routes ''GET'' path")
    case None
    with assms(2) show ?thesis by (simp add: v1_handler_def)
  next
    case (Some x)
    obtain i ps rest where x: "x = (i, ps, rest)" by (cases x)
    have "i \<noteq> 0" using assms(1) Some unfolding x chi_methods_def v1_routes_def by fastforce
    with Some x assms(2) show ?thesis
      by (simp add: v1_handler_def GetTransfer_calls GetAccountBalance_calls query_calls Let_def)
  qed
  then have "all_calls query_call (top_handler U ch (entry_headers U r w) (entry_request U r w))"
    using assms(2) by (auto simp: top_handler_def healthz_def idempotencyMiddleware_def split: option.split)
  from read_only.run_keeps [OF this, where w = "entry_world U r w" and d = "db w"]
  show ?thesis by (simp add: serve_top split_def Let_def)
qed

text \<open>
  (C34) The balance endpoint answers from the ledger: 400 for text that is no UUID, 404 for an unknown
  account, and otherwise 200 with the exact sum of the account's entries in its own currency (500
  when the sum does not fit an \<open>int64\<close>).
\<close>

theorem balance_endpoint:
  assumes ok: "uuid_ok U" "faults w = []" and rt: "routed ch r 2 params" "rq_Method r = ''GET''"
  shows "rs_status (fst (serve U E ch r w)) =
      (case uuid_Parse U (params ''id'') of
         Inl err \<Rightarrow> StatusBadRequest
       | Inr u \<Rightarrow>
           (case find (\<lambda>a. ac_id a = u) (accounts (db w)) of
              None \<Rightarrow> StatusNotFound
            | Some a \<Rightarrow> if int64_range (sum_balance (AccountID u) (ac_currency a) (db w)) then StatusOK
                        else StatusInternalServerError)) \<and>
    (rs_status (fst (serve U E ch r w)) = StatusOK \<longleftrightarrow>
      (\<exists>u a. uuid_Parse U (params ''id'') = Inr u \<and> find (\<lambda>a. ac_id a = u) (accounts (db w)) = Some a \<and>
         int64_range (sum_balance (AccountID u) (ac_currency a) (db w)) \<and>
         rs_Body (fst (serve U E ch r w)) = JSON (JObj [(''account_id'', JStr (params ''id'')),
           (''balance'', JInt (sum_balance (AccountID u) (ac_currency a) (db w))),
           (''currency'', JStr (ac_currency a))])))"
proof (cases "uuid_Parse U (params ''id'')")
  case (Inl err)
  then show ?thesis
    using serve_get [OF rt, of "GetAccountBalance U" U E w]
    by (simp add: GetAccountBalance_def ParseAccountID_def writeError_def)
next
  case (Inr u)
  show ?thesis
  proof (cases "find (\<lambda>a. ac_id a = u) (accounts (db w))")
    case None
    with Inr show ?thesis
      using serve_get [OF rt, of "GetAccountBalance U" U E w] ok
      by (simp add: GetAccountBalance_def ParseAccountID_def writeError_def Accounts_FindByID_def
          AccountRepo_FindByID_def sql_exec_nofault select_account_def scanAccount_def)
  next
    case (Some a)
    let ?b = "sum_balance (AccountID u) (ac_currency a) (db w)"
    have "sint (word_of_int ?b :: int64) = ?b" if "int64_range ?b"
      using that by (intro sint64_exact) (simp_all add: int64_range_def)
    with Inr Some ok show ?thesis
      using serve_get [OF rt, of "GetAccountBalance U" U E w]
      by (simp add: GetAccountBalance_def ParseAccountID_def writeError_def writeJSON_def
          Accounts_FindByID_def AccountRepo_FindByID_def sql_exec_nofault select_account_def
          scanAccount_def GetBalance_def LedgerRepo_GetBalance_def select_balance_def balance_json_def)
  qed
qed

theorem balance_endpoint_witness:
  "rs_status (fst (serve decimal_uuid demo_E demo_chi (demo_request ''GET'' ''/v1/accounts/10/balance'' [] demo_body)
     (demo_world [] []))) = StatusOK"
proof -
  have "find (\<lambda>a. ac_id a = 10) (accounts (demo_db [])) = Some (demo_account 10)"
    by (simp add: demo_db_def demo_account_def)
  then show ?thesis
    using balance_endpoint [OF decimal_uuid_ok _ demo_routed_balance, of "demo_world [] []" "[]" demo_body demo_E]
    by (simp add: demo_ids int64_range_def demo_facts demo_account_def)
qed

text \<open>The command a request becomes.\<close>

definition cmd_of :: "string \<Rightarrow> createTransferRequest \<Rightarrow> CreateTransferCmd" where
  "cmd_of key q = \<lparr>c_IdempotencyKey = key, c_SourceAccountID = q_SourceAccountID q,
     c_DestAccountID = q_DestAccountID q, c_Amount = q_Amount q, c_Currency = q_Currency q\<rparr>"

lemma cmd_of_key [simp]: "c_IdempotencyKey (cmd_of key q) = key"
  by (simp add: cmd_of_def)

lemma CreateTransfer_run:
  assumes "Decode_request (rq_Body r) = Inr q" and "idempotencyKeyFromCtx (rq_ctx r) = key"
    and run: "run U E (Handle U (cmd_of key q)) w = ((result, err), v)"
  shows "run U E (CreateTransfer U hs r) w =
    (case err of
       Some e \<Rightarrow> handleDomainError hs e
     | None \<Rightarrow> writeJSON hs (if cr_Cached result then StatusOK else StatusAccepted) (Inr (result_json result)), v)"
  using assms(1,2) run
  by (cases err) (simp_all add: CreateTransfer_def cmd_of_def run_bind)

lemma serve_create:
  assumes "routed ch r 0 params" and "rq_Method r = ''POST''"
    and "header_Get (rq_Header r) ''Idempotency-Key'' = key" "key \<noteq> []"
    and "ext_redis_GET E (prefixed key) (ext w) = (Inl (Sentinel (LibErr goredis_Nil)), s)"
    and "Decode_request (rq_Body r) = Inr q"
    and run: "run U E (Handle U (cmd_of key q)) ((entry_world U r w)\<lparr>ext := s\<rparr>) = ((result, err), v)"
  shows "serve U E ch r w =
    (case err of
       Some e \<Rightarrow> handleDomainError (entry_headers U r w) e
     | None \<Rightarrow> writeJSON (entry_headers U r w) (if cr_Cached result then StatusOK else StatusAccepted)
         (Inr (result_json result)), v\<lparr>ticks := Suc (ticks v)\<rparr>)"
proof -
  let ?r = "(keyed_request key (entry_request U r w))\<lparr>rq_URLParam := params\<rparr>"
  have "Decode_request (rq_Body ?r) = Inr q" and "idempotencyKeyFromCtx (rq_ctx ?r) = key" using assms by simp_all
  from CreateTransfer_run [OF this run, of "entry_headers U r w"] show ?thesis
    using serve_post [OF assms(1-5), of U] by (cases err) simp_all
qed

lemma serve_replay:
  assumes "chi_match ch top_routes (rq_Method r) (rq_Path r) = Some (2, ps, rest)"
    and "rq_Method r \<noteq> ''GET''" and "header_Get (rq_Header r) ''Idempotency-Key'' = key" "key \<noteq> []"
    and "fst (ext_redis_GET E (prefixed key) (ext w)) = Inr b"
  shows "rs_status (fst (serve U E ch r w)) = StatusOK" and "rs_Body (fst (serve U E ch r w)) = b"
    and "header_Get (rs_Header (fst (serve U E ch r w))) ''X-Idempotent-Replayed'' = ''true''"
    and "db (snd (serve U E ch r w)) = db w"
  using assms
  by (simp_all add: serve_top top_handler_def idempotencyMiddleware_def Idempotency_Get_def on_ext_def
      IdempotencyStore_Get_def header_Get_def header_Set_def split_def Let_def)

text \<open>A cache with a clock for the example: the bank and the broker take a second each, the cache itself
  no time that shows, and a key is gone once its time is over.\<close>

type_synonym timed_cache = "time \<times> (string \<times> bytes \<times> time) list"

definition timed_entry :: "timed_cache \<Rightarrow> string \<Rightarrow> (bytes \<times> time) option" where
  "timed_entry s key = (case map_of (snd s) key of
     Some (v, d) \<Rightarrow> if fst s < d then Some (v, d) else None | None \<Rightarrow> None)"

definition timed_E :: "timed_cache services" where
  "timed_E = \<lparr>ext_bank = (\<lambda>req s. (Inl driver_error, apfst (\<lambda>n. n + 1000000000) s)),
     ext_redis_GET = (\<lambda>key s.
        (case timed_entry s key of None \<Rightarrow> Inl (Sentinel (LibErr goredis_Nil)) | Some (v, d) \<Rightarrow> Inr v, s)),
     ext_redis_SETNX = (\<lambda>key v ttl s.
        if timed_entry s key = None \<and> 0 < ttl then (Inr True, apsnd (\<lambda>m. (key, v, fst s + ttl) # m) s)
        else (Inr False, s)),
     ext_js_Publish = (\<lambda>subject p s. (None, apfst (\<lambda>n. n + 1000000000) s))\<rparr>"

lemma timed_redis: "redis_keeps timed_E fst timed_entry"
  unfolding redis_keeps_def call_ext_def
  by (auto simp: timed_E_def timed_entry_def Let_def split: call.splits option.splits if_splits)

definition timeless :: "call \<Rightarrow> bool" where
  "timeless c \<longleftrightarrow> (\<forall>req. c \<noteq> C_InitiateTransfer req) \<and> (\<forall>subject p. c \<noteq> C_Publish subject p)"

interpretation timed_clock: world_invariant U timed_E "\<lambda>w. fst (ext w) = n" timeless for U n
  by unfold_locales
    (auto simp: perform_ext call_ext_def timed_E_def timeless_def simp del: perform.simps split: call.splits)

lemma Handle_timeless: "all_calls timeless (Handle U cmd)"
  by (rule Handle_calls) (simp_all add: timeless_def)

lemma serve_timeless: "fst (ext (snd (serve U timed_E ch r w))) = fst (ext w)"
proof -
  have "all_calls timeless (ServeHTTP U ch r)"
    by (intro ServeHTTP_calls top_handler_calls Handle_timeless) (simp_all add: timeless_def)
  from timed_clock.run_keeps [OF this, of w "fst (ext w)" U] show ?thesis by (simp add: serve_def)
qed



text \<open>
  A frozen or closed source account is an internal error to the client: a well-formed request
  whose source account cannot transact is answered 500 with the code \<open>internal_error\<close>, and no
  transfer is created.
\<close>

lemma frozen_account_is_internal_error:
  assumes ok: "uuid_ok U" "faults w = []"
    and rt: "routed ch r 0 params" "rq_Method r = ''POST''"
    and key: "header_Get (rq_Header r) ''Idempotency-Key'' = key" "key \<noteq> []"
    and body: "Decode_request (rq_Body r) = Inr q"
    and ids: "ParseAccountID U (q_SourceAccountID q) = Inr src" "ParseAccountID U (q_DestAccountID q) = Inr dst"
    and frozen: "status_at (db w) src = Some x" "x \<noteq> StatusActive"
    and miss: "ext_redis_GET E (prefixed key) (ext w) = (Inl (Sentinel (LibErr goredis_Nil)), s0)"
      "ext_redis_GET E (prefixed key) s0 = (Inl (Sentinel (LibErr goredis_Nil)), s)"
  shows "rs_status (fst (serve U E ch r w)) = StatusInternalServerError \<and>
    rs_Body (fst (serve U E ch r w)) = JSON (JObj [(''code'', JStr ''internal_error''),
      (''message'', JStr ''internal server error'')]) \<and>
    db (snd (serve U E ch r w)) = db w"
proof -
  let ?w = "(entry_world U r w)\<lparr>ext := s0\<rparr>" and ?w' = "(entry_world U r w)\<lparr>ext := s\<rparr>"
  have frozen': "status_at (db ?w') src = Some x" using frozen by simp
  obtain e where e: "CanTransact U (account_at (db w) src) = Some e"
    using frozen CanTransact_None [of U "account_at (db w) src"] account_at_status [OF frozen(1)]
    by (cases "CanTransact U (account_at (db w) src)") auto
  have no: "\<not> errors_Is e (MoneyErr ErrInsufficientFunds)" "\<not> errors_Is e (TransferErr ErrIdempotencyKeyReused)"
    "\<not> errors_Is e (AccountErr ErrAccountNotFound)"
    using e by (auto simp: CanTransact_def split: Status.splits)
  have run: "run U E (Handle U (cmd_of key q)) ?w = ((zero_result, Some e), ?w')"
    using ok(2) ids miss(2) e
    by (simp add: Handle_def checkIdempotency_def run_bind Idempotency_Get_def on_ext_def
        IdempotencyStore_Get_def validateAccounts_def cmd_of_def
        find_account_run [OF ok(1) _ frozen'])
  have "serve U E ch r w = (handleDomainError (entry_headers U r w) e, ?w'\<lparr>ticks := Suc (ticks ?w')\<rparr>)"
    using serve_create [OF rt key miss(1) body run] by simp
  with no show ?thesis by (simp add: handleDomainError_def writeError_def)
qed

end
