(* ===== verification/Http_Contract.thy ===== *)
theory Http_Contract
  imports Http Contracts
begin

text \<open>
  What a client of the HTTP interface can rely on, whatever the state of the system: the identity that
  ties a response to the log, the answer of \<open>GET /v1/transfers/{id}\<close>, and the status codes that \<open>POST
  /v1/transfers\<close> can have. The facts about responses are proved with \<open>yields\<close>, handler by handler, and
  hold for runs by the contracts of theory \<open>Contracts\<close>.
\<close>

section \<open>Tracing\<close>

text \<open>What the documentation of \<open>net/http\<close> handlers implies for those of chi and Prometheus: they leave a
  header they do not own.\<close>

abbreviation "request_id_of hs \<equiv> header_Get hs ''X-Request-ID''"

definition keeps_request_id :: "chi \<Rightarrow> bool" where
  "keeps_request_id ch \<longleftrightarrow>
     (\<forall>hs r. request_id_of (rs_Header (chi_unmatched ch hs r)) = request_id_of hs \<and>
             request_id_of (rs_Header (promhttp ch hs r)) = request_id_of hs)"

lemma header_Get_Set:
  "header_Get (header_Set n v hs) m =
     (if CanonicalHeaderKey m = CanonicalHeaderKey n then v else header_Get hs m)"
proof -
  have "find (\<lambda>(k, _). CanonicalHeaderKey k = CanonicalHeaderKey m)
      (filter (\<lambda>(k, _). CanonicalHeaderKey k \<noteq> CanonicalHeaderKey n) hs) =
    (if CanonicalHeaderKey m = CanonicalHeaderKey n then None
     else find (\<lambda>(k, _). CanonicalHeaderKey k = CanonicalHeaderKey m) hs)"
    by (induction hs) auto
  then show ?thesis by (auto simp: header_Get_def header_Set_def)
qed

lemma write_keeps [simp]:
  "request_id_of (rs_Header (writeJSON hs status v)) = request_id_of hs"
  "request_id_of (rs_Header (writeError hs status code message)) = request_id_of hs"
  "request_id_of (rs_Header (handleDomainError hs err)) = request_id_of hs"
  by (simp_all add: writeJSON_def writeError_def handleDomainError_def header_Get_Set canonical_names)

abbreviation "same_id hs \<equiv> \<lambda>resp. request_id_of (rs_Header resp) = request_id_of hs"

lemma handlers_keep:
  "yields Q (same_id hs) (CreateTransfer U hs r)" "yields Q (same_id hs) (GetTransfer U hs r)"
  "yields Q (same_id hs) (GetAccountBalance U hs r)" "yields Q (same_id hs) (healthz hs r)"
  by (auto simp: CreateTransfer_def GetTransfer_def GetAccountBalance_def healthz_def
      Transfers_FindByID_def Accounts_FindByID_def GetBalance_def
      intro!: yields_bind [where R = "\<lambda>_. True"] split: sum.split option.split)
    (rule yields_top)

lemma top_handler_keeps:
  assumes "keeps_request_id ch"
  shows "yields Q (same_id hs) (top_handler U ch hs r)"
proof -
  have v1: "yields Q (same_id hs) (v1_handler U ch path hs r)" for path r
    using assms handlers_keep by (auto simp: v1_handler_def keeps_request_id_def Let_def split: option.split)
  have "yields Q (same_id hs) (idempotencyMiddleware (v1_handler U ch path) hs r)" for path
    using v1 by (auto simp: idempotencyMiddleware_def Let_def Idempotency_Get_def header_Get_Set canonical_names
        split: sum.split option.split)
  then show ?thesis
    using assms handlers_keep by (auto simp: top_handler_def keeps_request_id_def split: option.split)
qed

text \<open>The response and the access line of a run, in terms of the routed handler's response.\<close>

definition routed_response :: "uuid_lib \<Rightarrow> 's services \<Rightarrow> chi \<Rightarrow> request \<Rightarrow> 's world \<Rightarrow> response" where
  "routed_response U E ch r w =
     fst (run U E (top_handler U ch (entry_headers U r w) (entry_request U r w)) (entry_world U r w))"

lemma serve_access:
  "snd (fst (run U E (ServeHTTP U ch r) w)) = routed_response U E ch r w"
  "al_status (fst (fst (run U E (ServeHTTP U ch r) w))) = rs_status (routed_response U E ch r w)"
  "al_trace_id (fst (fst (run U E (ServeHTTP U ch r) w))) = fst (trace_id U r w)"
  by (simp_all add: ServeHTTP_def requestIDMiddleware_def loggingMiddleware_def entry_world_def
      entry_headers_def entry_request_def trace_id_def header_Set_def Now_def NewUUID_def run_bind
      read_clock_def draw_uuid_def context_keys routed_response_def Let_def split_def)



section \<open>Reading a transfer\<close>

text \<open>
  (C35) The transfer endpoint answers from the row: 400 for text that is no UUID, 404 for an unknown
  transfer, and otherwise 200 with every field of the stored row.
\<close>

theorem transfer_endpoint:
  assumes ok: "uuid_ok U" "faults w = []" and rt: "routed ch r 1 params" "rq_Method r = ''GET''"
  shows "rs_status (fst (serve U E ch r w)) =
      (case uuid_Parse U (params ''id'') of
         Inl err \<Rightarrow> StatusBadRequest
       | Inr u \<Rightarrow> if transfer_at (db w) (TransferID u) = None then StatusNotFound else StatusOK) \<and>
    (\<forall>u t c c'. uuid_Parse U (params ''id'') = Inr u \<longrightarrow> transfer_at (db w) (TransferID u) = Some t \<longrightarrow>
       time_MarshalJSON (go_time (tr_created_at t)) = Inr c \<longrightarrow>
       time_MarshalJSON (go_time (tr_updated_at t)) = Inr c' \<longrightarrow>
       rs_Body (fst (serve U E ch r w)) = JSON (JObj
         [(''amount'', JInt (sint (tr_amount t))), (''created_at'', c), (''currency'', JStr (tr_currency t)),
          (''dest_account_id'', JStr (uuid_String U (tr_dest_account_id t))),
          (''external_ref'', JStr (tr_external_ref t)), (''failure_reason'', JStr (tr_failure_reason t)),
          (''id'', JStr (uuid_String U u)), (''source_account_id'', JStr (uuid_String U (tr_source_account_id t))),
          (''state'', JStr (state_string (tr_state t))), (''updated_at'', c')])) \<and>
    db (snd (serve U E ch r w)) = db w"
proof (cases "uuid_Parse U (params ''id'')")
  case (Inl err)
  then show ?thesis
    using serve_get [OF rt, of "GetTransfer U" U E w]
    by (simp add: GetTransfer_def ParseTransferID_def writeError_def)
next
  case (Inr u)
  show ?thesis
  proof (cases "transfer_at (db w) (TransferID u)")
    case None
    with Inr ok show ?thesis
      using serve_get [OF rt, of "GetTransfer U" U E w]
      by (simp add: GetTransfer_def ParseTransferID_def writeError_def Transfers_FindByID_def
          TransferRepo_FindByID_def sql_exec_nofault select_transfer_def transfer_at_def scanTransfer_def)
  next
    case (Some t)
    then have "tr_id t = u" by (auto simp: transfer_at_def dest: find_SomeD)
    with Inr Some ok show ?thesis
      using serve_get [OF rt, of "GetTransfer U" U E w]
      by (simp add: GetTransfer_def ParseTransferID_def writeJSON_def Transfers_FindByID_def
          TransferRepo_FindByID_def sql_exec_nofault select_transfer_def transfer_at_def scanTransfer_row
          transfer_json_def AccountID_String_def TransferID_String_def row_transfer_def)
  qed
qed

lemma demo_routed_transfer:
  "routed demo_chi (demo_request ''GET'' ''/v1/transfers/20'' hs body) 1 (\<lambda>_. ''20'')"
  by (simp add: routed_def demo_chi_def top_routes_def v1_routes_def fixed_part_def upt_rec numeral_eq_Suc)

lemma demo_id_20: "uuid_Parse decimal_uuid ''20'' = Inr 20"
proof -
  have "show_nat 20 = ''20''" by code_simp
  then have "uuid_String decimal_uuid 20 = ''20''" by (simp add: decimal_uuid_def)
  then show ?thesis using uuid_okD [OF decimal_uuid_ok, of 20] by simp
qed

theorem transfer_endpoint_witness:
  "rs_status (fst (serve decimal_uuid demo_E demo_chi (demo_request ''GET'' ''/v1/transfers/20'' [] demo_body)
     (demo_world [demo_row 20 ''k'' 300] []))) = StatusOK"
  using transfer_endpoint [OF decimal_uuid_ok _ demo_routed_transfer,
      of "demo_world [demo_row 20 ''k'' 300] []" "[]" demo_body demo_E]
  by (simp add: demo_id_20 demo_at)

section \<open>The status codes of POST\<close>

text \<open>The errors that \<open>handleDomainError\<close> answers with 422.\<close>

definition unprocessable :: "sentinel set" where
  "unprocessable = {MoneyErr ErrInsufficientFunds, TransferErr ErrIdempotencyKeyReused}"

lemma unprocessable_not [simp]:
  "MoneyErr ErrNegativeAmount \<notin> unprocessable" "TransferErr ErrIdempotencyKeyRequired \<notin> unprocessable"
  "AccountErr a \<notin> unprocessable" "LibErr l \<notin> unprocessable"
  by (simp_all add: unprocessable_def)

abbreviation "clean \<equiv> clean_reply unprocessable"
abbreviation "fine err \<equiv> \<forall>e. err = Some e \<longrightarrow> free_of unprocessable e"
abbreviation "fine_sum x \<equiv> \<forall>e. x = Inl e \<longrightarrow> free_of unprocessable e"

text \<open>The contract of each method the handler calls, as an introduction rule.\<close>

lemma clean_ports:
  "(\<And>t. yields clean P (kt t)) \<Longrightarrow> yields clean P (Now kt)"
  "(\<And>u. yields clean P (ku u)) \<Longrightarrow> yields clean P (NewUUID ku)"
  "(\<And>err. fine err \<Longrightarrow> yields clean P (ke err)) \<Longrightarrow> yields clean P (Transfers_Save t ke)"
  "(\<And>x. fine_sum x \<Longrightarrow> yields clean P (ka x)) \<Longrightarrow> yields clean P (Accounts_FindByID a ka)"
  "(\<And>err. fine err \<Longrightarrow> yields clean P (ke err)) \<Longrightarrow> yields clean P (Events_Append ev ke)"
  "(\<And>err. fine err \<Longrightarrow> yields clean P (ke err)) \<Longrightarrow> yields clean P (Outbox_Write s b ke)"
  "(\<And>x. fine_sum x \<Longrightarrow> yields clean P (kc x)) \<Longrightarrow> yields clean P (Idempotency_Get key kc)"
  "(\<And>x. fine_sum x \<Longrightarrow> yields clean P (ks x)) \<Longrightarrow> yields clean P (Idempotency_SetIfAbsent key v ttl ks)"
  by (force simp: port_defs clean_reply_def is_R_Err_def is_R_Account_def is_R_Cached_def is_R_Bool_def)+

lemma domain_errors_clean:
  "Unmarshal_object tags b = Inl e \<Longrightarrow> free_of unprocessable e"
  "money_New n cur = Inl e \<Longrightarrow> free_of unprocessable e"
  "transfer_New now i key src dst amount = Inl e \<Longrightarrow> free_of unprocessable e"
  "CanTransact U acct = Some e \<Longrightarrow> free_of unprocessable e"
  by (auto simp: Unmarshal_object_def type_error_def money_New_def transfer_New_def money_Validate_def
      CanTransact_def split: bytes.splits json.splits if_splits option.splits Status.splits)

lemma checkIdempotency_clean: "yields clean (\<lambda>(res, ok, err). fine err) (checkIdempotency key)"
  unfolding checkIdempotency_def
  by (rule clean_ports)
    (auto simp: Unmarshal_result_def map_sum_def dest: domain_errors_clean split: sum.splits option.splits)

lemma validateAccounts_clean: "yields clean fine (validateAccounts U src dst)"
  unfolding validateAccounts_def
  by (auto intro!: clean_ports split: sum.splits option.splits) (erule domain_errors_clean(4))+

lemma persist_clean: "yields clean (\<lambda>(res, err). fine err) (persist U t)"
  unfolding persist_def cacheResult_def Let_def
  by (auto intro!: clean_ports simp: yields_map split: sum.splits option.splits)

lemma Handle_clean:
  assumes "foreign_errors unprocessable U E"
  shows "yields clean (\<lambda>(res, err). fine err) (Handle U cmd)"
  unfolding Handle_def
proof (rule yields_bind [OF checkIdempotency_clean], goal_cases)
  case (1 x)
  note parse = ParseAccountID_foreign [OF assms]
  obtain res ok err where x: "x = (res, ok, err)" by (cases x)
  have "yields clean (\<lambda>(res, err). fine err)
      (case money_New (c_Amount cmd) (c_Currency cmd) of
         Inl e \<Rightarrow> Return (zero_result, Some (wrap ''invalid amount'' e))
       | Inr amount \<Rightarrow> NewUUID (\<lambda>u. Now (\<lambda>now.
           case transfer_New now (NewTransferID u) (c_IdempotencyKey cmd) src dst amount of
             Inl e \<Rightarrow> Return (zero_result, Some (wrap ''create transfer'' e))
           | Inr t \<Rightarrow> persist U t)))" for src dst
    by (auto intro!: clean_ports persist_clean dest: domain_errors_clean split: sum.splits)
  with 1 show ?case
    unfolding x
    by (auto intro!: yields_bind [OF validateAccounts_clean] dest: parse split: option.split sum.split)
qed

text \<open>
  (C36) The documented 422 of \<open>POST /v1/transfers\<close> does not exist: whatever the request, the state of the
  system and the faults, the answer is 200, 202, 400, 404 or 500, as long as the libraries' errors wrap no
  sentinel of the program.
\<close>

theorem post_status_codes:
  assumes lib: "foreign_errors unprocessable U E" and rt: "routed ch r 0 params" "rq_Method r = ''POST''"
  shows "rs_status (fst (serve U E ch r w)) \<in>
    {StatusOK, StatusAccepted, StatusBadRequest, StatusNotFound, StatusInternalServerError}"
proof -
  let ?P = "\<lambda>resp. rs_status resp \<in>
    {StatusOK, StatusAccepted, StatusBadRequest, StatusNotFound, StatusInternalServerError}"
  have dom: "?P (handleDomainError hs e)" if "free_of unprocessable e" for hs e
    using that by (simp add: handleDomainError_def free_of_def unprocessable_def writeError_def)
  have create: "yields clean ?P (CreateTransfer U hs r)" for hs r
    using dom by (auto simp: CreateTransfer_def writeError_def writeJSON_def
        intro!: yields_bind [OF Handle_clean [OF lib]] split: sum.splits option.splits)
  have "yields clean ?P (top_handler U ch hs (entry_request U r w))" for hs
    using rt create
    by (auto simp: routed_def top_handler_def v1_handler_def idempotencyMiddleware_def writeError_def Let_def
        intro!: clean_ports split: sum.split option.split)
  moreover have "reply_contract U E clean" by unfold_locales (rule perform_clean [OF lib]; simp)
  ultimately have "?P (routed_response U E ch r w)"
    unfolding routed_response_def by (rule reply_contract.run_yields [rotated])
  then show ?thesis by (simp add: serve_def serve_access)
qed

theorem post_status_codes_witness:
  "rs_status (fst (serve decimal_uuid demo_E demo_chi
      (demo_request ''POST'' ''/v1/transfers'' [(''Idempotency-Key'', ''n'')] demo_body) (demo_world [] [NotExecuted]))) \<noteq>
    StatusUnprocessableEntity"
proof -
  have "foreign_errors unprocessable decimal_uuid demo_E"
    by (auto simp: foreign_errors_def decimal_uuid_def demo_services_def split: option.splits if_splits)
  from post_status_codes [OF this demo_routed_post, of "[(''Idempotency-Key'', ''n'')]" demo_body "demo_world [] [NotExecuted]"]
  show ?thesis by auto
qed

end
