(* ===== verification/Interfaces.thy ===== *)
theory Interfaces
  imports Commands
begin

text \<open>
  The interfaces of \<open>internal/application/port\<close> as types: their method sets, the structs that hold them,
  the adapters that implement them and the constructor calls by which the \<open>main\<close> packages wire both
  together. A component is checked against its struct as the Go type checker would: every field is set to
  an adapter that implements its interface, and every call a component makes goes through a field whose
  interface has the method. The second half draws the consequence for the database: which tables a component can
  write at all.
\<close>

section \<open>Method sets\<close>

text \<open>A method is its name and signature, so the two methods \<open>FindByID\<close> differ.\<close>

datatype go_method =
    M_Transfer_FindByID | M_FindByIdempotencyKey | M_Transfer_Save | M_UpdateState
  | M_Account_FindByID | M_LockForUpdate | M_Account_Save
  | M_PostEntries | M_GetBalance | M_GetAllEntries
  | M_Append | M_FindByTransferID | M_Write
  | M_InitiateTransfer | M_Get | M_SetIfAbsent | M_Publish

text \<open>The clock, the UUID generator and the relay's own statements are no methods of a port.\<close>

primrec method_of :: "call \<Rightarrow> go_method option" where
  "method_of C_Now = None"
| "method_of C_NewUUID = None"
| "method_of (C_Transfers_FindByID i) = Some M_Transfer_FindByID"
| "method_of (C_Transfers_FindByIdempotencyKey key) = Some M_FindByIdempotencyKey"
| "method_of (C_Transfers_Save t) = Some M_Transfer_Save"
| "method_of (C_Transfers_UpdateState t) = Some M_UpdateState"
| "method_of (C_Accounts_FindByID i) = Some M_Account_FindByID"
| "method_of (C_Accounts_LockForUpdate i) = Some M_LockForUpdate"
| "method_of (C_Accounts_Save a) = Some M_Account_Save"
| "method_of (C_PostEntries es) = Some M_PostEntries"
| "method_of (C_GetBalance a c) = Some M_GetBalance"
| "method_of C_GetAllEntries = Some M_GetAllEntries"
| "method_of (C_Events_Append e) = Some M_Append"
| "method_of (C_Events_FindByTransferID i) = Some M_FindByTransferID"
| "method_of (C_Outbox_Write s p) = Some M_Write"
| "method_of (C_InitiateTransfer req) = Some M_InitiateTransfer"
| "method_of (C_Idempotency_Get key) = Some M_Get"
| "method_of (C_Idempotency_SetIfAbsent key v ttl) = Some M_SetIfAbsent"
| "method_of (C_Publish s p) = Some M_Publish"
| "method_of (C_Outbox_Pending n) = None"
| "method_of (C_Outbox_MarkPublished i) = None"

datatype port_interface =
    TransferReader | TransferWriter | TransferRepository | AccountReader | AccountLocker
  | AccountRepository | EntryWriter | BalanceReader | LedgerAuditor | TransferEventStore
  | OutboxWriter | BankGateway | IdempotencyStore | EventBus

text \<open>An embedded interface contributes its methods.\<close>

fun method_set :: "port_interface \<Rightarrow> go_method list" where
  "method_set TransferReader = [M_Transfer_FindByID, M_FindByIdempotencyKey]"
| "method_set TransferWriter = [M_Transfer_Save, M_UpdateState]"
| "method_set TransferRepository = [M_Transfer_FindByID, M_FindByIdempotencyKey] @ [M_Transfer_Save, M_UpdateState]"
| "method_set AccountReader = [M_Account_FindByID]"
| "method_set AccountLocker = [M_LockForUpdate]"
| "method_set AccountRepository = [M_Account_FindByID] @ [M_LockForUpdate] @ [M_Account_Save]"
| "method_set EntryWriter = [M_PostEntries]"
| "method_set BalanceReader = [M_GetBalance]"
| "method_set LedgerAuditor = [M_GetAllEntries]"
| "method_set TransferEventStore = [M_Append, M_FindByTransferID]"
| "method_set OutboxWriter = [M_Write]"
| "method_set BankGateway = [M_InitiateTransfer]"
| "method_set IdempotencyStore = [M_Get, M_SetIfAbsent]"
| "method_set EventBus = [M_Publish]"

section \<open>Adapters\<close>

datatype adapter =
    pg_TransferRepo | pg_AccountRepo | pg_LedgerRepo | pg_EventStore | pg_OutboxWriter
  | redis_IdempotencyStore | nats_Publisher | bankmock_Gateway | bankmock_CircuitBreakerGateway

fun adapter_methods :: "adapter \<Rightarrow> go_method list" where
  "adapter_methods pg_TransferRepo = [M_Transfer_Save, M_Transfer_FindByID, M_FindByIdempotencyKey, M_UpdateState]"
| "adapter_methods pg_AccountRepo = [M_Account_FindByID, M_LockForUpdate, M_Account_Save]"
| "adapter_methods pg_LedgerRepo = [M_PostEntries, M_GetBalance, M_GetAllEntries]"
| "adapter_methods pg_EventStore = [M_Append, M_FindByTransferID]"
| "adapter_methods pg_OutboxWriter = [M_Write]"
| "adapter_methods redis_IdempotencyStore = [M_Get, M_SetIfAbsent]"
| "adapter_methods nats_Publisher = [M_Publish]"
| "adapter_methods bankmock_Gateway = [M_InitiateTransfer]"
| "adapter_methods bankmock_CircuitBreakerGateway = [M_InitiateTransfer]"

definition implements :: "adapter \<Rightarrow> port_interface \<Rightarrow> bool" where
  "implements a i \<longleftrightarrow> set (method_set i) \<subseteq> set (adapter_methods a)"

section \<open>Structs and wiring\<close>

type_synonym fields = "(string \<times> port_interface) list"
type_synonym wiring = "(string \<times> adapter) list"

definition saga_deps :: fields where
  "saga_deps = [(''transfers'', TransferRepository), (''entries'', EntryWriter), (''balances'', BalanceReader),
     (''accounts'', AccountLocker), (''bank'', BankGateway), (''outbox'', OutboxWriter),
     (''events'', TransferEventStore)]"

definition CreateTransferHandler_fields :: fields where
  "CreateTransferHandler_fields = [(''transfers'', TransferWriter), (''accounts'', AccountReader),
     (''idempotency'', IdempotencyStore), (''outbox'', OutboxWriter), (''events'', TransferEventStore)]"

text \<open>The ports of the HTTP handler; its field \<open>createTransfer\<close> is the struct above.\<close>

definition Handler_fields :: fields where
  "Handler_fields = [(''transfers'', TransferReader), (''accounts'', AccountReader),
     (''balances'', BalanceReader), (''idempotency'', IdempotencyStore)]"

text \<open>The reconciler declares \<open>ledgerAuditor\<close> with the method set of the port.\<close>

definition reconcile_params :: fields where
  "reconcile_params = [(''auditor'', LedgerAuditor)]"

definition CircuitBreakerGateway_fields :: fields where
  "CircuitBreakerGateway_fields = [(''inner'', BankGateway)]"

text \<open>The constructors: which argument becomes which field.\<close>

definition NewTransferSaga ::
  "adapter \<Rightarrow> adapter \<Rightarrow> adapter \<Rightarrow> adapter \<Rightarrow> adapter \<Rightarrow> adapter \<Rightarrow> adapter \<Rightarrow> wiring" where
  "NewTransferSaga trs entries balances accts bank outbx events =
     [(''transfers'', trs), (''entries'', entries), (''balances'', balances), (''accounts'', accts),
      (''bank'', bank), (''outbox'', outbx), (''events'', events)]"

definition NewCreateTransferHandler ::
  "adapter \<Rightarrow> adapter \<Rightarrow> adapter \<Rightarrow> adapter \<Rightarrow> adapter \<Rightarrow> wiring" where
  "NewCreateTransferHandler trs accts idempotency outbx events =
     [(''transfers'', trs), (''accounts'', accts), (''idempotency'', idempotency), (''outbox'', outbx),
      (''events'', events)]"

definition NewHandler :: "adapter \<Rightarrow> adapter \<Rightarrow> adapter \<Rightarrow> adapter \<Rightarrow> wiring" where
  "NewHandler trs accts balances idempotency =
     [(''transfers'', trs), (''accounts'', accts), (''balances'', balances), (''idempotency'', idempotency)]"

definition NewCircuitBreakerGateway :: "adapter \<Rightarrow> wiring" where
  "NewCircuitBreakerGateway inner = [(''inner'', inner)]"

text \<open>The calls of the constructors in the \<open>main\<close> packages.\<close>

definition worker_wiring :: wiring where
  "worker_wiring = NewTransferSaga pg_TransferRepo pg_LedgerRepo pg_LedgerRepo pg_AccountRepo
     bankmock_CircuitBreakerGateway pg_OutboxWriter pg_EventStore"

definition worker_bank_wiring :: wiring where
  "worker_bank_wiring = NewCircuitBreakerGateway bankmock_Gateway"

definition api_command_wiring :: wiring where
  "api_command_wiring = NewCreateTransferHandler pg_TransferRepo pg_AccountRepo redis_IdempotencyStore
     pg_OutboxWriter pg_EventStore"

definition api_handler_wiring :: wiring where
  "api_handler_wiring = NewHandler pg_TransferRepo pg_AccountRepo pg_LedgerRepo redis_IdempotencyStore"

definition reconciler_wiring :: wiring where
  "reconciler_wiring = [(''auditor'', pg_LedgerRepo)]"

text \<open>What the HTTP layer reaches: its own fields and, one selector further, the command handler's.\<close>

definition via :: "string \<Rightarrow> (string \<times> 'a) list \<Rightarrow> (string \<times> 'a) list" where
  "via f = map (\<lambda>(g, x). (f @ ''.'' @ g, x))"

definition api_fields :: fields where
  "api_fields = Handler_fields @ via ''createTransfer'' CreateTransferHandler_fields"

definition api_wiring :: wiring where
  "api_wiring = api_handler_wiring @ via ''createTransfer'' api_command_wiring"

lemmas wiring_defs = saga_deps_def CreateTransferHandler_fields_def Handler_fields_def reconcile_params_def
  CircuitBreakerGateway_fields_def NewTransferSaga_def NewCreateTransferHandler_def NewHandler_def
  NewCircuitBreakerGateway_def worker_wiring_def worker_bank_wiring_def api_command_wiring_def
  api_handler_wiring_def reconciler_wiring_def via_def api_fields_def api_wiring_def

section \<open>The type checker's view\<close>

text \<open>Every field is set, to an adapter that implements its interface.\<close>

definition well_wired :: "fields \<Rightarrow> wiring \<Rightarrow> bool" where
  "well_wired fs ws \<longleftrightarrow> list_all2 (\<lambda>(f, i) (g, a). f = g \<and> implements a i) fs ws"

text \<open>A call that some field has a method for.\<close>

definition well_placed :: "fields \<Rightarrow> call \<Rightarrow> bool" where
  "well_placed fs c \<longleftrightarrow>
     c = C_Now \<or> c = C_NewUUID \<or> (\<exists>m. method_of c = Some m \<and> list_ex (\<lambda>(f, i). m \<in> set (method_set i)) fs)"

lemma Execute_calls:
  assumes "P C_NewUUID" "P C_Now" "\<And>i. P (C_Transfers_FindByID i)" "\<And>t. P (C_Transfers_UpdateState t)"
    "\<And>a. P (C_Accounts_LockForUpdate a)" "\<And>a c. P (C_GetBalance a c)" "\<And>es. P (C_PostEntries es)"
    "\<And>req. P (C_InitiateTransfer req)" "\<And>e. P (C_Events_Append e)" "\<And>s p. P (C_Outbox_Write s p)"
  shows "all_calls P (Execute U i)"
proof -
  have pub: "all_calls P (publishEvent U t ev)" for t ev using assms by (intro publishEvent_calls)
  have adv: "all_calls P (advance U t s ev)" for t s ev
    unfolding advance_def using assms pub by (auto intro!: all_calls_intros split: option.split sum.split)
  have fail: "all_calls P (failWith U t reason)" for t reason
    unfolding failWith_def Let_def using assms pub by (auto intro!: all_calls_intros split: option.split sum.split)
  have rev: "all_calls P (reverseDebit U t)" "all_calls P (reverseCredit U t)" for t
    unfolding reverseDebit_def reverseCredit_def using assms by (auto intro!: newPosting_calls all_calls_intros)
  have comp: "all_calls P (compensate U t)" for t
    unfolding compensate_def using rev fail by (auto intro!: all_calls_bind split: option.split)
  have start: "all_calls P (startCompensation U t reason)" for t reason
    unfolding startCompensation_def Let_def using assms comp
    by (auto intro!: all_calls_intros split: option.split sum.split)
  have "all_calls P (dispatch U t)" for t
    using assms adv fail comp start
    by (cases "t_State t")
      (auto simp: dispatch_def complete_def reserveDebit_def callBank_def postCredit_def
        intro!: all_calls_intros newPosting_calls split: option.split sum.split)
  then show ?thesis
    unfolding Execute_def using assms by (auto intro!: all_calls_intros split: sum.split)
qed

lemma reconcile_calls: "P C_GetAllEntries \<Longrightarrow> all_calls P reconcile"
  unfolding reconcile_def by (auto intro!: all_calls_intros split: sum.split)

lemma components_well_typed:
  "well_wired saga_deps worker_wiring" "well_wired CircuitBreakerGateway_fields worker_bank_wiring"
  "well_wired api_fields api_wiring" "well_wired reconcile_params reconciler_wiring"
  "all_calls (well_placed saga_deps) (Execute U i)"
  "all_calls (well_placed CreateTransferHandler_fields) (Handle U cmd)"
  "all_calls (well_placed api_fields) (ServeHTTP U ch r)"
  "all_calls (well_placed reconcile_params) reconcile"
proof -
  show "well_wired saga_deps worker_wiring" "well_wired CircuitBreakerGateway_fields worker_bank_wiring"
    "well_wired api_fields api_wiring" "well_wired reconcile_params reconciler_wiring"
    by (simp_all add: well_wired_def wiring_defs implements_def)
  show "all_calls (well_placed saga_deps) (Execute U i)"
    by (rule Execute_calls) (simp_all add: well_placed_def wiring_defs)
  show "all_calls (well_placed CreateTransferHandler_fields) (Handle U cmd)"
    by (rule Handle_calls) (simp_all add: well_placed_def wiring_defs)
  show "all_calls (well_placed api_fields) (ServeHTTP U ch r)"
    by (intro ServeHTTP_calls top_handler_calls Handle_calls) (simp_all add: well_placed_def wiring_defs)
  show "all_calls (well_placed reconcile_params) reconcile"
    by (rule reconcile_calls) (simp add: well_placed_def wiring_defs)
qed

section \<open>Which tables a component can write\<close>

datatype table = T_accounts | T_ledger_entries | T_transfers | T_transfer_events | T_outbox

fun writes :: "call \<Rightarrow> table list" where
  "writes (C_Accounts_Save a) = [T_accounts]"
| "writes (C_PostEntries es) = [T_ledger_entries]"
| "writes (C_Transfers_Save t) = [T_transfers]"
| "writes (C_Transfers_UpdateState t) = [T_transfers]"
| "writes (C_Events_Append e) = [T_transfer_events]"
| "writes (C_Outbox_Write s p) = [T_outbox]"
| "writes (C_Outbox_MarkPublished i) = [T_outbox]"
| "writes c = []"

primrec same_table :: "table \<Rightarrow> database \<Rightarrow> database \<Rightarrow> bool" where
  "same_table T_accounts d d' = (accounts d' = accounts d)"
| "same_table T_ledger_entries d d' = (ledger_entries d' = ledger_entries d)"
| "same_table T_transfers d d' = (transfers d' = transfers d)"
| "same_table T_transfer_events d d' = (transfer_events d' = transfer_events d)"
| "same_table T_outbox d d' = (outbox d' = outbox d)"

lemma same_table_refl [simp]: "same_table t d d"
  by (cases t) simp_all

lemma same_table_trans: "same_table t d d' \<Longrightarrow> same_table t d' d'' \<Longrightarrow> same_table t d d''"
  by (cases t) simp_all

lemma db_write_frame: "db_write c d d' \<Longrightarrow> t \<notin> set (writes c) \<Longrightarrow> same_table t d d'"
  by (induction rule: db_write.induct; cases t)
    (auto simp: insert_transfer_Inr insert_event_def insert_outbox_def upsert_account_def mark_published_def
      dest!: insert_all_Inr update_transfer_Inr split: option.splits if_splits)

interpretation table_frame: world_invariant U E "\<lambda>w. same_table t d (db w)" "\<lambda>c. t \<notin> set (writes c)"
  for U E t d
  by unfold_locales (blast intro: same_table_trans db_write_frame [OF perform_db_write])

text \<open>The four processes as threads, and the tables each may write: the API creates transfers with their
  events and messages, the worker moves them and posts to the ledger, the relay marks messages, the
  reconciler only reads.\<close>

datatype process_kind = API | Worker | Relay | Reconciler

primrec may_write :: "process_kind \<Rightarrow> table list" where
  "may_write API = [T_transfers, T_transfer_events, T_outbox]"
| "may_write Worker = [T_ledger_entries, T_transfers, T_transfer_events, T_outbox]"
| "may_write Relay = [T_outbox]"
| "may_write Reconciler = []"

inductive process :: "uuid_lib \<Rightarrow> chi \<Rightarrow> process_kind \<Rightarrow> unit prog \<Rightarrow> bool" for U :: uuid_lib and ch :: chi where
  process_api: "p \<in> set (api_threads U getenv L ch rs) \<Longrightarrow> process U ch API p"
| process_worker: "process U ch Worker (thread (worker_run U getenv L fs))"
| process_relay: "process U ch Relay (thread (relay_run getenv L es))"
| process_reconciler: "process U ch Reconciler (thread (reconciler_run getenv L es))"

lemma process_writes:
  assumes "process U ch k p" and "t \<notin> set (may_write k)"
  shows "all_calls (\<lambda>c. t \<notin> set (writes c)) p"
  using assms
proof (induction rule: process.induct)
  case (process_api p getenv L rs)
  then have "all_calls (\<lambda>c. t \<notin> set (writes c)) (ServeHTTP U ch r)" for r
    by (intro ServeHTTP_calls top_handler_calls Handle_calls) simp_all
  with process_api show ?case by (auto simp: api_threads_def thread_def all_calls_map split: if_splits)
next
  case (process_worker getenv L fs)
  then have "all_calls (\<lambda>c. t \<notin> set (writes c)) (Execute U i)" for i by (intro Execute_calls) simp_all
  then show ?case
    by (auto simp: thread_def all_calls_map worker_run_def
        intro!: check_calls Subscribe_all_calls worker_handler_all_calls split: sum.split)
next
  case (process_relay getenv L es)
  then have "all_calls (\<lambda>c. t \<notin> set (writes c)) (relay relay_batchSize)" by (intro relay_calls) simp_all
  then show ?case by (auto simp: thread_def all_calls_map relay_run_def intro!: check_calls ticker_loop_calls)
next
  case (process_reconciler getenv L es)
  have "all_calls (\<lambda>c. t \<notin> set (writes c)) reconcile" by (rule reconcile_calls) simp
  then show ?case by (auto simp: thread_def all_calls_map reconciler_run_def intro!: check_calls ticker_loop_calls)
qed

end
