(* ===== verification/Live_System.thy ===== *)
theory Live_System
  imports Interfaces
begin

text \<open>
  The system in operation: threads are spawned while others run. Requests arrive, the relay polls, the
  broker delivers messages of its stream to workers, as often and in whatever order it likes, and the
  reconciler audits; every thread interleaves call by call with all others. A worker thread handles a
  message that the broker holds at the time of its delivery, so what flows through outbox and stream
  can be followed: \<open>carried\<close> is the invariant that all messages in both satisfy a predicate.
\<close>

section \<open>Threads that come and go\<close>

inductive live ::
  "uuid_lib \<Rightarrow> 's services \<Rightarrow> chi \<Rightarrow> ('s \<Rightarrow> message list) \<Rightarrow> 's system \<Rightarrow> 's system \<Rightarrow> bool"
  for U :: uuid_lib and E :: "'s services" and ch :: chi and stream :: "'s \<Rightarrow> message list" where
  live_call: "pool_step U E s s' \<Longrightarrow> live U E ch stream s s'"
| live_request: "live U E ch stream (ps, w) (ps @ [thread (ServeHTTP U ch r)], w)"
| live_poll: "live U E ch stream (ps, w) (ps @ [thread (relay n)], w)"
| live_deliver: "m \<in> set (stream (ext w)) \<Longrightarrow>
    live U E ch stream (ps, w) (ps @ [thread (worker_handler U (msg_Subject m) (msg_Data m))], w)"
| live_audit: "live U E ch stream (ps, w) (ps @ [thread reconcile], w)"

text \<open>What JetStream documents: the stream holds nothing that was not published to it. The bank and the
  cache have no part in it.\<close>

definition stream_grows :: "'s services \<Rightarrow> ('s \<Rightarrow> message list) \<Rightarrow> bool" where
  "stream_grows E stream \<longleftrightarrow>
     (\<forall>subject payload s. set (stream (snd (ext_js_Publish E subject payload s))) \<subseteq>
        insert \<lparr>msg_Subject = subject, msg_Data = payload\<rparr> (set (stream s))) \<and>
     (\<forall>req s. set (stream (snd (ext_bank E req s))) \<subseteq> set (stream s)) \<and>
     (\<forall>key s. set (stream (snd (ext_redis_GET E key s))) \<subseteq> set (stream s)) \<and>
     (\<forall>key v ttl s. set (stream (snd (ext_redis_SETNX E key v ttl s))) \<subseteq> set (stream s))"

section \<open>What outbox and stream carry\<close>

fun carries :: "(string \<Rightarrow> bytes \<Rightarrow> bool) \<Rightarrow> call \<Rightarrow> bool" where
  "carries P (C_Outbox_Write s (Some p)) = P s p"
| "carries P (C_Publish s p) = P s p"
| "carries P c = True"

fun carried_reply :: "(string \<Rightarrow> bytes \<Rightarrow> bool) \<Rightarrow> call \<Rightarrow> reply \<Rightarrow> bool" where
  "carried_reply P (C_Outbox_Pending n) (R_Outbox (Inr rows)) = (\<forall>row \<in> set rows. P (o_Subject row) (o_Payload row))"
| "carried_reply P c r = returns c r"

definition outbox_all :: "(string \<Rightarrow> bytes \<Rightarrow> bool) \<Rightarrow> database \<Rightarrow> bool" where
  "outbox_all P d \<longleftrightarrow> (\<forall>r \<in> set (outbox d). P (ob_subject r) (ob_payload r))"

definition stream_all :: "(string \<Rightarrow> bytes \<Rightarrow> bool) \<Rightarrow> message list \<Rightarrow> bool" where
  "stream_all P ms \<longleftrightarrow> (\<forall>m \<in> set ms. P (msg_Subject m) (msg_Data m))"

lemma db_write_outbox: "db_write c d d' \<Longrightarrow> carries P c \<Longrightarrow> outbox_all P d \<Longrightarrow> outbox_all P d'"
  by (induction rule: db_write.induct)
    (auto simp: outbox_all_def insert_transfer_Inr insert_event_def insert_outbox_def upsert_account_def
      mark_published_def dest!: insert_all_Inr update_transfer_Inr split: option.splits if_splits)

lemma perform_stream:
  assumes "stream_grows E stream" and "carries P c" and "stream_all P (stream (ext w))"
  shows "stream_all P (stream (ext (snd (perform U E c w))))"
proof (cases "\<exists>s p. c = C_Publish s p")
  case True
  then obtain s p where c: "c = C_Publish s p" by blast
  have "set (stream (snd (ext_js_Publish E s p (ext w)))) \<subseteq>
      insert \<lparr>msg_Subject = s, msg_Data = p\<rparr> (set (stream (ext w)))"
    using assms(1) by (simp add: stream_grows_def)
  with assms(2,3) show ?thesis
    by (auto simp: c on_ext_def Publisher_Publish_def stream_all_def split_def Let_def)
next
  case False
  with perform_ext [of U E c w] assms(1) have "set (stream (ext (snd (perform U E c w)))) \<subseteq> set (stream (ext w))"
    by (auto simp: stream_grows_def call_ext_def simp del: perform.simps split: call.splits)
  with assms(3) show ?thesis by (auto simp: stream_all_def simp del: perform.simps)
qed

lemma perform_carried:
  assumes "outbox_all P (db w)"
  shows "carried_reply P c (fst (perform U E c w))"
proof (cases "\<exists>n. c = C_Outbox_Pending n")
  case True
  then obtain n where c: "c = C_Outbox_Pending n" by blast
  obtain rep w1 where p: "perform U E (C_Outbox_Pending n) w = (rep, w1)" by fastforce
  have "is_R_Outbox rep" using perform_returns [of "C_Outbox_Pending n" U E w] p by (simp del: perform.simps)
  then obtain x where x: "rep = R_Outbox x" by (auto simp: is_R_Outbox_def)
  have "P (o_Subject row) (o_Payload row)" if "x = Inr rows" "row \<in> set rows" for rows row
    using relay_query(2) [OF p] pending_rows_row [of row n "db w"] assms that
    by (fastforce simp: x outbox_all_def)
  then show ?thesis using p unfolding c x by (cases x) (simp_all del: perform.simps)
next
  case False
  then show ?thesis
    using perform_returns [of c U E w] by (cases c) (simp_all del: perform.simps)
qed

interpretation carried: reply_invariant U E
  "\<lambda>w. outbox_all P (db w) \<and> (stream_grows E stream \<longrightarrow> stream_all P (stream (ext w)))" "carries P" "carried_reply P"
  for U E stream P
  by unfold_locales
    (auto intro: db_write_outbox [OF perform_db_write] perform_stream perform_carried)

lemma relay_rows_guarded:
  "\<forall>row \<in> set rows. P (o_Subject row) (o_Payload row) \<Longrightarrow> guarded (carried_reply P) (carries P) (relay_rows rows)"
  by (induction rows) (auto simp: Publish_def Outbox_MarkPublished_def split: option.split)

lemma relay_guarded: "guarded (carried_reply P) (carries P) (relay n)"
proof -
  have "guarded (carried_reply P) (carries P)
      (case r_outbox r of Inl err \<Rightarrow> Return (Some err)
       | Inr pending \<Rightarrow> if pending = [] then Return None else relay_rows pending)"
    if "carried_reply P (C_Outbox_Pending n) r" for r
    using that relay_rows_guarded [of _ P] by (cases r; auto split: sum.split; cases "r_outbox r"; auto)
  then show ?thesis by (simp add: relay_def Outbox_Pending_def)
qed

section \<open>Messages the worker rejects\<close>

text \<open>A message is junk when the handler fails on it before making any call.\<close>

definition junk :: "uuid_lib \<Rightarrow> string \<Rightarrow> bytes \<Rightarrow> bool" where
  "junk U subject payload \<longleftrightarrow>
     (case worker_handler U subject payload of Return err \<Rightarrow> err \<noteq> None | Call c k \<Rightarrow> False)"

lemma junk_handler: "junk U subject payload \<Longrightarrow> \<exists>err. worker_handler U subject payload = Return (Some err)"
  by (auto simp: junk_def split: prog.splits)

lemma requested_junk:
  assumes "uuid_Parse U [] = Inl e" and "evt_payload U ev = Some payload"
  shows "junk U subject payload"
  using requested_rejected [OF assms(2,1), of subject] by (auto simp: junk_def)

text \<open>No call of a request writes to the ledger or moves a transfer, and its message is junk.\<close>

fun dormant_call :: "call \<Rightarrow> bool" where
  "dormant_call (C_PostEntries es) = False"
| "dormant_call (C_Transfers_UpdateState t) = False"
| "dormant_call (C_Transfers_Save t) = (t_State t = StatePending)"
| "dormant_call c = True"

lemma db_write_dormant:
  "db_write c d d' \<Longrightarrow> dormant_call c \<Longrightarrow> \<forall>r \<in> set (transfers d). tr_state r = StatePending \<Longrightarrow>
     ledger_entries d' = ledger_entries d \<and> (\<forall>r \<in> set (transfers d'). tr_state r = StatePending)"
  by (induction rule: db_write.induct)
    (auto simp: insert_transfer_Inr transfer_row_of_def insert_event_def insert_outbox_def upsert_account_def
      mark_published_def split: option.splits if_splits)

interpretation dormant: world_invariant U E
  "\<lambda>w. ledger_entries (db w) = entries \<and> (\<forall>r \<in> set (transfers (db w)). tr_state r = StatePending)" dormant_call
  for U E entries
  by unfold_locales (use db_write_dormant [OF perform_db_write] in blast)

lemma ServeHTTP_dormant: "all_calls dormant_call (ServeHTTP U ch r)"
  by (intro ServeHTTP_calls top_handler_calls Handle_calls) simp_all

lemma ServeHTTP_junk:
  assumes "uuid_Parse U [] = Inl e"
  shows "all_calls (carries (junk U)) (ServeHTTP U ch r)"
proof -
  have "carries (junk U) (C_Outbox_Write s (evt_payload U ev))" for s ev
    using requested_junk [OF assms, of ev] by (cases "evt_payload U ev") simp_all
  then show ?thesis by (intro ServeHTTP_calls top_handler_calls Handle_calls) simp_all
qed

definition asleep :: "uuid_lib \<Rightarrow> unit prog \<Rightarrow> bool" where
  "asleep U p \<longleftrightarrow> guarded (carried_reply (junk U)) (carries (junk U)) p \<and> all_calls dormant_call p"

lemma asleep_threads:
  "uuid_Parse U [] = Inl e \<Longrightarrow> asleep U (thread (ServeHTTP U ch r))"
  "asleep U (thread (relay n))" "asleep U (thread reconcile)"
  "junk U s p \<Longrightarrow> asleep U (thread (worker_handler U s p))"
proof -
  show "asleep U (thread (relay n))"
    by (simp add: asleep_def thread_def relay_guarded all_calls_map relay_calls)
  show "asleep U (thread reconcile)"
    by (auto simp: asleep_def thread_def all_calls_map intro!: all_calls_guarded reconcile_calls)
  show "asleep U (thread (ServeHTTP U ch r))" if "uuid_Parse U [] = Inl e"
    using ServeHTTP_junk [OF that] ServeHTTP_dormant
    by (auto simp: asleep_def thread_def all_calls_map intro!: all_calls_guarded)
  show "asleep U (thread (worker_handler U s p))" if "junk U s p"
    using junk_handler [OF that] by (auto simp: asleep_def thread_def)
qed

text \<open>The state of a system in which every message is junk and nothing has moved.\<close>

definition idle :: "uuid_lib \<Rightarrow> ('s \<Rightarrow> message list) \<Rightarrow> ledger_row list \<Rightarrow> 's system \<Rightarrow> bool" where
  "idle U stream entries s \<longleftrightarrow>
     list_all (asleep U) (fst s) \<and>
     outbox_all (junk U) (db (snd s)) \<and> stream_all (junk U) (stream (ext (snd s))) \<and>
     ledger_entries (db (snd s)) = entries \<and> (\<forall>r \<in> set (transfers (db (snd s))). tr_state r = StatePending)"

lemma live_idle:
  assumes "live U E ch stream s s'" and "uuid_Parse U [] = Inl e" and "stream_grows E stream"
    and "idle U stream entries s"
  shows "idle U stream entries s'"
  using assms(1,4)
proof (induction rule: live.induct)
  case (live_call s s')
  obtain ps w ps' w' where s: "s = (ps, w)" and s': "s' = (ps', w')" by (cases s; cases s')
  have "list_all (guarded (carried_reply (junk U)) (carries (junk U))) ps'"
    "outbox_all (junk U) (db w') \<and> stream_all (junk U) (stream (ext w'))"
    using carried.guarded_pool_step [OF live_call.hyps [unfolded s s'], of "junk U" stream] live_call.prems assms(3)
    by (simp_all add: s idle_def asleep_def list_all_iff)
  moreover have "list_all (all_calls dormant_call) ps'"
    "ledger_entries (db w') = entries \<and> (\<forall>r \<in> set (transfers (db w')). tr_state r = StatePending)"
    using dormant.pool_step_keeps [OF live_call.hyps [unfolded s s'], of entries] live_call.prems
    by (simp_all add: s idle_def asleep_def list_all_iff)
  ultimately show ?case by (simp add: s' idle_def asleep_def list_all_iff)
qed (auto simp: idle_def stream_all_def asleep_threads(1) [OF assms(2)] asleep_threads(2-4))

text \<open>
  (C11) As shipped, no transfer made through the API is ever executed: start with any database in which
  all transfers are PENDING and any messages the worker rejects (none, on a fresh installation); then
  whatever requests arrive, however often the relay polls and the broker delivers or redelivers, in any
  interleaving and under any faults, the ledger stays as it is and every transfer stays PENDING.
\<close>

theorem api_transfers_never_run:
  assumes "uuid_Parse U [] = Inl e" and "stream_grows E stream"
    and "outbox_all (junk U) (db w)" and "stream_all (junk U) (stream (ext w))"
    and "\<forall>r \<in> set (transfers (db w)). tr_state r = StatePending"
    and "(live U E ch stream)\<^sup>*\<^sup>* ([], w) (ps', w')"
  shows "ledger_entries (db w') = ledger_entries (db w) \<and>
    (\<forall>r \<in> set (transfers (db w')). tr_state r = StatePending)"
proof -
  have "idle U stream (ledger_entries (db w)) s'" if "(live U E ch stream)\<^sup>*\<^sup>* ([], w) s'" for s'
    using that by induction (use assms(3-5) live_idle [OF _ assms(1,2)] in \<open>auto simp: idle_def\<close>)
  from this [OF assms(6)] show ?thesis by (simp add: idle_def)
qed

text \<open>A broker with its stream as the state of the outside world, for the examples: it takes the subjects of
  the worker's stream and refuses others; the bank gives a constant answer and the cache is empty.\<close>

definition broker_services :: "(go_error + BankCallResult) \<Rightarrow> message list services" where
  "broker_services answer = \<lparr>ext_bank = (\<lambda>req s. (answer, s)),
     ext_redis_GET = (\<lambda>key s. (Inl (Sentinel (LibErr goredis_Nil)), s)),
     ext_redis_SETNX = (\<lambda>key v ttl s. (Inr True, s)),
     ext_js_Publish = (\<lambda>subject p s.
       if subject \<in> set worker_subjects then (None, s @ [\<lparr>msg_Subject = subject, msg_Data = p\<rparr>])
       else (Some (Errorf ''nats: no response from stream'' None), s))\<rparr>"

lemma broker_grows: "stream_grows (broker_services answer) id"
  by (auto simp: stream_grows_def broker_services_def)

lemma pool_steps_live: "pool_steps U E s s' \<Longrightarrow> (live U E ch stream)\<^sup>*\<^sup>* s s'"
  by (induction rule: pool_steps.induct) (auto intro: rtranclp.rtrancl_into_rtrancl live.intros)

text \<open>A request and a poll of the relay that take turns.\<close>

definition demo_live :: "message list system" where
  "demo_live = run_schedule decimal_uuid (broker_services (Inl driver_error)) (concat (replicate 20 [0, 0, 1]))
     ([thread (ServeHTTP decimal_uuid demo_chi
         (demo_request ''POST'' ''/v1/transfers'' [(''Idempotency-Key'', ''n'')] demo_body)), thread (relay 100)],
      demo_world_at [] [] [])"

theorem api_transfers_never_run_witness:
  "ledger_entries (db (snd demo_live)) = ledger_entries (demo_db []) \<and>
   list_all (\<lambda>r. tr_state r = StatePending) (transfers (db (snd demo_live)))"
proof -
  let ?E = "broker_services (Inl driver_error)" and ?w = "demo_world_at [] [] []"
  let ?r = "thread (ServeHTTP decimal_uuid demo_chi
    (demo_request ''POST'' ''/v1/transfers'' [(''Idempotency-Key'', ''n'')] demo_body))"
  have "(live decimal_uuid ?E demo_chi id)\<^sup>*\<^sup>* ([], ?w) ([?r, thread (relay 100)], ?w)"
    using live_request [of decimal_uuid ?E demo_chi id "[]" ?w] live_poll [of decimal_uuid ?E demo_chi id "[?r]" ?w 100]
    by (auto intro: converse_rtranclp_into_rtranclp)
  moreover have "(live decimal_uuid ?E demo_chi id)\<^sup>*\<^sup>* ([?r, thread (relay 100)], ?w) (fst demo_live, snd demo_live)"
    unfolding demo_live_def prod.collapse by (intro pool_steps_live run_schedule_steps)
  ultimately have "(live decimal_uuid ?E demo_chi id)\<^sup>*\<^sup>* ([], ?w) (fst demo_live, snd demo_live)" by simp
  from api_transfers_never_run [OF decimal_no_uuid broker_grows _ _ _ this] show ?thesis
    by (simp add: outbox_all_def stream_all_def list_all_iff) (simp add: demo_db_def)
qed

end
