(* ===== verification/Pipeline.thy ===== *)
theory Pipeline
  imports Live_System
begin

text \<open>
  From the outbox back to the saga: in each round the relay publishes what is pending, the broker
  delivers it, together with what was negatively acknowledged before, and the worker handles message
  after message, which writes the next messages to the outbox. On a healthy database every transfer
  whose debit is posted and whose message is in the outbox reaches a final state in three rounds, any
  number of transfers side by side, whatever other messages there are that the worker rejects.
\<close>

section \<open>A round\<close>

text \<open>What JetStream documents for a stream with the worker's subjects: a publication to one of them is
  stored last and acknowledged, any other has no stream and fails.\<close>

definition stream_broker :: "'s services \<Rightarrow> ('s \<Rightarrow> message list) \<Rightarrow> bool" where
  "stream_broker E stream \<longleftrightarrow>
     (\<forall>subject payload s.
        (if subject \<in> set worker_subjects
         then fst (ext_js_Publish E subject payload s) = None \<and>
              stream (snd (ext_js_Publish E subject payload s)) =
                stream s @ [\<lparr>msg_Subject = subject, msg_Data = payload\<rparr>]
         else fst (ext_js_Publish E subject payload s) \<noteq> None \<and>
              stream (snd (ext_js_Publish E subject payload s)) = stream s)) \<and>
     (\<forall>req s. stream (snd (ext_bank E req s)) = stream s)"

definition delivery :: "message \<Rightarrow> fetch" where
  "delivery m = \<lparr>f_done = False, f_next = Inr m, f_ctx_Err = False\<rparr>"

text \<open>One round: a poll of the relay, then the worker's loop over the messages that were not acknowledged
  before and those that are new in the stream. The result has the messages to deliver again.\<close>

definition round :: "uuid_lib \<Rightarrow> 's services \<Rightarrow> ('s \<Rightarrow> message list) \<Rightarrow> nat \<Rightarrow>
    message list \<times> 's world \<Rightarrow> message list \<times> 's world" where
  "round U E stream n bw =
     (let (backlog, w) = bw;
          w1 = snd (run U E (relay n) w);
          ms = backlog @ drop (length (stream (ext w))) (stream (ext w1));
          ((said, _), w2) = run U E (consume (worker_handler U) (map delivery ms)) w1
      in (map fst (filter (\<lambda>(m, d). d = Nak) said), w2))"

primrec rounds :: "uuid_lib \<Rightarrow> 's services \<Rightarrow> ('s \<Rightarrow> message list) \<Rightarrow> nat \<Rightarrow> nat \<Rightarrow>
    message list \<times> 's world \<Rightarrow> message list \<times> 's world" where
  "rounds U E stream n 0 bw = bw"
| "rounds U E stream n (Suc k) bw = rounds U E stream n k (round U E stream n bw)"

section \<open>The relay's half\<close>

definition streamed :: "outbox_table_row \<Rightarrow> bool" where
  "streamed r \<longleftrightarrow> ob_subject r \<in> set worker_subjects"

definition message_in :: "outbox_table_row \<Rightarrow> message" where
  "message_in r = \<lparr>msg_Subject = ob_subject r, msg_Data = ob_payload r\<rparr>"

text \<open>Nothing but outbox, stream and time has changed.\<close>

definition relayed :: "'s world \<Rightarrow> 's world \<Rightarrow> bool" where
  "relayed w w' \<longleftrightarrow>
     faults w' = faults w \<and> accounts (db w') = accounts (db w) \<and> ledger_entries (db w') = ledger_entries (db w) \<and>
     transfers (db w') = transfers (db w) \<and> transfer_events (db w') = transfer_events (db w) \<and>
     rand w' = rand w \<and> drawn w' = drawn w \<and> clock w' = clock w"

lemma relayed_steady: "steady U b w \<Longrightarrow> relayed w w' \<Longrightarrow> db_wf (db w') \<Longrightarrow> steady U b w'"
  by (simp add: steady_def relayed_def fresh_def good_clock_def)

lemma mark_relayed:
  assumes "faults w = []"
  shows "\<exists>w' now. run U E (Outbox_MarkPublished i k) w = run U E (k None) w' \<and> relayed w w' \<and> ext w' = ext w \<and>
    db w' = mark_published now i (db w)"
  using assms
  by (auto simp: Outbox_MarkPublished_def read_clock_def relay_mark_def sql_exec_nofault plain_error_def
      relayed_def mark_published_def intro!: exI)

lemma relay_rows_stream:
  assumes "stream_broker E stream" and "faults w = []"
  shows "\<exists>w'. run U E (relay_rows rows) w = (None, w') \<and> relayed w w' \<and>
    stream (ext w') = stream (ext w) @
      map (\<lambda>row. \<lparr>msg_Subject = o_Subject row, msg_Data = o_Payload row\<rparr>)
        (filter (\<lambda>row. o_Subject row \<in> set worker_subjects) rows) \<and>
    pending_outbox (db w') = filter (\<lambda>r. \<forall>row \<in> set rows. o_Subject row \<in> set worker_subjects \<longrightarrow> ob_id r \<noteq> o_ID row)
      (pending_outbox (db w))"
  using assms(2)
proof (induction rows arbitrary: w)
  case Nil
  then show ?case by (simp add: relayed_def)
next
  case (Cons row rows)
  obtain err s where pub: "ext_js_Publish E (o_Subject row) (o_Payload row) (ext w) = (err, s)" by fastforce
  show ?case
  proof (cases "o_Subject row \<in> set worker_subjects")
    case True
    then have ok: "err = None" "stream s = stream (ext w) @ [\<lparr>msg_Subject = o_Subject row, msg_Data = o_Payload row\<rparr>]"
      using assms(1) pub unfolding stream_broker_def by (metis fst_conv, metis snd_conv)
    obtain w1 now where w1: "run U E (Outbox_MarkPublished (o_ID row) (\<lambda>err. relay_rows rows)) (w\<lparr>ext := s\<rparr>) =
        run U E (relay_rows rows) w1" "relayed (w\<lparr>ext := s\<rparr>) w1" "ext w1 = s"
        "db w1 = mark_published now (o_ID row) (db w)"
      using mark_relayed [of "w\<lparr>ext := s\<rparr>" U E "o_ID row" "\<lambda>err. relay_rows rows"] Cons.prems by auto
    have "faults w1 = []" using w1(2) Cons.prems by (simp add: relayed_def)
    from Cons.IH [OF this] obtain w' where w': "run U E (relay_rows rows) w1 = (None, w')" "relayed w1 w'"
      "stream (ext w') = stream s @ map (\<lambda>row. \<lparr>msg_Subject = o_Subject row, msg_Data = o_Payload row\<rparr>)
        (filter (\<lambda>row. o_Subject row \<in> set worker_subjects) rows)"
      "pending_outbox (db w') = filter (\<lambda>r. \<forall>row \<in> set rows. o_Subject row \<in> set worker_subjects \<longrightarrow> ob_id r \<noteq> o_ID row)
        (pending_outbox (db w1))"
      unfolding w1(3) by blast
    have "run U E (relay_rows (row # rows)) w = (None, w')"
      using pub ok w1(1) w'(1) by (simp add: Publish_def on_ext_def Publisher_Publish_def)
    moreover have "relayed w w'" using w1(2) w'(2) by (simp add: relayed_def)
    ultimately show ?thesis
      using True ok w' by (auto simp: w1(4) pending_mark intro!: filter_cong)
  next
    case False
    then have no: "err \<noteq> None" "stream s = stream (ext w)"
      using assms(1) pub unfolding stream_broker_def by (metis fst_conv, metis snd_conv)
    have "faults (w\<lparr>ext := s\<rparr>) = []" using Cons.prems by simp
    from Cons.IH [OF this] obtain w' where w': "run U E (relay_rows rows) (w\<lparr>ext := s\<rparr>) = (None, w')"
      "relayed (w\<lparr>ext := s\<rparr>) w'"
      "stream (ext w') = stream s @ map (\<lambda>row. \<lparr>msg_Subject = o_Subject row, msg_Data = o_Payload row\<rparr>)
        (filter (\<lambda>row. o_Subject row \<in> set worker_subjects) rows)"
      "pending_outbox (db w') = filter (\<lambda>r. \<forall>row \<in> set rows. o_Subject row \<in> set worker_subjects \<longrightarrow> ob_id r \<noteq> o_ID row)
        (pending_outbox (db w))"
      by auto
    have "run U E (relay_rows (row # rows)) w = (None, w')"
      using pub no(1) w'(1) by (auto simp: Publish_def on_ext_def Publisher_Publish_def)
    moreover have "relayed w w'" using w'(2) by (simp add: relayed_def)
    ultimately show ?thesis using False no(2) w' by auto
  qed
qed

text \<open>A poll publishes what the stream takes of the first batch, and leaves the rest.\<close>

lemma relay_poll:
  assumes "stream_broker E stream" and nf: "faults w = []" and wf: "db_wf (db w)"
  obtains w' where "run U E (relay n) w = (None, w')" and "relayed w w'" and "db_wf (db w')"
    and "stream (ext w') = stream (ext w) @ map message_in (filter streamed (take n (pending_outbox (db w))))"
    and "pending_outbox (db w') =
      filter (\<lambda>r. \<not> streamed r) (take n (pending_outbox (db w))) @ drop n (pending_outbox (db w))"
proof -
  let ?pending = "pending_outbox (db w)" and ?batch = "take n (pending_outbox (db w))"
  let ?row = "\<lambda>r. \<lparr>o_ID = ob_id r, o_Subject = ob_subject r, o_Payload = ob_payload r\<rparr>"
  let ?left = "\<lambda>r. \<forall>row \<in> set (map ?row ?batch). o_Subject row \<in> set worker_subjects \<longrightarrow> ob_id r \<noteq> o_ID row"
  have rows: "pending_rows n (db w) = map ?row ?batch" by (rule pending_rows_take [OF wf])
  obtain w' where w': "run U E (relay_rows (map ?row ?batch)) w = (None, w')" "relayed w w'"
    "stream (ext w') = stream (ext w) @
      map (\<lambda>row. \<lparr>msg_Subject = o_Subject row, msg_Data = o_Payload row\<rparr>)
        (filter (\<lambda>row. o_Subject row \<in> set worker_subjects) (map ?row ?batch))"
    "pending_outbox (db w') = filter ?left ?pending"
    using relay_rows_stream [OF assms(1) nf, of U "map ?row ?batch"] by blast
  have "distinct (map ob_id (?batch @ drop n ?pending))" using pending_ids [OF wf] by simp
  then have dist: "distinct (map ob_id ?batch)" "ob_id ` set ?batch \<inter> ob_id ` set (drop n ?pending) = {}"
    unfolding map_append distinct_append by simp_all
  have "x = y" if "x \<in> set ?batch" "y \<in> set ?batch" "ob_id x = ob_id y" for x y
    using dist(1) that by (auto simp: distinct_map dest: inj_onD)
  then have "filter ?left ?batch = filter (\<lambda>r. \<not> streamed r) ?batch"
    by (intro filter_cong) (auto simp: streamed_def)
  moreover have "filter ?left (drop n ?pending) = drop n ?pending"
    using dist(2) by (intro filter_True) auto
  moreover have "filter ?left ?pending = filter ?left ?batch @ filter ?left (drop n ?pending)"
    by (simp only: filter_append [symmetric] append_take_drop_id)
  ultimately have "pending_outbox (db w') = filter (\<lambda>r. \<not> streamed r) ?batch @ drop n ?pending"
    unfolding w'(4) by simp
  moreover have run: "run U E (relay n) w = (None, w')"
    using nf w'(1) by (auto simp: relay_def Outbox_Pending_def relay_pending_def sql_exec_nofault rows)
  moreover have "db_wf (db w')" using schema.run_keeps [of "relay n" w U E] wf run by simp
  moreover have "stream (ext w') = stream (ext w) @ map message_in (filter streamed ?batch)"
    unfolding w'(3) by (simp add: filter_map comp_def message_in_def [abs_def] streamed_def [abs_def])
  ultimately show ?thesis using that w'(2) by blast
qed

lemma relay_stream:
  assumes "stream_broker E stream" and nf: "faults w = []" and wf: "db_wf (db w)"
    and n: "length (pending_outbox (db w)) \<le> n"
  obtains w' where "run U E (relay n) w = (None, w')" and "relayed w w'" and "db_wf (db w')"
    and "stream (ext w') = stream (ext w) @ map message_in (filter streamed (pending_outbox (db w)))"
    and "pending_outbox (db w') = filter (\<lambda>r. \<not> streamed r) (pending_outbox (db w))"
  using relay_poll [OF assms(1-3), of U n] n by (metis append_Nil2 drop_all take_all)

text \<open>As long as the rows that the stream does not take are fewer than a batch, every poll publishes some of
  the others.\<close>

lemma turns_stream:
  assumes "stream_broker E stream" and "faults w = []" and "db_wf (db w)"
    and "length (filter (\<lambda>r. \<not> streamed r) (pending_outbox (db w))) = u"
    and "length (filter streamed (pending_outbox (db w))) \<le> k * (n - u)"
  shows "stream (ext (turns U E (relay n) k w)) =
      stream (ext w) @ map message_in (filter streamed (pending_outbox (db w))) \<and>
    pending_outbox (db (turns U E (relay n) k w)) = filter (\<lambda>r. \<not> streamed r) (pending_outbox (db w))"
  using assms(2-5)
proof (induction k arbitrary: w)
  case 0
  then have "filter streamed (pending_outbox (db w)) = []" by simp
  then have "filter (\<lambda>r. \<not> streamed r) (pending_outbox (db w)) = pending_outbox (db w)"
    by (auto simp: filter_empty_conv filter_id_conv)
  with 0 show ?case by simp
next
  case (Suc k)
  let ?P = "pending_outbox (db w)"
  have parts: "filter Q ?P = filter Q (take n ?P) @ filter Q (drop n ?P)" for Q
    by (simp only: filter_append [symmetric] append_take_drop_id)
  obtain w' where w': "run U E (relay n) w = (None, w')" "relayed w w'" "db_wf (db w')"
    "stream (ext w') = stream (ext w) @ map message_in (filter streamed (take n ?P))"
    "pending_outbox (db w') = filter (\<lambda>r. \<not> streamed r) (take n ?P) @ drop n ?P"
    by (rule relay_poll [OF assms(1) Suc.prems(1,2)])
  have left: "filter (\<lambda>r. \<not> streamed r) (pending_outbox (db w')) = filter (\<lambda>r. \<not> streamed r) ?P"
    and rest: "filter streamed (pending_outbox (db w')) = filter streamed (drop n ?P)"
    unfolding w'(5) parts [of "\<lambda>r. \<not> streamed r"] by (simp_all add: filter_empty_conv)
  have "length (filter streamed (drop n ?P)) \<le> k * (n - u)"
  proof (cases "length ?P \<le> n")
    case True
    then show ?thesis by simp
  next
    case False
    then have "length (filter streamed (take n ?P)) + length (filter (\<lambda>r. \<not> streamed r) (take n ?P)) = n"
      using sum_length_filter_compl [of streamed "take n ?P"] by simp
    moreover have "length (filter (\<lambda>r. \<not> streamed r) (take n ?P)) \<le> u"
      using Suc.prems(3) parts [of "\<lambda>r. \<not> streamed r"] by simp
    ultimately show ?thesis using Suc.prems(4) parts [of streamed] by simp
  qed
  moreover have "faults w' = []" using w'(2) Suc.prems(1) by (simp add: relayed_def)
  ultimately show ?case
    using Suc.IH [of w'] w'(1,3,4) left rest Suc.prems(3) parts [of streamed] by simp
qed

section \<open>The worker's half\<close>

text \<open>The transfer a message is about, as the worker decodes it.\<close>

definition addressee :: "uuid_lib \<Rightarrow> message \<Rightarrow> TransferID option" where
  "addressee U m =
     (case Unmarshal_object msg_tags (msg_Data m) of
        Inl err \<Rightarrow> None
      | Inr kvs \<Rightarrow>
          (case ParseTransferID U (string_field ''transfer_id'' kvs []) of Inl err \<Rightarrow> None | Inr i \<Rightarrow> Some i))"

lemma addressee_handler:
  "addressee U m = Some i \<Longrightarrow> worker_handler U s (msg_Data m) = Execute U i"
  "addressee U m = None \<Longrightarrow> \<exists>err. worker_handler U s (msg_Data m) = Return (Some err)"
  by (auto simp: addressee_def worker_handler_def split: sum.splits)

lemma addressee_message:
  assumes "uuid_ok U" and "msg_Data m = message_of U r ev ts"
  shows "addressee U m = Some (TransferID (tr_id r))"
  using assms
  by (simp add: addressee_def message_of_def Unmarshal_object_def msg_tags_def fields_fit_def message_names
      ParseTransferID_def)

text \<open>A transfer in flight: debited and not compensating, its float account in place. \<open>stage\<close> counts the
  steps it has ahead.\<close>

definition flight :: "database \<Rightarrow> transfer_row \<Rightarrow> bool" where
  "flight d r \<longleftrightarrow>
     tr_state r \<in> {StateDebited, StateBankCalled, StateCredited, StateCompleted, StateFailed} \<and>
     (tr_state r = StateDebited \<longrightarrow> tr_debit_posted r \<and> \<not> tr_credit_posted r) \<and>
     has_account d (acc_uuid (row_float r)) \<and> row_float r \<noteq> row_src r \<and> row_float r \<noteq> row_dst r"

fun stage :: "State \<Rightarrow> nat" where
  "stage StateDebited = 3"
| "stage StateBankCalled = 2"
| "stage StateCredited = 1"
| "stage s = 0"

definition past_bank :: "State \<Rightarrow> bool" where
  "past_bank s \<longleftrightarrow> s \<in> {StateBankCalled, StateCredited, StateCompleted}"

lemma flight_ends: "flight d r \<Longrightarrow> stage (tr_state r) = 0 \<Longrightarrow>
    tr_state r = StateCompleted \<or> \<not> past_bank (tr_state r) \<and> tr_state r = StateFailed"
  by (auto simp: flight_def past_bank_def)

lemma flight_accounts: "accounts d' = accounts d \<Longrightarrow> flight d' r = flight d r"
  using has_account_accounts [of d' d] by (simp add: flight_def)

text \<open>Transfers in flight stay in flight, never go back, and never miss the end they have reached.\<close>

definition forward :: "transfer_row \<Rightarrow> transfer_row \<Rightarrow> bool" where
  "forward r r' \<longleftrightarrow>
     stage (tr_state r') \<le> stage (tr_state r) \<and> (past_bank (tr_state r) \<longrightarrow> past_bank (tr_state r'))"

definition evolves :: "database \<Rightarrow> database \<Rightarrow> bool" where
  "evolves d d' \<longleftrightarrow>
     (\<forall>i r. transfer_at d i = Some r \<longrightarrow> flight d r \<longrightarrow>
        (\<exists>r'. transfer_at d' i = Some r' \<and> flight d' r' \<and> forward r r'))"

lemma evolves_same: "transfers d' = transfers d \<Longrightarrow> accounts d' = accounts d \<Longrightarrow> evolves d d'"
  using flight_accounts [of d' d] by (simp add: evolves_def transfer_at_def forward_def)

lemma evolves_trans: "evolves d d' \<Longrightarrow> evolves d' d'' \<Longrightarrow> evolves d d''"
  unfolding evolves_def forward_def by (meson order_trans)

text \<open>What one step of the saga, taken for a transfer in flight, leaves behind.\<close>

definition stepped ::
  "uuid_lib \<Rightarrow> TransferID \<Rightarrow> transfer_row \<Rightarrow> outbox_table_row list \<Rightarrow> database \<Rightarrow> database \<Rightarrow> bool" where
  "stepped U i r new d d' \<longleftrightarrow>
     evolves d d' \<and> pending_outbox d' = pending_outbox d @ new \<and> length new \<le> 1 \<and>
     (\<forall>row \<in> set new. addressee U (message_in row) = Some i) \<and>
     (\<exists>r'. transfer_at d' i = Some r' \<and> flight d' r' \<and> stage (tr_state r') \<le> stage (tr_state r) - 1 \<and>
        (stage (tr_state r') = 0 \<or> list_ex streamed new))"

lemma row_moved_stepped:
  assumes m: "row_moved U b i r' ev w w'" and at: "transfer_at (db w) i = Some r" and fl: "flight (db w) r'"
    and ok: "uuid_ok U" and id: "tr_id r' = tr_uuid i"
    and st: "stage (tr_state r') \<le> stage (tr_state r) - 1" "past_bank (tr_state r) \<Longrightarrow> past_bank (tr_state r')"
      "stage (tr_state r') = 0 \<or> event_string ev \<in> set worker_subjects"
  shows "\<exists>new. stepped U i r new (db w) (db w')"
proof -
  obtain n ts where n: "outbox (db w') = outbox (db w) @ [n]" "ob_subject n = event_string ev"
    "ob_status n = OutboxPending" "ob_payload n = message_of U r' ev ts"
    using m by (auto simp: row_moved_def announced_def)
  have at': "transfer_at (db w') j = (if j = i then Some r' else transfer_at (db w) j)" for j
    using m by (simp add: row_moved_def)
  have fl': "flight (db w') x = flight (db w) x" for x
    by (rule flight_accounts) (rule row_moved_accounts [OF m])
  have "evolves (db w) (db w')" using at fl st(1,2) by (auto simp: evolves_def at' fl' forward_def)
  moreover have "addressee U (message_in n) = Some i"
    using addressee_message [OF ok, of "message_in n" r' ev ts] n(4) id by (cases i) (simp add: message_in_def)
  moreover have "stage (tr_state r') = 0 \<or> list_ex streamed [n]" using st(3) n(2) by (simp add: streamed_def)
  ultimately show ?thesis
    using n fl st(1) by (intro exI [of _ "[n]"]) (simp add: stepped_def at' fl' pending_outbox_def)
qed

lemma execute_stepped:
  assumes br: "stream_broker E stream" and st: "steady U (4 + b) w" and at: "transfer_at (db w) i = Some r"
    and fl: "flight (db w) r"
  obtains w' new where "run U E (Execute U i) w = (None, w')" and "steady U b w'"
    and "stream (ext w') = stream (ext w)" and "stepped U i r new (db w) (db w')"
proof -
  have ok: "uuid_ok U" by (rule steady_fresh(2) [OF st])
  have id: "tr_id r = tr_uuid i" using steady_row [OF st at] by simp
  have float: "has_account (db w) (acc_uuid (row_float r))" "row_float r \<noteq> row_src r" "row_float r \<noteq> row_dst r"
    using fl by (simp_all add: flight_def)
  have bank: "stream (snd (ext_bank E req s)) = stream s" for req s
    using br by (simp add: stream_broker_def)
  note result = that
  have finish: thesis
    if "run U E (Execute U i) w = (None, w')" "row_moved U b i r' ev w w'" "stream (ext w') = stream (ext w)"
      "flight (db w) r'" "tr_id r' = tr_id r" "stage (tr_state r') \<le> stage (tr_state r) - 1"
      "past_bank (tr_state r) \<longrightarrow> past_bank (tr_state r')"
      "stage (tr_state r') = 0 \<or> event_string ev \<in> set worker_subjects" for w' r' ev
    using row_moved_stepped [OF that(2) at that(4) ok _ that(6) _ that(8)] that(1-3,5,7) id
      row_moved_end [OF that(2)] result by auto
  note rows = flight_def past_bank_def after_bank_def after_credit_def after_complete_def after_refusal_def
    worker_subjects_def
  consider "tr_state r = StateDebited" | "tr_state r = StateBankCalled" | "tr_state r = StateCredited"
    | "terminal (tr_state r)"
    using fl by (auto simp: flight_def)
  then show ?thesis
  proof cases
    case 1
    then have flags: "tr_debit_posted r" "\<not> tr_credit_posted r" using fl by (simp_all add: flight_def)
    obtain ans x where ans: "ext_bank E (bank_request U r) (ext w) = (ans, x)" by fastforce
    have x: "stream x = stream (ext w)" using bank [of "bank_request U r" "ext w"] ans by simp
    show ?thesis
    proof (cases ans)
      case (Inl err)
      show ?thesis
        by (rule execute_bank_fail [OF st at 1 flags float(1,2) ans [unfolded Inl]])
          (erule (1) finish; use 1 float x in \<open>simp add: rows\<close>)
    next
      case (Inr res)
      show ?thesis
        by (rule execute_bank_ok [OF st at 1 ans [unfolded Inr]])
          (erule (1) finish; use 1 float x in \<open>simp add: rows\<close>)
    qed
  next
    case 2
    show ?thesis
      by (rule execute_credit [OF st at 2 float(1,3), of E]) (erule (1) finish; use 2 float in \<open>simp add: rows\<close>)
  next
    case 3
    show ?thesis by (rule execute_complete [OF st at 3, of E]) (erule (1) finish; use 3 float in \<open>simp add: rows\<close>)
  next
    case 4
    have "stepped U i r [] (db w) (db w)"
      using 4 at fl evolves_same [of "db w" "db w"] by (auto simp: stepped_def)
    then show ?thesis using that [of w "[]"] execute_terminal [OF st at 4, of E] steady_less [OF st, of b] by simp
  qed
qed

text \<open>Every message the worker can read is about a transfer in flight.\<close>

definition sound :: "uuid_lib \<Rightarrow> database \<Rightarrow> message \<Rightarrow> bool" where
  "sound U d m \<longleftrightarrow>
     (case addressee U m of None \<Rightarrow> True | Some i \<Rightarrow> (\<exists>r. transfer_at d i = Some r \<and> flight d r))"

lemma sound_evolves: "sound U d m \<Longrightarrow> evolves d d' \<Longrightarrow> sound U d' m"
  by (fastforce simp: sound_def evolves_def split: option.splits)

definition addressed :: "uuid_lib \<Rightarrow> message list \<Rightarrow> TransferID list" where
  "addressed U ms = List.map_filter (addressee U) ms"

lemma addressed_simps [simp]:
  "addressed U [] = []"
  "addressed U (m # ms) = (case addressee U m of None \<Rightarrow> addressed U ms | Some i \<Rightarrow> i # addressed U ms)"
  "addressed U (ms @ ms') = addressed U ms @ addressed U ms'"
  by (induction ms) (auto simp: addressed_def map_filter_simps split: option.split)

lemma addressed_length: "length (addressed U ms) \<le> length ms"
  by (induction ms) (auto split: option.split)

lemma addressed_none: "\<forall>m \<in> set ms. addressee U m = None \<Longrightarrow> addressed U ms = []"
  by (induction ms) simp_all

lemma addressed_mem: "i \<in> set (addressed U ms) \<longleftrightarrow> (\<exists>m \<in> set ms. addressee U m = Some i)"
  by (induction ms) (auto split: option.split)

text \<open>What the worker leaves after handling messages: each transfer that had one is a step further, with its
  next message in the outbox, or has ended.\<close>

definition waiting :: "uuid_lib \<Rightarrow> outbox_table_row list \<Rightarrow> TransferID \<Rightarrow> bool" where
  "waiting U rows i \<longleftrightarrow> (\<exists>row \<in> set rows. streamed row \<and> addressee U (message_in row) = Some i)"

definition handled ::
  "uuid_lib \<Rightarrow> message list \<Rightarrow> outbox_table_row list \<Rightarrow> database \<Rightarrow> database \<Rightarrow> bool" where
  "handled U ms new d d' \<longleftrightarrow>
     evolves d d' \<and> pending_outbox d' = pending_outbox d @ new \<and> length new \<le> length (addressed U ms) \<and>
     (\<forall>row \<in> set new. sound U d' (message_in row)) \<and>
     (\<forall>i r. i \<in> set (addressed U ms) \<longrightarrow> transfer_at d i = Some r \<longrightarrow> flight d r \<longrightarrow>
        (\<exists>r'. transfer_at d' i = Some r' \<and> stage (tr_state r') \<le> stage (tr_state r) - 1 \<and>
           (stage (tr_state r') = 0 \<or> waiting U new i)))"

lemma handled_junk: "addressee U m = None \<Longrightarrow> handled U ms new d d' \<Longrightarrow> handled U (m # ms) new d d'"
  by (simp add: handled_def)

lemma handled_Cons:
  assumes m: "addressee U m = Some i" and r: "transfer_at d i = Some r" "flight d r"
    and step: "stepped U i r n1 d d1" and rest: "handled U ms n2 d1 d'"
  shows "handled U (m # ms) (n1 @ n2) d d'"
proof -
  have ev: "evolves d d1" "evolves d1 d'" using step rest by (simp_all add: stepped_def handled_def)
  obtain r1 where r1: "transfer_at d1 i = Some r1" "flight d1 r1" "stage (tr_state r1) \<le> stage (tr_state r) - 1"
    "stage (tr_state r1) = 0 \<or> list_ex streamed n1"
    using step by (auto simp: stepped_def)
  have n1: "\<forall>row \<in> set n1. addressee U (message_in row) = Some i" using step by (simp add: stepped_def)
  have way: "waiting U n1 i" if "list_ex streamed n1" using that n1 by (auto simp: waiting_def list_ex_iff)
  have more: "waiting U (n1 @ n2) j" if "waiting U n1 j \<or> waiting U n2 j" for j
    using that by (auto simp: waiting_def)
  have "sound U d1 (message_in row)" if "row \<in> set n1" for row
    using n1 that r1 by (simp add: sound_def)
  then have snd: "\<forall>row \<in> set (n1 @ n2). sound U d' (message_in row)"
    using rest sound_evolves [OF _ ev(2)] by (auto simp: handled_def)
  have "\<exists>r'. transfer_at d' j = Some r' \<and> stage (tr_state r') \<le> stage (tr_state rj) - 1 \<and>
      (stage (tr_state r') = 0 \<or> waiting U (n1 @ n2) j)"
    if j: "j \<in> set (addressed U (m # ms))" "transfer_at d j = Some rj" "flight d rj" for j rj
  proof (cases "j = i")
    case True
    obtain r' where "transfer_at d' i = Some r'" "forward r1 r'" using ev(2) r1(1,2) unfolding evolves_def by blast
    with True j(2) r(1) r1(3,4) way more show ?thesis by (auto simp: forward_def)
  next
    case False
    obtain rj1 where "transfer_at d1 j = Some rj1" "flight d1 rj1" "forward rj rj1"
      using ev(1) j(2,3) unfolding evolves_def by blast
    with False j(1) m rest more show ?thesis unfolding handled_def forward_def by fastforce
  qed
  with snd show ?thesis
    using ev step rest m evolves_trans [OF ev] by (auto simp: handled_def stepped_def)
qed

lemma consume_delivery:
  assumes "run U E (h (msg_Subject m) (msg_Data m)) w = (err, w1)"
    and "run U E (consume h (map delivery ms)) w1 = ((said, returned), w2)"
  shows "run U E (consume h (map delivery (m # ms))) w =
    (((m, case err of Some e \<Rightarrow> Nak | None \<Rightarrow> Ack) # said, returned), w2)"
proof -
  have "f_done (delivery m) = False" "f_next (delivery m) = Inr m" by (simp_all add: delivery_def)
  then show ?thesis using assms by (simp add: run_bind run_map)
qed

lemma consume_handled:
  assumes br: "stream_broker E stream"
  shows "steady U (4 * length (addressed U ms) + b) w \<Longrightarrow> \<forall>m \<in> set ms. sound U (db w) m \<Longrightarrow>
    \<exists>said w' new. run U E (consume (worker_handler U) (map delivery ms)) w = ((said, False), w') \<and> steady U b w' \<and>
      stream (ext w') = stream (ext w) \<and> handled U ms new (db w) (db w') \<and>
      (\<forall>m. (m, Nak) \<in> set said \<longrightarrow> addressee U m = None)"
proof (induction ms arbitrary: w)
  case Nil
  then show ?case using evolves_same [of "db w" "db w"] by (simp add: handled_def)
next
  case (Cons m ms)
  let ?rest = "consume (worker_handler U) (map delivery ms)"
  show ?case
  proof (cases "addressee U m")
    case None
    then obtain err where h: "worker_handler U (msg_Subject m) (msg_Data m) = Return (Some err)"
      using addressee_handler(2) by blast
    obtain said w' new where "run U E ?rest w = ((said, False), w')" "steady U b w'" "stream (ext w') = stream (ext w)"
      "handled U ms new (db w) (db w')" "\<forall>m. (m, Nak) \<in> set said \<longrightarrow> addressee U m = None"
      using Cons.IH [of w] Cons.prems None by auto
    moreover from this(1) h
    have "run U E (consume (worker_handler U) (map delivery (m # ms))) w = (((m, Nak) # said, False), w')"
      using consume_delivery [of U E "worker_handler U" m w "Some err" w] by simp
    ultimately show ?thesis using None handled_junk [OF None, of ms new] by auto
  next
    case (Some i)
    obtain r where r: "transfer_at (db w) i = Some r" "flight (db w) r"
      using Cons.prems(2) Some by (auto simp: sound_def)
    have st: "steady U (4 + (4 * length (addressed U ms) + b)) w"
      using Cons.prems(1) Some by (simp add: algebra_simps)
    obtain w1 n1 where w1: "run U E (Execute U i) w = (None, w1)" "steady U (4 * length (addressed U ms) + b) w1"
      "stream (ext w1) = stream (ext w)" "stepped U i r n1 (db w) (db w1)"
      by (rule execute_stepped [OF br st r])
    have "\<forall>m \<in> set ms. sound U (db w1) m"
      using Cons.prems(2) w1(4) by (auto simp: stepped_def intro: sound_evolves)
    from Cons.IH [OF w1(2) this] obtain said w' new where w': "run U E ?rest w1 = ((said, False), w')" "steady U b w'"
      "stream (ext w') = stream (ext w1)" "handled U ms new (db w1) (db w')"
      "\<forall>m. (m, Nak) \<in> set said \<longrightarrow> addressee U m = None" by blast
    have "run U E (consume (worker_handler U) (map delivery (m # ms))) w = (((m, Ack) # said, False), w')"
      using w1(1) w'(1) addressee_handler(1) [OF Some] consume_delivery [of U E "worker_handler U" m w None w1] by simp
    moreover have "handled U (m # ms) (n1 @ new) (db w) (db w')" by (rule handled_Cons [OF Some r w1(4) w'(4)])
    ultimately show ?thesis using w1(3) w'(2,3,5) by auto
  qed
qed

section \<open>Round after round\<close>

text \<open>The invariant of the rounds, and where a transfer on its way stands.\<close>

definition flowing :: "uuid_lib \<Rightarrow> nat \<Rightarrow> message list \<times> 's world \<Rightarrow> bool" where
  "flowing U p bw \<longleftrightarrow>
     (\<forall>m \<in> set (fst bw). addressee U m = None) \<and> length (pending_outbox (db (snd bw))) \<le> p \<and>
     (\<forall>row \<in> set (pending_outbox (db (snd bw))). streamed row \<longrightarrow> sound U (db (snd bw)) (message_in row))"

definition on_way :: "uuid_lib \<Rightarrow> database \<Rightarrow> TransferID \<Rightarrow> nat \<Rightarrow> bool" where
  "on_way U d i k \<longleftrightarrow>
     (\<exists>r. transfer_at d i = Some r \<and> flight d r \<and> stage (tr_state r) \<le> k \<and>
        (stage (tr_state r) = 0 \<or> waiting U (pending_outbox d) i))"

lemma round_run:
  assumes br: "stream_broker E stream" and fl: "flowing U p (backlog, w)" and p: "p \<le> n"
    and st: "steady U (4 * p + b) w" and rd: "round U E stream n (backlog, w) = (backlog', w')"
    and rows: "rows = filter streamed (pending_outbox (db w))"
  obtains d1 new where "transfers d1 = transfers (db w)" and "accounts d1 = accounts (db w)"
    and "pending_outbox d1 = filter (\<lambda>r. \<not> streamed r) (pending_outbox (db w))"
    and "handled U (map message_in rows) new d1 (db w')" and "steady U b w'"
    and "\<forall>m \<in> set backlog'. addressee U m = None"
proof -
  let ?ms = "backlog @ map message_in rows"
  have nf: "faults w = []" and wf: "db_wf (db w)" using st by (simp_all add: steady_def)
  have len: "length (pending_outbox (db w)) \<le> p" and junk: "\<forall>m \<in> set backlog. addressee U m = None"
    and ok: "\<forall>row \<in> set rows. sound U (db w) (message_in row)"
    using fl by (simp_all add: flowing_def rows)
  obtain w1 where w1: "run U E (relay n) w = (None, w1)" "relayed w w1" "db_wf (db w1)"
    "stream (ext w1) = stream (ext w) @ map message_in rows"
    "pending_outbox (db w1) = filter (\<lambda>r. \<not> streamed r) (pending_outbox (db w))"
    unfolding rows by (rule relay_stream [OF br nf wf, of n]) (use len p in auto)
  have same: "transfers (db w1) = transfers (db w)" "accounts (db w1) = accounts (db w)"
    using w1(2) by (simp_all add: relayed_def)
  have adr: "addressed U ?ms = addressed U (map message_in rows)" by (simp add: addressed_none [OF junk])
  have "length rows \<le> p" unfolding rows using len length_filter_le order_trans by blast
  then have "length (addressed U ?ms) \<le> p"
    using adr addressed_length [of U "map message_in rows"] by simp
  then have "steady U (4 * length (addressed U ?ms) + b) w" by (intro steady_less [OF st]) simp
  then have st1: "steady U (4 * length (addressed U ?ms) + b) w1" by (rule relayed_steady [OF _ w1(2,3)])
  have "\<forall>m \<in> set ?ms. sound U (db w1) m"
    using junk ok sound_evolves [OF _ evolves_same [OF same]] by (auto simp: sound_def)
  from consume_handled [OF br st1 this] obtain said w2 new
    where w2: "run U E (consume (worker_handler U) (map delivery ?ms)) w1 = ((said, False), w2)" "steady U b w2"
      "handled U ?ms new (db w1) (db w2)" "\<forall>m. (m, Nak) \<in> set said \<longrightarrow> addressee U m = None" by blast
  have "w' = w2" "backlog' = map fst (filter (\<lambda>(m, d). d = Nak) said)"
    using rd w1(1,4) w2(1) by (simp_all add: round_def)
  moreover have "handled U (map message_in rows) new (db w1) (db w2)" using w2(3) adr by (simp add: handled_def)
  ultimately show ?thesis using that [of "db w1" new] same w1(5) w2(2,4) by auto
qed

lemma round_flows:
  assumes br: "stream_broker E stream" and fl: "flowing U p (backlog, w)" and p: "p \<le> n"
    and st: "steady U (4 * p + b) w" and rd: "round U E stream n (backlog, w) = (backlog', w')"
  shows "flowing U p (backlog', w')" and "steady U b w'" and "evolves (db w) (db w')"
    and "on_way U (db w) i (Suc k) \<Longrightarrow> on_way U (db w') i k"
proof -
  let ?rows = "filter streamed (pending_outbox (db w))"
  obtain d1 new where same: "transfers d1 = transfers (db w)" "accounts d1 = accounts (db w)"
    and pend1: "pending_outbox d1 = filter (\<lambda>r. \<not> streamed r) (pending_outbox (db w))"
    and hd: "handled U (map message_in ?rows) new d1 (db w')" and st': "steady U b w'"
    and junk: "\<forall>m \<in> set backlog'. addressee U m = None"
    by (rule round_run [OF assms refl])
  have ev2: "evolves d1 (db w')" and pend: "pending_outbox (db w') = pending_outbox d1 @ new"
    and new: "length new \<le> length ?rows" "\<forall>row \<in> set new. sound U (db w') (message_in row)"
    using hd addressed_length [of U "map message_in ?rows"] by (simp_all add: handled_def)
  show "steady U b w'" by (rule st')
  show ev: "evolves (db w) (db w')" by (rule evolves_trans [OF evolves_same [OF same] ev2])
  have "length (pending_outbox (db w')) \<le> length (pending_outbox (db w))"
    using new(1) sum_length_filter_compl [of streamed "pending_outbox (db w)"] by (simp add: pend pend1)
  then show "flowing U p (backlog', w')"
    using fl junk new(2) by (auto simp: flowing_def pend pend1)
  assume "on_way U (db w) i (Suc k)"
  then obtain r where r: "transfer_at (db w) i = Some r" "flight (db w) r" "stage (tr_state r) \<le> Suc k"
    "stage (tr_state r) = 0 \<or> waiting U (pending_outbox (db w)) i"
    by (auto simp: on_way_def)
  obtain r' where r': "transfer_at (db w') i = Some r'" "flight (db w') r'" "forward r r'"
    using ev r(1,2) unfolding evolves_def by blast
  show "on_way U (db w') i k"
  proof (cases "stage (tr_state r) = 0")
    case True
    with r' show ?thesis by (auto simp: on_way_def forward_def)
  next
    case False
    then have "i \<in> set (addressed U (map message_in ?rows))"
      using r(4) unfolding addressed_mem waiting_def by auto
    moreover have "transfer_at d1 i = Some r" "flight d1 r"
      using r(1,2) same flight_accounts [OF same(2)] by (simp_all add: transfer_at_def)
    ultimately have "stage (tr_state r') \<le> stage (tr_state r) - 1 \<and> (stage (tr_state r') = 0 \<or> waiting U new i)"
      using hd r'(1) unfolding handled_def by fastforce
    with r(3) r' show ?thesis by (auto simp: on_way_def pend waiting_def)
  qed
qed

lemma rounds_flow:
  assumes "stream_broker E stream" and "p \<le> n"
  shows "flowing U p bw \<Longrightarrow> steady U (j * (4 * p) + b) (snd bw) \<Longrightarrow> on_way U (db (snd bw)) i (j + k) \<Longrightarrow>
    on_way U (db (snd (rounds U E stream n j bw))) i k \<and>
    evolves (db (snd bw)) (db (snd (rounds U E stream n j bw)))"
proof (induction j arbitrary: bw)
  case 0
  then show ?case by (simp add: evolves_same)
next
  case (Suc j)
  obtain backlog w where bw: "bw = (backlog, w)" by fastforce
  obtain backlog' w' where rd: "round U E stream n (backlog, w) = (backlog', w')" by fastforce
  have st: "steady U (4 * p + (j * (4 * p) + b)) w" using Suc.prems(2) by (simp add: bw algebra_simps)
  note step = round_flows [OF assms(1) Suc.prems(1) [unfolded bw] assms(2) st rd]
  have "on_way U (db w') i (j + k)" using step(4) [of i "j + k"] Suc.prems(3) by (simp add: bw)
  with Suc.IH [of "(backlog', w')"] step(1,2) have
    "on_way U (db (snd (rounds U E stream n j (backlog', w')))) i k"
    "evolves (db w') (db (snd (rounds U E stream n j (backlog', w'))))" by simp_all
  with evolves_trans [OF step(3)] rd show ?case by (simp add: bw)
qed

section \<open>Properties\<close>

text \<open>
  (C5) Transfers in flight finish: on a healthy database, with a broker that keeps the worker's stream and
  any answers of the bank, every transfer that is past its debit and has its message in the outbox is
  COMPLETED or FAILED after three rounds of relay, broker and worker, and COMPLETED if the bank had
  accepted it. Any number of transfers up to a batch may be on their way at once, in any order, next to
  messages that are never streamed and messages the worker rejects for ever.
\<close>

theorem in_flight_transfers_finish:
  assumes br: "stream_broker E stream" and st: "steady U (12 * length (pending_outbox (db w))) w"
    and few: "length (pending_outbox (db w)) \<le> relay_batchSize"
    and ok: "\<forall>row \<in> set (pending_outbox (db w)). streamed row \<longrightarrow> sound U (db w) (message_in row)"
    and at: "transfer_at (db w) i = Some r" "flight (db w) r" "waiting U (pending_outbox (db w)) i"
  shows "\<exists>r'. transfer_at (db (snd (rounds U E stream relay_batchSize 3 ([], w)))) i = Some r' \<and>
    (tr_state r' = StateCompleted \<or> \<not> past_bank (tr_state r) \<and> tr_state r' = StateFailed)"
proof -
  let ?p = "length (pending_outbox (db w))" and ?w' = "snd (rounds U E stream relay_batchSize 3 ([], w))"
  have "flowing U ?p ([], w)" using ok by (simp add: flowing_def)
  moreover have "steady U (3 * (4 * ?p) + 0) (snd ([], w))" using st by simp
  moreover have "on_way U (db (snd ([], w))) i (3 + 0)"
    using at by (cases "tr_state r") (auto simp: on_way_def)
  ultimately have way: "on_way U (db ?w') i 0" and ev: "evolves (db w) (db ?w')"
    using rounds_flow [OF br few, of U "([], w)" 3 0 i 0] by simp_all
  obtain r' where r': "transfer_at (db ?w') i = Some r'" "flight (db ?w') r'" "forward r r'"
    using ev at(1,2) unfolding evolves_def by blast
  moreover have "stage (tr_state r') = 0" using way r'(1) by (auto simp: on_way_def)
  ultimately show ?thesis using flight_ends [of "db ?w'" r'] by (auto simp: forward_def)
qed

text \<open>Two transfers, one past the bank and one before it, with their messages and one that is no JSON.\<close>

definition demo_past :: transfer_row where
  "demo_past = (demo_row 20 ''k'' 300)\<lparr>tr_state := StateBankCalled, tr_debit_posted := True, tr_version := 3\<rparr>"

definition demo_before :: transfer_row where
  "demo_before = (demo_row 21 ''l'' 100)\<lparr>tr_state := StateDebited, tr_debit_posted := True, tr_version := 2\<rparr>"

definition demo_pending :: "outbox_table_row list" where
  "demo_pending =
     [demo_message,
      demo_message\<lparr>ob_id := 2, ob_subject := ''transfer.bank_called'',
        ob_payload := message_of decimal_uuid demo_past EventTransferBankCalled JNull\<rparr>,
      demo_message\<lparr>ob_id := 3, ob_payload := message_of decimal_uuid demo_before EventTransferDebited JNull\<rparr>]"

definition demo_flight_world :: "message list world" where
  "demo_flight_world = (demo_world_at [] [demo_past, demo_before] [])
     \<lparr>db := (demo_db [demo_past, demo_before])\<lparr>outbox := demo_pending, outbox_seq := 4\<rparr>\<rparr>"

lemma demo_flight_steady: "k \<le> 100 \<Longrightarrow> steady decimal_uuid k demo_flight_world"
proof -
  assume "k \<le> 100"
  moreover have "demo_rows_ok [demo_past, demo_before]"
    by (simp add: demo_rows_ok_def demo_past_def demo_before_def row_ok_def nchars_def)
  ultimately have "steady decimal_uuid k (demo_world_at [] [demo_past, demo_before] [])" by (intro demo_steady)
  then show ?thesis
    by (auto simp: steady_def fresh_def good_clock_def demo_flight_world_def db_wf_def demo_pending_def demo_message_def)
qed

lemma demo_broker: "stream_broker (broker_services answer) id"
  by (simp add: stream_broker_def broker_services_def)

lemma demo_flight_facts:
  "pending_outbox (db demo_flight_world) = demo_pending" "length demo_pending = 3"
  "transfer_at (db demo_flight_world) (TransferID 20) = Some demo_past"
  "transfer_at (db demo_flight_world) (TransferID 21) = Some demo_before"
  "flight (db demo_flight_world) demo_past" "flight (db demo_flight_world) demo_before"
  "tr_id demo_past = 20" "tr_id demo_before = 21"
  by (simp_all add: demo_flight_world_def pending_outbox_def demo_pending_def demo_message_def transfer_at_def
      demo_db_def demo_past_def demo_before_def flight_def demo_facts has_account_def demo_account_def)

lemma demo_addressees:
  "map (addressee decimal_uuid \<circ> message_in) demo_pending = [None, Some (TransferID 20), Some (TransferID 21)]"
proof -
  have "addressee decimal_uuid (message_in demo_message) = None"
    by (simp add: addressee_def message_in_def demo_message_def Unmarshal_object_def)
  moreover have "addressee decimal_uuid (message_in (demo_pending ! 1)) = Some (TransferID (tr_id demo_past))"
    "addressee decimal_uuid (message_in (demo_pending ! 2)) = Some (TransferID (tr_id demo_before))"
    by (rule addressee_message [OF decimal_uuid_ok]; simp add: message_in_def demo_pending_def)+
  ultimately show ?thesis by (simp add: demo_flight_facts) (simp add: demo_pending_def)
qed

theorem in_flight_transfers_finish_witness:
  "map_option tr_state (transfer_at (db (snd (rounds decimal_uuid (broker_services (Inl driver_error)) id
     relay_batchSize 3 ([], demo_flight_world)))) (TransferID 20)) = Some StateCompleted"
proof -
  have "\<forall>row \<in> set demo_pending. sound decimal_uuid (db demo_flight_world) (message_in row)"
    using demo_addressees by (simp add: sound_def demo_pending_def demo_flight_facts)
  moreover have "waiting decimal_uuid demo_pending (TransferID 20)"
    using demo_addressees by (simp add: waiting_def demo_pending_def streamed_def worker_subjects_def)
  moreover have "past_bank (tr_state demo_past)" by (simp add: past_bank_def demo_past_def demo_before_def)
  ultimately show ?thesis
    using in_flight_transfers_finish [OF demo_broker demo_flight_steady _ _ demo_flight_facts(3,5)]
    by (auto simp: demo_flight_facts relay_batchSize_def)
qed

text \<open>
  (C24) The relay drains the outbox into the stream: started on a healthy database, with a broker that
  keeps the worker's stream, the process has after enough ticks published every pending message whose
  subject the stream takes, each once, in the order of the outbox and nothing else, and has marked these
  rows and no others. A tick is worth a batch of one hundred less the rows that the stream refuses and that
  stay pending, so the latter must be fewer than a batch.
\<close>

theorem relay_process_drains:
  assumes "starts getenv L" and "stream_broker E stream" and "db_wf (db w)" and "faults w = []"
    and "u = length (filter (\<lambda>r. \<not> streamed r) (pending_outbox (db w)))"
    and "length (filter streamed (pending_outbox (db w))) \<le> ticks_before es * (100 - u)"
    and "w' = snd (run U E (relay_run getenv L es) w)"
  shows "stream (ext w') = stream (ext w) @ map message_in (filter streamed (pending_outbox (db w))) \<and>
    pending_outbox (db w') = filter (\<lambda>r. \<not> streamed r) (pending_outbox (db w))"
proof -
  have "w' = turns U E (relay relay_batchSize) (ticks_before es) w"
    using assms(1,7)
    by (auto simp: relay_run_def check_def starts_def NewPublisher_def ticker_loop_run split: sum.splits)
  with turns_stream [OF assms(2,4,3) assms(5) [symmetric], of "ticks_before es" relay_batchSize U] assms(6)
  show ?thesis by (simp add: relay_batchSize_def)
qed

theorem relay_process_drains_witness:
  "\<exists>w'. w' = snd (run decimal_uuid (broker_services (Inl driver_error))
      (relay_run (\<lambda>_. []) demo_libraries [Tick, CtxDone]) demo_flight_world) \<and>
    ext w' = map message_in demo_pending \<and> pending_outbox (db w') = []"
proof -
  have "starts (\<lambda>_. []) demo_libraries" by (simp add: starts_def demo_libraries_def)
  moreover have "steady decimal_uuid 1 demo_flight_world" by (rule demo_flight_steady) simp
  moreover have "list_all streamed demo_pending"
    by (simp add: demo_pending_def streamed_def worker_subjects_def demo_message_def)
  then have "filter streamed demo_pending = demo_pending" "filter (\<lambda>r. \<not> streamed r) demo_pending = []"
    by (simp_all add: list_all_iff)
  moreover have "ext demo_flight_world = []" by (simp add: demo_flight_world_def)
  ultimately show ?thesis
    using relay_process_drains [OF _ demo_broker _ _ refl _ refl, of "\<lambda>_. []" demo_libraries demo_flight_world
        "[Tick, CtxDone]" decimal_uuid "Inl driver_error"]
    by (simp add: demo_flight_facts steady_def ticks_before_def)
qed

end
