(* ===== verification/Acknowledged.thy ===== *)
theory Acknowledged
  imports Live_System
begin

text \<open>
  What an answer without an error is worth. The locale \<open>error_reporting\<close> is the interface: a call either
  reports an error or did in this world what it does in the healed one, the world without faults.
  A program is \<open>strict\<close> when it ends in a bad result after every such report; then a good result means
  that no fault got in the way of any of its statements. The worker's handler is strict, so an
  acknowledged message was handled as on a healthy database, and so is the command handler.
\<close>

section \<open>The interface\<close>

primrec strict :: "(call \<Rightarrow> reply \<Rightarrow> bool) \<Rightarrow> ('r \<Rightarrow> bool) \<Rightarrow> 'r prog \<Rightarrow> bool" where
  "strict failed good (Return x) = True"
| "strict failed good (Call c k) =
     (\<forall>r. returns c r \<longrightarrow>
        strict failed good (k r) \<and> (failed c r \<longrightarrow> yields returns (\<lambda>x. \<not> good x) (k r)))"

lemma strict_map: "strict failed good (map_prog f p) = strict failed (\<lambda>x. good (f x)) p"
  by (induction p) (auto simp: yields_map)

lemma strict_never: "strict failed good p \<Longrightarrow> (\<And>x. good' x \<Longrightarrow> good x) \<Longrightarrow> strict failed good' p"
  by (induction p) (auto elim!: yields_mono)

text \<open>A composition is strict when its parts are and no bad intermediate result is made good again.\<close>

lemma strict_bind:
  assumes "strict failed good' p"
    and "\<And>x. strict failed good (f x)" and "\<And>x. \<not> good' x \<Longrightarrow> yields returns (\<lambda>y. \<not> good y) (f x)"
  shows "strict failed good (prog_bind p f)"
  using assms by (induction p) (auto intro: yields_bind)

locale error_reporting =
  fixes U :: uuid_lib and E :: "'s services" and failed :: "call \<Rightarrow> reply \<Rightarrow> bool"
    and healed :: "'s world \<Rightarrow> 's world"
  assumes reports: "perform U E c w = (r, w') \<Longrightarrow> failed c r \<or> perform U E c (healed w) = (r, healed w')"
begin

lemma strict_run:
  "strict failed good p \<Longrightarrow> run U E p w = (x, w') \<Longrightarrow> good x \<Longrightarrow> run U E p (healed w) = (x, healed w')"
proof (induction p arbitrary: w)
  case (Return y)
  then show ?case by simp
next
  case (Call c k)
  obtain r w1 where p: "perform U E c w = (r, w1)" by fastforce
  have ret: "returns c r" using perform_returns [of c U E w] p by simp
  have rest: "run U E (k r) w1 = (x, w')" using Call.prems(2) p by simp
  have "\<not> failed c r"
    using Call.prems(1,3) ret rest typed.run_yields [of "\<lambda>x. \<not> good x" "k r" U E w1] by auto
  then have "perform U E c (healed w) = (r, healed w1)" using reports [OF p] by blast
  moreover have "run U E (k r) (healed w1) = (x, healed w')"
    using Call.IH [OF _ _ rest Call.prems(3)] Call.prems(1) ret by auto
  ultimately show ?case by simp
qed

end

section \<open>The repositories provide it\<close>

primrec error_reply :: "reply \<Rightarrow> bool" where
  "error_reply (R_Time t) = False"
| "error_reply (R_UUID u) = False"
| "error_reply (R_Err e) = (e \<noteq> None)"
| "error_reply (R_Transfer x) = isl x"
| "error_reply (R_Transfer_opt x) = isl x"
| "error_reply (R_Account x) = isl x"
| "error_reply (R_Money x) = isl x"
| "error_reply (R_Entries x) = isl x"
| "error_reply (R_Events x) = isl x"
| "error_reply (R_Bank x) = isl x"
| "error_reply (R_Cached x) = isl x"
| "error_reply (R_Bool x) = isl x"
| "error_reply (R_Outbox x) = isl x"

fun sql_call :: "call \<Rightarrow> bool" where
  "sql_call C_Now = False"
| "sql_call C_NewUUID = False"
| "sql_call (C_InitiateTransfer req) = False"
| "sql_call (C_Idempotency_Get key) = False"
| "sql_call (C_Idempotency_SetIfAbsent key v ttl) = False"
| "sql_call (C_Publish s p) = False"
| "sql_call c = True"

definition sql_failed :: "call \<Rightarrow> reply \<Rightarrow> bool" where
  "sql_failed c r \<longleftrightarrow> sql_call c \<and> error_reply r"

abbreviation healthy :: "'s world \<Rightarrow> 's world" where
  "healthy w \<equiv> w\<lparr>faults := []\<rparr>"

lemma sql_exec_healthy:
  "fst (next_fault w) = NoFault \<Longrightarrow>
     sql_exec stmt (healthy w) = (fst (sql_exec stmt w), healthy (snd (sql_exec stmt w)))"
  "fst (next_fault w) \<noteq> NoFault \<Longrightarrow> fst (sql_exec stmt w) = Inl driver_error"
  by (auto simp: sql_exec_def next_fault_def split: list.splits fault.splits sum.splits)

lemma next_fault_ticks [simp]: "fst (next_fault (w\<lparr>ticks := n\<rparr>)) = fst (next_fault w)"
  by (simp add: next_fault_def split: list.split)

lemma next_fault_healthy [simp]: "healthy (snd (next_fault w)) = healthy w"
  by (simp add: next_fault_def split: list.split)

lemma tx_inserts_healthy [simp]: "healthy (snd (tx_inserts es w d)) = healthy w"
  by (induction es arbitrary: w d) (auto simp: Let_def split_def split: sum.split)

lemma PostEntries_frame:
  "healthy (snd (LedgerRepo_PostEntries es w)) = (healthy w)\<lparr>db := db (snd (LedgerRepo_PostEntries es w))\<rparr>"
proof -
  let ?w1 = "snd (next_fault w)"
  let ?w3 = "snd (next_fault (snd (tx_inserts es ?w1 (db w))))"
  have swap: "healthy (v\<lparr>db := d\<rparr>) = (healthy v)\<lparr>db := d\<rparr>" for v :: "'a world" and d by simp
  have "healthy ?w3 = healthy w" by simp
  then have "healthy (?w3\<lparr>db := d\<rparr>) = (healthy w)\<lparr>db := d\<rparr>" for d by (simp only: swap)
  then show ?thesis
    by (auto simp: LedgerRepo_PostEntries_def Let_def split_def split: sum.splits fault.splits)
qed

lemma PostEntries_healthy:
  assumes "LedgerRepo_PostEntries es w = (None, w')"
  shows "LedgerRepo_PostEntries es (healthy w) = (None, healthy w')"
  using PostEntries_None [of es w] PostEntries_frame [of es w] assms by (simp add: PostEntries_nofault)

interpretation sql: error_reporting U E sql_failed healthy for U and E :: "'s services"
proof
  fix c and w w' :: "'s world" and r
  assume p: "perform U E c w = (r, w')"
  note repo = TransferRepo_FindByID_def TransferRepo_FindByIdempotencyKey_def TransferRepo_Save_def
    TransferRepo_UpdateState_def AccountRepo_FindByID_def AccountRepo_LockForUpdate_def AccountRepo_Save_def
    LedgerRepo_GetBalance_def LedgerRepo_GetAllEntries_def EventStore_Append_def EventStore_FindByTransferID_def
    OutboxWriter_Write_def relay_pending_def relay_mark_def scanTransfer_def scanAccount_def as_error_def
    plain_error_def
  show "sql_failed c r \<or> perform U E c (healthy w) = (r, healthy w')"
  proof (cases "\<exists>es. c = C_PostEntries es")
    case True
    then obtain es where c: "c = C_PostEntries es" by blast
    obtain err w1 where "LedgerRepo_PostEntries es w = (err, w1)" by fastforce
    with p c have "c = C_PostEntries es" "r = R_Err err" "LedgerRepo_PostEntries es w = (err, w')" by simp_all
    then show ?thesis by (cases err) (simp_all add: sql_failed_def PostEntries_healthy)
  next
    case post: False
    have swap: "healthy (w\<lparr>ticks := n\<rparr>) = (healthy w)\<lparr>ticks := n\<rparr>" for n by simp
    show ?thesis
    proof (cases "fst (next_fault w) = NoFault")
      case True
      with p post show ?thesis
        by (cases c)
          (auto simp: repo split_def Let_def read_clock_def draw_uuid_def on_ext_def sql_exec_healthy(1)
            sql_exec_healthy(1) [of "w\<lparr>ticks := n\<rparr>" for n, unfolded swap])
    next
      case False
      with p post show ?thesis
        by (cases c)
          (auto simp: repo split_def Let_def read_clock_def draw_uuid_def on_ext_def sql_exec_healthy(2)
            sql_failed_def driver_error_def)
    qed
  qed
qed

section \<open>Strict programs\<close>

text \<open>The ports, as rules: after an error of the database only bad results may follow.\<close>

abbreviation "reports_errors good \<equiv> strict sql_failed good"
abbreviation "ends_badly good \<equiv> yields returns (\<lambda>x. \<not> good x)"

lemma strict_ports:
  "(\<And>t. reports_errors good (kt t)) \<Longrightarrow> reports_errors good (Now kt)"
  "(\<And>u. reports_errors good (ku u)) \<Longrightarrow> reports_errors good (NewUUID ku)"
  "(\<And>x. reports_errors good (kb x)) \<Longrightarrow> reports_errors good (InitiateTransfer req kb)"
  "(\<And>x. reports_errors good (kg x)) \<Longrightarrow> reports_errors good (Idempotency_Get key kg)"
  "(\<And>x. reports_errors good (ks x)) \<Longrightarrow> reports_errors good (Idempotency_SetIfAbsent key v ttl ks)"
  "(\<And>x. reports_errors good (kf x)) \<Longrightarrow> (\<And>e. ends_badly good (kf (Inl e))) \<Longrightarrow>
     reports_errors good (Transfers_FindByID i kf)"
  "(\<And>x. reports_errors good (ka x)) \<Longrightarrow> (\<And>e. ends_badly good (ka (Inl e))) \<Longrightarrow>
     reports_errors good (Accounts_FindByID a ka)"
  "(\<And>x. reports_errors good (ka x)) \<Longrightarrow> (\<And>e. ends_badly good (ka (Inl e))) \<Longrightarrow>
     reports_errors good (Accounts_LockForUpdate a ka)"
  "(\<And>x. reports_errors good (km x)) \<Longrightarrow> (\<And>e. ends_badly good (km (Inl e))) \<Longrightarrow>
     reports_errors good (GetBalance a c km)"
  "(\<And>x. reports_errors good (ke x)) \<Longrightarrow> (\<And>e. ends_badly good (ke (Some e))) \<Longrightarrow>
     reports_errors good (Transfers_Save t ke)"
  "(\<And>x. reports_errors good (ke x)) \<Longrightarrow> (\<And>e. ends_badly good (ke (Some e))) \<Longrightarrow>
     reports_errors good (Transfers_UpdateState t ke)"
  "(\<And>x. reports_errors good (ke x)) \<Longrightarrow> (\<And>e. ends_badly good (ke (Some e))) \<Longrightarrow>
     reports_errors good (PostEntries es ke)"
  "(\<And>x. reports_errors good (ke x)) \<Longrightarrow> (\<And>e. ends_badly good (ke (Some e))) \<Longrightarrow>
     reports_errors good (Events_Append ev ke)"
  "(\<And>x. reports_errors good (ke x)) \<Longrightarrow> (\<And>e. ends_badly good (ke (Some e))) \<Longrightarrow>
     reports_errors good (Outbox_Write s b ke)"
  by (auto simp: port_defs sql_failed_def is_R_Err_def is_R_Account_def is_R_Transfer_def is_R_Money_def isl_def)

abbreviation "no_error \<equiv> (\<lambda>err. err = (None :: go_error option))"

lemma publishEvent_strict: "reports_errors no_error (publishEvent U t ev)"
  unfolding publishEvent_def by (auto intro!: strict_ports split: option.split sum.split)

lemma advance_strict: "reports_errors no_error (advance U t s ev)"
  unfolding advance_def by (auto intro!: strict_ports publishEvent_strict split: option.split sum.split)

lemma failWith_strict: "reports_errors no_error (failWith U t reason)"
  unfolding failWith_def Let_def by (auto intro!: strict_ports publishEvent_strict split: option.split sum.split)

lemma newPosting_strict:
  "(\<And>x. reports_errors good (k x)) \<Longrightarrow> reports_errors good (newPosting src dst amount d k)"
  unfolding newPosting_def by (auto intro!: strict_ports)

lemma compensate_strict: "reports_errors no_error (compensate U t)"
proof -
  have "reports_errors no_error (reverseDebit U t)" "reports_errors no_error (reverseCredit U t)"
    unfolding reverseDebit_def reverseCredit_def
    by (auto intro!: newPosting_strict strict_ports split: sum.split)
  then show ?thesis
    unfolding compensate_def by (auto intro!: strict_bind [where good' = no_error] failWith_strict split: option.split)
qed

lemma startCompensation_strict: "reports_errors no_error (startCompensation U t reason)"
  unfolding startCompensation_def Let_def
  by (auto intro!: strict_ports compensate_strict split: option.split sum.split)

lemma Execute_strict: "reports_errors no_error (Execute U i)"
proof -
  have "reports_errors no_error (dispatch U t)" for t
    by (cases "t_State t")
      (auto simp: dispatch_def complete_def reserveDebit_def callBank_def postCredit_def
        intro!: strict_ports newPosting_strict advance_strict failWith_strict compensate_strict startCompensation_strict
        split: option.split sum.split)
  then show ?thesis unfolding Execute_def by (auto intro!: strict_ports split: sum.split)
qed

lemma worker_handler_strict: "reports_errors no_error (worker_handler U subject data)"
  unfolding worker_handler_def by (auto intro: Execute_strict split: sum.split)

abbreviation "accepts \<equiv> (\<lambda>(res :: CreateTransferResult, err). err = (None :: go_error option))"

lemma persist_strict: "reports_errors accepts (persist U t)"
  unfolding persist_def cacheResult_def Let_def
  by (auto simp: strict_map intro!: strict_ports split: option.split sum.split)

lemma Handle_strict: "reports_errors accepts (Handle U cmd)"
proof -
  have check: "reports_errors (\<lambda>x. True) (checkIdempotency key)" for key
    unfolding checkIdempotency_def by (auto intro!: strict_ports split: sum.split option.split)
  have valid: "reports_errors no_error (validateAccounts U src dst)" for src dst
    unfolding validateAccounts_def by (auto intro!: strict_ports split: sum.split option.split)
  show ?thesis
    unfolding Handle_def
    by (auto intro!: strict_bind [OF check] strict_bind [OF valid] strict_ports persist_strict
        split: option.split sum.split)
qed

section \<open>Acknowledged messages\<close>

abbreviation "all_acknowledged \<equiv> (\<lambda>(said, returned :: bool). list_all (\<lambda>(m :: message, d). d = Ack) said)"

lemma consume_strict: "reports_errors all_acknowledged (consume (worker_handler U) fs)"
proof (induction fs)
  case Nil
  then show ?case by simp
next
  case (Cons f fs)
  have "reports_errors all_acknowledged
      (prog_bind (worker_handler U (msg_Subject m) (msg_Data m)) (\<lambda>err.
         map_prog (apfst (Cons (m, case err of Some e \<Rightarrow> Nak | None \<Rightarrow> Ack))) (consume (worker_handler U) fs)))" for m
  proof (rule strict_bind [OF worker_handler_strict])
    show "reports_errors all_acknowledged
        (map_prog (apfst (Cons (m, case err of Some e \<Rightarrow> Nak | None \<Rightarrow> Ack))) (consume (worker_handler U) fs))" for err
      using Cons.IH by (cases err) (auto simp: strict_map split_def intro: strict_never)
  qed (auto simp: yields_map yields_top split_def)
  with Cons.IH show ?case by (auto split: sum.split)
qed

text \<open>
  (C10) An acknowledgement is never wrong: whatever faults the database had meanwhile, when the worker has
  acknowledged every message of a run, the run is the one of a healthy database, call by call, with the
  same replies, the same rows and the same requests to the bank. A fault that got in the way of any
  statement shows in a negative acknowledgement.
\<close>

theorem acknowledged_is_fault_free:
  assumes "run U E (consume (worker_handler U) fs) w = ((said, returned), w')" and "list_all (\<lambda>(m, d). d = Ack) said"
  shows "run U E (consume (worker_handler U) fs) (w\<lparr>faults := []\<rparr>) = ((said, returned), w'\<lparr>faults := []\<rparr>)"
  using sql.strict_run [OF consume_strict assms(1)] assms(2) by simp

text \<open>A credited transfer and the message that lets the worker complete it, on a connection with a fault to come.\<close>

definition demo_credited :: transfer_row where
  "demo_credited = (demo_row 20 ''k'' 300)\<lparr>tr_state := StateCredited, tr_debit_posted := True, tr_credit_posted := True\<rparr>"

definition demo_notice :: "string \<Rightarrow> message" where
  "demo_notice subject = \<lparr>msg_Subject = subject,
     msg_Data = JSON (JObj [(''transfer_id'', JStr (uuid_String decimal_uuid 20))])\<rparr>"

lemma demo_notice_handler:
  "worker_handler decimal_uuid s (msg_Data (demo_notice subject)) = Execute decimal_uuid (TransferID 20)"
  using uuid_okD [OF decimal_uuid_ok, of 20]
  by (simp add: worker_handler_def demo_notice_def Unmarshal_object_def msg_tags_def fields_fit_def ParseTransferID_def)

lemma demo_completes:
  "\<exists>w'. run decimal_uuid demo_E (Execute decimal_uuid (TransferID 20))
     (demo_world [demo_credited] [NoFault, NoFault, NoFault, NoFault, NotExecuted]) = (None, w')"
  by (simp add: Execute_def dispatch_def complete_def advance_def publishEvent_def port_defs TransferRepo_FindByID_def
      sql_exec_next select_transfer_def demo_db_def demo_credited_def scanTransfer_row [OF decimal_uuid_ok] row_transfer_def
      read_clock_def draw_uuid_def Transition_def inc64_def TransferRepo_UpdateState_def update_transfer_def update_hits_def int32_range_def
      EventStore_Append_def insert_event_def OutboxWriter_Write_def insert_outbox_def event_payload_def demo_time NewEvent_def
      char3_def nchars_def plain_error_def as_error_def demo_row_def)

theorem acknowledged_is_fault_free_witness:
  "\<exists>w'. run decimal_uuid demo_E (consume (worker_handler decimal_uuid)
       [\<lparr>f_done = False, f_next = Inr (demo_notice ''transfer.credited''), f_ctx_Err = False\<rparr>])
       (demo_world [demo_credited] []) = (([(demo_notice ''transfer.credited'', Ack)], False), w'\<lparr>faults := []\<rparr>)"
proof -
  let ?fs = "[NoFault, NoFault, NoFault, NoFault, NotExecuted]" and ?m = "demo_notice ''transfer.credited''"
  let ?p = "consume (worker_handler decimal_uuid) [\<lparr>f_done = False, f_next = Inr ?m, f_ctx_Err = False\<rparr>]"
  obtain w' where "run decimal_uuid demo_E ?p (demo_world [demo_credited] ?fs) = (([(?m, Ack)], False), w')"
    using demo_completes by (auto simp: demo_notice_handler run_bind)
  from acknowledged_is_fault_free [OF this] show ?thesis by auto
qed

section \<open>Statements on a healthy database\<close>

text \<open>Without faults a statement either is refused and changes nothing, or takes effect.\<close>

lemma healthy_run:
  "run U E (Now kt) w = run U E (kt (clock w (ticks w))) (w\<lparr>ticks := Suc (ticks w)\<rparr>)"
  "run U E (NewUUID ku) w = run U E (ku (rand w (drawn w))) (w\<lparr>drawn := Suc (drawn w)\<rparr>)"
  "faults w = [] \<Longrightarrow> run U E (Transfers_Save t ke) w =
     (case insert_transfer t (db w) of
        Inl e \<Rightarrow> run U E (ke (Some (wrap ''insert transfer'' e))) w
      | Inr (_, d) \<Rightarrow> run U E (ke None) (w\<lparr>db := d\<rparr>))"
  "faults w = [] \<Longrightarrow> run U E (Events_Append ev ke) w =
     (case insert_event ev (db w) of
        Inl e \<Rightarrow> run U E (ke (Some e)) w | Inr (_, d) \<Rightarrow> run U E (ke None) (w\<lparr>db := d\<rparr>))"
  "faults w = [] \<Longrightarrow> run U E (Outbox_Write s b ke) w =
     (case insert_outbox (clock w (ticks w)) s b (db w) of
        Inl e \<Rightarrow> run U E (ke (Some (wrap ''write to outbox'' e))) (w\<lparr>ticks := Suc (ticks w)\<rparr>)
      | Inr (_, d) \<Rightarrow> run U E (ke None) (w\<lparr>ticks := Suc (ticks w), db := d\<rparr>))"
  "faults w = [] \<Longrightarrow> run U E (PostEntries es ke) w =
     (case insert_all es (db w) of
        Inl e \<Rightarrow> run U E (ke (Some (wrap ''insert ledger entry'' e))) w
      | Inr d \<Rightarrow> run U E (ke None) (w\<lparr>db := d\<rparr>))"
  "faults w = [] \<Longrightarrow> run U E (Transfers_UpdateState t ke) w =
     (case update_transfer t (db w) of
        Inl e \<Rightarrow> run U E (ke (Some (wrap ''update transfer'' e))) w
      | Inr (n, d) \<Rightarrow> run U E (ke (if n = 0 then Some (Errorf (''optimistic lock conflict on transfer '' @
           TransferID_String U (t_ID t)) None) else None)) (w\<lparr>db := d\<rparr>))"
  "run U E (Idempotency_SetIfAbsent key v ttl ks) w =
     (let (r, s) = IdempotencyStore_SetIfAbsent E key v ttl (ext w) in run U E (ks r) (w\<lparr>ext := s\<rparr>))"
  "run U E (Idempotency_Get key kg) w =
     (let (r, s) = IdempotencyStore_Get E key (ext w) in run U E (kg r) (w\<lparr>ext := s\<rparr>))"
  "faults w = [] \<Longrightarrow> run U E (Accounts_FindByID a ka) w =
     run U E (ka (fst (AccountRepo_FindByID U a w))) w"
  by (auto simp: port_defs read_clock_def draw_uuid_def TransferRepo_Save_def EventStore_Append_def
      OutboxWriter_Write_def PostEntries_nofault TransferRepo_UpdateState_def sql_exec_nofault as_error_def
      plain_error_def on_ext_def AccountRepo_FindByID_def select_account_def Let_def
      split: sum.split prod.split option.split)

section \<open>Accepted requests\<close>

text \<open>What the database has gained when a command was accepted: the transfer, its event and its message.\<close>

definition recorded :: "uuid_lib \<Rightarrow> CreateTransferCmd \<Rightarrow> uuid \<Rightarrow> database \<Rightarrow> database \<Rightarrow> bool" where
  "recorded U cmd u d d' \<longleftrightarrow>
     (\<exists>row e m.
        transfers d' = transfers d @ [row] \<and> tr_id row = u \<and>
        tr_idempotency_key row = c_IdempotencyKey cmd \<and> tr_state row = StatePending \<and> tr_version row = 1 \<and>
        ParseAccountID U (c_SourceAccountID cmd) = Inr (AccountID (tr_source_account_id row)) \<and>
        ParseAccountID U (c_DestAccountID cmd) = Inr (AccountID (tr_dest_account_id row)) \<and>
        tr_amount row = c_Amount cmd \<and> 0 < sint (tr_amount row) \<and>
        rstrip (tr_currency row) = rstrip (c_Currency cmd) \<and>
        transfer_events d' = transfer_events d @ [e] \<and> er_transfer_id e = u \<and>
        er_event_type e = EventTransferRequested \<and>
        outbox d' = outbox d @ [m] \<and> ob_subject m = event_string EventTransferRequested \<and>
        ob_status m = OutboxPending \<and>
        ledger_entries d' = ledger_entries d \<and> accounts d' = accounts d)"

lemma persist_recorded:
  assumes nf: "faults w = []" and run: "run U E (persist U t) w = ((res, None), v)"
  shows "\<exists>c e m. char3 (m_Currency (t_Amount t)) = Some c \<and> 0 < sint (m_Amount (t_Amount t)) \<and>
    transfers (db v) = transfers (db w) @ [transfer_row_of c t] \<and>
    transfer_events (db v) = transfer_events (db w) @ [e] \<and> er_transfer_id e = tr_uuid (t_ID t) \<and>
    er_event_type e = EventTransferRequested \<and>
    outbox (db v) = outbox (db w) @ [m] \<and> ob_subject m = event_string EventTransferRequested \<and>
    ob_status m = OutboxPending \<and> ledger_entries (db v) = ledger_entries (db w) \<and>
    accounts (db v) = accounts (db w) \<and>
    res = \<lparr>cr_TransferID = TransferID_String U (t_ID t), cr_State = state_string (t_State t), cr_Cached = False\<rparr>"
  using run nf
  by (auto simp: persist_def healthy_run cacheResult_def Let_def run_map insert_transfer_Inr insert_event_def
      insert_outbox_def NewEvent_def split: sum.splits option.splits if_splits prod.splits)

lemma checkIdempotency_run:
  "run U E (checkIdempotency key) w = ((r, ok, err), v) \<Longrightarrow> (\<exists>s. v = w\<lparr>ext := s\<rparr>) \<and> (ok \<longrightarrow> cr_Cached r)"
  by (auto simp: checkIdempotency_def healthy_run Let_def split: prod.splits sum.splits option.splits)

lemma validateAccounts_run: "faults w = [] \<Longrightarrow> run U E (validateAccounts U a b) w = (err, v) \<Longrightarrow> v = w"
  by (auto simp: validateAccounts_def healthy_run split: sum.splits option.splits)

lemma Handle_recorded:
  assumes nf: "faults w = []" and run: "run U E (Handle U cmd) w = ((res, None), v)" and new: "\<not> cr_Cached res"
  shows "\<exists>u. recorded U cmd u (db w) (db v) \<and>
    res = \<lparr>cr_TransferID = uuid_String U u, cr_State = ''PENDING'', cr_Cached = False\<rparr>"
proof -
  obtain r ok err w1 where c: "run U E (checkIdempotency (c_IdempotencyKey cmd)) w = ((r, ok, err), w1)"
    by (metis prod_cases3 surj_pair)
  obtain s where w1: "w1 = w\<lparr>ext := s\<rparr>" and ok: "ok \<longrightarrow> cr_Cached r" using checkIdempotency_run [OF c] by blast
  obtain src dst where ids: "ParseAccountID U (c_SourceAccountID cmd) = Inr src"
      "ParseAccountID U (c_DestAccountID cmd) = Inr dst"
    using run c new ok by (auto simp: Handle_def run_bind split: option.splits sum.splits if_splits)
  obtain err' w2 where v: "run U E (validateAccounts U src dst) w1 = (err', w2)" by fastforce
  then have w2: "w2 = w1" using validateAccounts_run [of w1] nf w1 by simp
  let ?m = "\<lparr>m_Amount = c_Amount cmd, m_Currency = c_Currency cmd\<rparr>" and ?u = "rand w (drawn w)"
  let ?w = "w1\<lparr>drawn := Suc (drawn w), ticks := Suc (ticks w)\<rparr>"
  obtain t where t: "transfer_New (clock w (ticks w)) (NewTransferID ?u) (c_IdempotencyKey cmd) src dst ?m = Inr t"
    and p: "run U E (persist U t) ?w = ((res, None), v)"
    using run c new ok ids v w1 w2
    by (auto simp: Handle_def run_bind money_New_def healthy_run split: option.splits sum.splits if_splits)
  note f = transfer_New_fields [OF t]
  from persist_recorded [OF _ p] nf w1 f ids char3_rstrip [of "c_Currency cmd"] show ?thesis
    by (auto simp: recorded_def transfer_row_of_def NewTransferID_def TransferID_String_def)
qed

lemma Handle_accepted:
  assumes "run U E (Handle U cmd) w = ((res, None), v)" and "\<not> cr_Cached res"
  shows "\<exists>u. recorded U cmd u (db w) (db v) \<and>
    res = \<lparr>cr_TransferID = uuid_String U u, cr_State = ''PENDING'', cr_Cached = False\<rparr>"
  using Handle_recorded [OF _ sql.strict_run [OF Handle_strict assms(1)] assms(2)] by simp

lemma error_not_accepted: "rs_status (handleDomainError hs e) \<noteq> StatusAccepted"
  by (simp add: handleDomainError_def writeError_def)

lemma CreateTransfer_accepted:
  assumes run: "run U E (CreateTransfer U hs r) w = (resp, v)" and st: "rs_status resp = StatusAccepted"
  shows "\<exists>q u. Decode_request (rq_Body r) = Inr q \<and>
    recorded U (cmd_of (idempotencyKeyFromCtx (rq_ctx r)) q) u (db w) (db v) \<and>
    rs_Body resp = JSON (JObj [(''transfer_id'', JStr (uuid_String U u)), (''state'', JStr ''PENDING'')])"
proof -
  obtain q where q: "Decode_request (rq_Body r) = Inr q"
    using run st by (auto simp: CreateTransfer_def writeError_def split: sum.splits)
  let ?cmd = "cmd_of (idempotencyKeyFromCtx (rq_ctx r)) q"
  obtain res err v' where h: "run U E (Handle U ?cmd) w = ((res, err), v')" by (metis surj_pair)
  have "err = None" and new: "\<not> cr_Cached res" and v: "v' = v"
    and body: "resp = writeJSON hs StatusAccepted (Inr (result_json res))"
    using CreateTransfer_run [OF q refl h, of hs] run st error_not_accepted
    by (auto simp: writeJSON_def split: option.splits if_splits)
  with Handle_accepted [of U E ?cmd w res v] h q show ?thesis by (auto simp: writeJSON_def result_json_def)
qed

text \<open>
  (C8) The status 202 is a promise kept: whatever faults the database had during the request and whatever
  the cache answered, a POST that is answered 202 has stored exactly one transfer more, PENDING with the
  requested accounts, amount and currency under the request's key, together with its event and with the
  outbox message that announces it, and the body names that transfer. No fault leaves an accepted
  transfer unannounced.
\<close>

theorem accepted_is_durable:
  assumes rt: "routed ch r 0 params" "rq_Method r = ''POST''"
    and st: "rs_status (fst (serve U E ch r w)) = StatusAccepted" and w': "w' = snd (serve U E ch r w)"
  shows "\<exists>q u. Decode_request (rq_Body r) = Inr q \<and>
    recorded U (cmd_of (header_Get (rq_Header r) ''Idempotency-Key'') q) u (db w) (db w') \<and>
    rs_Body (fst (serve U E ch r w)) =
      JSON (JObj [(''transfer_id'', JStr (uuid_String U u)), (''state'', JStr ''PENDING'')])"
proof -
  let ?key = "header_Get (rq_Header r) ''Idempotency-Key''"
  let ?r = "(keyed_request ?key (entry_request U r w))\<lparr>rq_URLParam := params\<rparr>"
  obtain s resp v where run: "run U E (CreateTransfer U (entry_headers U r w) ?r) ((entry_world U r w)\<lparr>ext := s\<rparr>) = (resp, v)"
    and serve: "serve U E ch r w = (resp, v\<lparr>ticks := Suc (ticks v)\<rparr>)"
    using rt st
    by (fastforce simp: serve_top routed_def top_handler_def v1_handler_def idempotencyMiddleware_def healthy_run
        keyed_request_def writeError_def Let_def split: prod.splits sum.splits option.splits if_splits)
  from CreateTransfer_accepted [OF run] serve run st w' show ?thesis by simp
qed

lemma demo_post_accepted:
  assumes r: "r = demo_request ''POST'' ''/v1/transfers'' [(''Idempotency-Key'', ''n'')] demo_body"
  shows "rs_status (fst (serve decimal_uuid demo_E demo_chi r (demo_world [] []))) = StatusAccepted"
proof -
  let ?w = "(entry_world decimal_uuid r (demo_world [] []))\<lparr>ext := []\<rparr>" and ?cmd = "cmd_of ''n'' demo_order"
  have st: "steady decimal_uuid 2 ?w"
    by (intro ext_steady entry_steady demo_steady [OF demo_none_ok]) simp
  have acc: "acceptable decimal_uuid ?cmd (AccountID 10) (AccountID 11) (db ?w)"
    by (simp add: acceptable_def cmd_of_def demo_order_def ParseAccountID_def demo_ids nchars_def demo_db_def
        status_at_def demo_account_def)
  have miss: "ext_redis_GET demo_E (prefixed ''n'') (ext (demo_world [] [])) = (Inl (Sentinel (LibErr goredis_Nil)), [])"
    "cache_miss demo_E (c_IdempotencyKey ?cmd) ?w []"
    by (simp_all add: demo_services_def cache_miss_def)
  have rt: "routed demo_chi r 0 (\<lambda>_. [])" "rq_Method r = ''POST''" "header_Get (rq_Header r) ''Idempotency-Key'' = ''n''"
    "''n'' \<noteq> []" "Decode_request (rq_Body r) = Inr demo_order"
    unfolding r by (simp_all add: demo_routed_post header_Get_def demo_decode)
  obtain v res where "run decimal_uuid demo_E (Handle decimal_uuid ?cmd) ?w = ((res, None), v)" "\<not> cr_Cached res"
    using handle_creates_run [OF st acc miss(2) refl refl demo_set] by fastforce
  from serve_create [OF rt(1-4) miss(1) rt(5) this(1)] this(2) show ?thesis by (simp add: writeJSON_def)
qed

theorem accepted_is_durable_witness:
  "map ob_subject (outbox (db (snd (serve decimal_uuid demo_E demo_chi
      (demo_request ''POST'' ''/v1/transfers'' [(''Idempotency-Key'', ''n'')] demo_body) (demo_world [] []))))) =
    [''transfer.requested'']"
  using accepted_is_durable [OF demo_routed_post _ demo_post_accepted [OF refl] refl]
  by (auto simp: recorded_def demo_db_def)

end
