(* ===== verification/Accounting.thy ===== *)
theory Accounting
  imports Acknowledged
begin

text \<open>
  The books against the transfers. Each state of a transfer has its place in the ledger: nothing while
  it is PENDING or after it FAILED, the amount on the float account of its currency while the bank is
  asked or a refund is due, the amount with the recipient once it is credited. The books are right when every balance
  is the opening balance plus what the stored transfers account for. Every acknowledged delivery and
  everything the other processes do keeps them right.
\<close>

section \<open>What a transfer accounts for\<close>

definition entered :: "Money \<Rightarrow> AccountID \<Rightarrow> AccountID \<Rightarrow> AccountID \<Rightarrow> Currency \<Rightarrow> int" where
  "entered amount src dst a c =
     (if rstrip (m_Currency amount) = rstrip c
      then (if a = dst then sint (m_Amount amount) else 0) - (if a = src then sint (m_Amount amount) else 0)
      else 0)"

definition due :: "Transfer \<Rightarrow> State \<Rightarrow> AccountID \<Rightarrow> Currency \<Rightarrow> int" where
  "due t s =
     (let on_float = entered (t_Amount t) (t_SourceAccountID t) (FloatAccounts (m_Currency (t_Amount t)));
          delivered = entered (t_Amount t) (t_SourceAccountID t) (t_DestAccountID t)
      in case s of
        StatePending \<Rightarrow> (\<lambda>a c. 0) | StateFailed \<Rightarrow> (\<lambda>a c. 0)
      | StateDebited \<Rightarrow> on_float | StateBankCalled \<Rightarrow> on_float | StateCompensating \<Rightarrow> on_float
      | StateCredited \<Rightarrow> delivered | StateCompleted \<Rightarrow> delivered)"

definition position :: "transfer_row \<Rightarrow> AccountID \<Rightarrow> Currency \<Rightarrow> int" where
  "position r = due (row_transfer r) (tr_state r)"

text \<open>The flags that steer the compensation agree with the state.\<close>

primrec flagged :: "State \<Rightarrow> bool \<Rightarrow> bool \<Rightarrow> bool" where
  "flagged StatePending debit credit = (\<not> debit \<and> \<not> credit)"
| "flagged StateDebited debit credit = (debit \<and> \<not> credit)"
| "flagged StateBankCalled debit credit = (debit \<and> \<not> credit)"
| "flagged StateCompensating debit credit = (debit \<and> \<not> credit)"
| "flagged StateCredited debit credit = (debit \<and> credit)"
| "flagged StateCompleted debit credit = (debit \<and> credit)"
| "flagged StateFailed debit credit = True"

definition off_by :: "(AccountID \<Rightarrow> Currency \<Rightarrow> int) \<Rightarrow> (AccountID \<Rightarrow> Currency \<Rightarrow> int) \<Rightarrow> database \<Rightarrow> bool" where
  "off_by gap initial d \<longleftrightarrow>
     (\<forall>a c. sum_balance a c d = initial a c + (\<Sum>r\<leftarrow>transfers d. position r a c) + gap a c)"

definition accounted :: "(AccountID \<Rightarrow> Currency \<Rightarrow> int) \<Rightarrow> database \<Rightarrow> bool" where
  "accounted initial d \<longleftrightarrow>
     off_by (\<lambda>a c. 0) initial d \<and>
     list_all (\<lambda>r. flagged (tr_state r) (tr_debit_posted r) (tr_credit_posted r)) (transfers d)"

text \<open>A handler holds \<open>t\<close> in memory while the books are off by \<open>gap\<close>: the row has the order of \<open>t\<close> and its state.\<close>

definition row_matches :: "Transfer \<Rightarrow> transfer_row \<Rightarrow> bool" where
  "row_matches t r \<longleftrightarrow>
     tr_id r = tr_uuid (t_ID t) \<and> AccountID (tr_source_account_id r) = t_SourceAccountID t \<and>
     AccountID (tr_dest_account_id r) = t_DestAccountID t \<and> tr_amount r = m_Amount (t_Amount t) \<and>
     tr_currency r = m_Currency (t_Amount t) \<and> tr_state r = t_State t"

definition holding ::
  "(AccountID \<Rightarrow> Currency \<Rightarrow> int) \<Rightarrow> Transfer \<Rightarrow> (AccountID \<Rightarrow> Currency \<Rightarrow> int) \<Rightarrow> database \<Rightarrow> bool" where
  "holding initial t gap d \<longleftrightarrow>
     off_by gap initial d \<and> distinct (map tr_id (transfers d)) \<and>
     list_all (\<lambda>r. flagged (tr_state r) (tr_debit_posted r) (tr_credit_posted r)) (transfers d) \<and>
     (\<exists>r \<in> set (transfers d). row_matches t r)"

lemma due_frame [simp]:
  "due (t\<lparr>t_DebitPosted := b\<rparr>) = due t" "due (t\<lparr>t_CreditPosted := b\<rparr>) = due t"
  "due (t\<lparr>t_ExternalRef := x\<rparr>) = due t" "due (t\<lparr>t_FailureReason := x\<rparr>) = due t"
  "due (t\<lparr>t_State := s\<rparr>) = due t" "due (t\<lparr>t_UpdatedAt := now\<rparr>) = due t" "due (t\<lparr>t_Version := n\<rparr>) = due t"
  by (simp_all add: due_def fun_eq_iff)

lemma holding_frame [simp]:
  "holding initial (t\<lparr>t_DebitPosted := b\<rparr>) gap d = holding initial t gap d"
  "holding initial (t\<lparr>t_CreditPosted := b\<rparr>) gap d = holding initial t gap d"
  "holding initial (t\<lparr>t_ExternalRef := x\<rparr>) gap d = holding initial t gap d"
  "holding initial (t\<lparr>t_FailureReason := x\<rparr>) gap d = holding initial t gap d"
  by (simp_all add: holding_def row_matches_def)

lemma holding_accounted: "holding initial t (\<lambda>a c. 0) d \<Longrightarrow> accounted initial d"
  by (simp add: holding_def accounted_def)

lemma holding_cong:
  "ledger_entries d' = ledger_entries d \<Longrightarrow> transfers d' = transfers d \<Longrightarrow>
     holding initial t gap d' = holding initial t gap d"
  by (simp add: holding_def off_by_def sum_balance_def)

lemma position_matches: "row_matches t r \<Longrightarrow> position r = due t (t_State t)"
  by (cases "t_Amount t") (simp add: position_def due_def row_matches_def row_transfer_def)

section \<open>The two writes\<close>

text \<open>A posting moves its amount into the gap, and the new state of the row accounts for it.\<close>

lemma post_holding:
  assumes "holding initial t gap d" and "leg src dst (t_Amount t) p" and "insert_all (Entries p) d = Inr d'"
  shows "holding initial t (\<lambda>a c. gap a c + entered (t_Amount t) src dst a c) d'"
  using assms(1) book.leg_bal [OF assms(2,3)] insert_all_Inr [OF assms(3)]
  by (simp add: holding_def off_by_def entered_def)

lemma update_holding:
  assumes h: "holding initial t gap d" and tr: "Transition now t s = Inr t'"
    and up: "update_transfer t' d = Inr (n, d')" "n \<noteq> 0"
    and gap: "\<And>a c. due t s a c = due t (t_State t) a c + gap a c"
    and fl: "flagged s (t_DebitPosted t) (t_CreditPosted t)"
  shows "holding initial t' (\<lambda>a c. 0) d'"
proof -
  have t': "t' = t\<lparr>t_State := s, t_UpdatedAt := now, t_Version := inc64 (t_Version t)\<rparr>"
    using tr by (simp add: Transition_Inr)
  obtain r xs ys where rows: "transfers d = xs @ r # ys" and r: "row_matches t r"
    using h unfolding holding_def by (meson split_list)
  have dist: "distinct (map tr_id (xs @ r # ys))" using h rows by (simp add: holding_def)
  have d': "d' = d\<lparr>transfers := updated t' (transfers d)\<rparr>" and hit: "\<exists>x \<in> set (transfers d). update_hits t' x"
    using update_transfer_Inr [OF up(1)] up(2) by (auto simp: filter_empty_conv)
  have id: "tr_id r = tr_uuid (t_ID t')" using r by (simp add: row_matches_def t')
  have other: "\<not> update_hits t' x" if "x \<in> set xs \<union> set ys" for x
    using that dist id by (auto simp: update_hits_def image_iff)
  then have "update_hits t' r" using hit rows by auto
  then have rows': "transfers d' = xs @ update_row t' r # ys"
    using other by (simp add: d' rows map_idI)
  have m: "row_matches t' (update_row t' r)" using r by (simp add: row_matches_def t')
  have "position (update_row t' r) a c = position r a c + gap a c" for a c
    using position_matches [OF m] position_matches [OF r] gap by (simp add: t')
  moreover have "sum_balance a c d' = sum_balance a c d" for a c by (simp add: d' sum_balance_def)
  ultimately have "off_by (\<lambda>a c. 0) initial d'"
    using h by (simp add: holding_def off_by_def rows rows')
  moreover have "list_all (\<lambda>r. flagged (tr_state r) (tr_debit_posted r) (tr_credit_posted r)) (transfers d')"
    using h fl by (simp add: holding_def rows rows' t')
  moreover have "distinct (map tr_id (transfers d'))" using dist by (simp add: rows')
  ultimately show ?thesis unfolding holding_def using m rows' by auto
qed

section \<open>A delivery\<close>

fun still_call :: "call \<Rightarrow> bool" where
  "still_call (C_PostEntries es) = False"
| "still_call (C_Transfers_UpdateState t) = False"
| "still_call (C_Transfers_Save t) = False"
| "still_call c = True"

lemma db_write_still:
  "db_write c d d' \<Longrightarrow> still_call c \<Longrightarrow> ledger_entries d' = ledger_entries d \<and> transfers d' = transfers d"
  by (induction rule: db_write.induct)
    (auto simp: insert_event_def insert_outbox_def upsert_account_def split: option.splits if_splits)

interpretation still: world_invariant U E "\<lambda>w. holding initial t gap (db w)" still_call for U E initial t gap
  by unfold_locales (use db_write_still [OF perform_db_write] holding_cong in blast)

lemma publishEvent_holding:
  "run U E (publishEvent U t' ev) w = (err, w') \<Longrightarrow> holding initial t gap (db w) \<Longrightarrow> holding initial t gap (db w')"
  using still.run_keeps [OF publishEvent_calls [of still_call U t' ev], of initial t gap w U E] by simp

lemma posting_holding:
  assumes "faults w = []" and run: "run U E (newPosting src dst (t_Amount t) d k) w = (None, w')"
    and k: "k = (\<lambda>posting. case posting of Inl err \<Rightarrow> Return (Some (f err)) | Inr p \<Rightarrow> PostEntries (Entries p) k')"
    and bad: "\<And>e v. fst (run U E (k' (Some e)) v) \<noteq> None" and h: "holding initial t gap (db w)"
  shows "\<exists>w1. faults w1 = [] \<and> run U E (k' None) w1 = (None, w') \<and>
    holding initial t (\<lambda>a c. gap a c + entered (t_Amount t) src dst a c) (db w1)"
proof -
  have nb: "run U E (k' (Some e)) v \<noteq> (None, w')" for e v using bad [of e v] by auto
  obtain p d1 where p: "NewPosting (clock w (ticks w)) (rand w (Suc (drawn w))) (rand w (Suc (Suc (drawn w))))
      (NewTransactionID (rand w (drawn w))) src dst (t_Amount t) d = Inr p"
    and ins: "insert_all (Entries p) (db w) = Inr d1"
    and r: "run U E (k' None) (w\<lparr>ticks := Suc (ticks w), drawn := Suc (Suc (Suc (drawn w))), db := d1\<rparr>) = (None, w')"
    using run assms(1) nb by (auto simp: newPosting_def k healthy_run split: sum.splits)
  from post_holding [OF h NewPosting_leg [OF p] ins] r assms(1) show ?thesis by (intro exI conjI) auto
qed

text \<open>What a step promises: from books that are off by what the next state accounts for, to right books.\<close>

lemma advance_books:
  assumes "faults w = []" and run: "run U E (advance U t s ev) w = (None, w')" and h: "holding initial t gap (db w)"
    and gap: "\<And>a c. due t s a c = due t (t_State t) a c + gap a c"
    and fl: "flagged s (t_DebitPosted t) (t_CreditPosted t)"
  shows "accounted initial (db w')"
proof -
  obtain t' n d' where tr: "Transition (clock w (ticks w)) t s = Inr t'"
    and up: "update_transfer t' (db w) = Inr (n, d')" "n \<noteq> 0"
    and v: "run U E (publishEvent U t' ev) (w\<lparr>ticks := Suc (ticks w), db := d'\<rparr>) = (None, w')"
    using run assms(1) by (auto simp: advance_def healthy_run split: sum.splits option.splits if_splits)
  from publishEvent_holding [OF v] update_holding [OF h tr up gap fl] show ?thesis
    by (auto intro: holding_accounted)
qed

lemma failWith_books:
  assumes "faults w = []" and run: "run U E (failWith U t reason) w = (None, w')" and h: "holding initial t gap (db w)"
    and s: "t_State t \<noteq> StateFailed" and gap: "\<And>a c. due t (t_State t) a c + gap a c = 0"
  shows "accounted initial (db w')"
proof -
  let ?t = "t\<lparr>t_FailureReason := reason\<rparr>"
  obtain t' n d' where tr: "Transition (clock w (ticks w)) ?t StateFailed = Inr t'"
    and up: "update_transfer t' (db w) = Inr (n, d')" "n \<noteq> 0"
    and v: "run U E (publishEvent U t' EventTransferFailed) (w\<lparr>ticks := Suc (ticks w), db := d'\<rparr>) = (None, w')"
    using run assms(1) s
    by (auto simp: failWith_def healthy_run split: sum.splits option.splits if_splits)
  have "holding initial ?t gap (db w)" using h by simp
  from update_holding [OF this tr up] gap have "holding initial t' (\<lambda>a c. 0) d'" by (simp add: due_def)
  with publishEvent_holding [OF v] show ?thesis by (auto intro: holding_accounted)
qed

lemma healthy_queries:
  "faults w = [] \<Longrightarrow> run U E (Transfers_FindByID i kf) w = run U E (kf (fst (TransferRepo_FindByID U i w))) w"
  "faults w = [] \<Longrightarrow> run U E (Accounts_LockForUpdate a ka) w = run U E (ka (fst (AccountRepo_LockForUpdate U a w))) w"
  "faults w = [] \<Longrightarrow> run U E (GetBalance a c km) w = run U E (km (fst (LedgerRepo_GetBalance U a c w))) w"
  "run U E (InitiateTransfer req kb) w =
     (let (r, s) = ext_bank E req (ext w) in run U E (kb r) (w\<lparr>ext := s\<rparr>))"
  by (auto simp: port_defs TransferRepo_FindByID_def AccountRepo_LockForUpdate_def LedgerRepo_GetBalance_def
      select_transfer_def select_account_def select_balance_def sql_exec_nofault on_ext_def Let_def
      split: sum.split prod.split option.split)

lemma compensate_books:
  assumes "faults w = []" and run: "run U E (compensate U t) w = (None, w')"
    and h: "holding initial t (\<lambda>a c. 0) (db w)" and s: "t_State t = StateCompensating"
    and fl: "t_DebitPosted t" "\<not> t_CreditPosted t"
  shows "accounted initial (db w')"
proof -
  let ?float = "FloatAccounts (m_Currency (t_Amount t))"
  obtain w1 where rev: "run U E (reverseDebit U t) w = (None, w1)"
    and rest: "run U E (failWith U t (t_FailureReason t)) w1 = (None, w')"
    using run fl by (auto simp: compensate_def run_bind split: prod.splits option.splits)
  have "faults w1 = [] \<and> holding initial t (\<lambda>a c. 0 + entered (t_Amount t) ?float (t_SourceAccountID t) a c) (db w1)"
    using posting_holding [OF assms(1) rev [unfolded reverseDebit_def] refl _ h] by auto
  with failWith_books [OF _ rest, of initial] s show ?thesis by (auto simp: due_def entered_def)
qed

lemma startCompensation_books:
  assumes "faults w = []" and run: "run U E (startCompensation U t reason) w = (None, w')"
    and h: "holding initial t (\<lambda>a c. 0) (db w)" and s: "t_State t = StateDebited"
    and fl: "t_DebitPosted t" "\<not> t_CreditPosted t"
  shows "accounted initial (db w')"
proof -
  let ?t = "t\<lparr>t_FailureReason := reason\<rparr>"
  obtain t' n d' where tr: "Transition (clock w (ticks w)) ?t StateCompensating = Inr t'"
    and up: "update_transfer t' (db w) = Inr (n, d')" "n \<noteq> 0"
    and v: "run U E (compensate U t') (w\<lparr>ticks := Suc (ticks w), db := d'\<rparr>) = (None, w')"
    using run assms(1)
    by (auto simp: startCompensation_def healthy_run split: sum.splits option.splits if_splits)
  have "holding initial ?t (\<lambda>a c. 0) (db w)" using h by simp
  from update_holding [OF this tr up] s fl have "holding initial t' (\<lambda>a c. 0) d'" by (simp add: due_def)
  with compensate_books [OF _ v, of initial] tr fl assms(1) show ?thesis by (simp add: Transition_Inr)
qed

lemma reserveDebit_books:
  assumes nf: "faults w = []" and run: "run U E (reserveDebit U t) w = (None, w')"
    and h: "holding initial t (\<lambda>a c. 0) (db w)" and s: "t_State t = StatePending" and fl: "\<not> t_CreditPosted t"
  shows "accounted initial (db w')"
proof -
  let ?t = "t\<lparr>t_DebitPosted := True\<rparr>"
  let ?d = "''debit reserve transfer/'' @ TransferID_String U (t_ID t)"
  let ?k = "\<lambda>err. case err of Some e \<Rightarrow> Return (Some (wrap ''post debit entries'' e))
    | None \<Rightarrow> advance U ?t StateDebited EventTransferDebited"
  let ?post = "newPosting (t_SourceAccountID t) (FloatAccounts (m_Currency (t_Amount t))) (t_Amount t) ?d (\<lambda>posting.
    case posting of Inl err \<Rightarrow> Return (Some (wrap ''build debit posting'' err)) | Inr p \<Rightarrow> PostEntries (Entries p) ?k)"
  consider reason where "run U E (failWith U t reason) w = (None, w')" | "run U E ?post w = (None, w')"
    using run nf by (auto simp: reserveDebit_def healthy_queries split: sum.splits option.splits if_splits)
  then show ?thesis
  proof cases
    case 1
    with failWith_books [OF nf _ h] s show ?thesis by (simp add: due_def)
  next
    case 2
    from posting_holding [OF nf this refl _ h] obtain w1 where w1: "faults w1 = []"
      "run U E (advance U ?t StateDebited EventTransferDebited) w1 = (None, w')"
      "holding initial t (\<lambda>a c. 0 + entered (t_Amount t) (t_SourceAccountID t) (FloatAccounts (m_Currency (t_Amount t))) a c) (db w1)"
      by auto
    from advance_books [OF w1(1,2), of initial] w1(3) s fl show ?thesis by (simp add: due_def)
  qed
qed

lemma postCredit_books:
  assumes nf: "faults w = []" and run: "run U E (postCredit U t) w = (None, w')"
    and h: "holding initial t (\<lambda>a c. 0) (db w)" and s: "t_State t = StateBankCalled" and fl: "t_DebitPosted t"
  shows "accounted initial (db w')"
proof -
  let ?t = "t\<lparr>t_CreditPosted := True\<rparr>"
  from posting_holding [OF nf run [unfolded postCredit_def] refl _ h] obtain w1 where w1: "faults w1 = []"
    "run U E (advance U ?t StateCredited EventTransferCredited) w1 = (None, w')"
    "holding initial t (\<lambda>a c. 0 + entered (t_Amount t) (FloatAccounts (m_Currency (t_Amount t))) (t_DestAccountID t) a c) (db w1)"
    by auto
  from advance_books [OF w1(1,2), of initial] w1(3) s fl show ?thesis by (simp add: due_def entered_def)
qed

lemma callBank_books:
  assumes nf: "faults w = []" and run: "run U E (callBank U t) w = (None, w')"
    and h: "holding initial t (\<lambda>a c. 0) (db w)" and s: "t_State t = StateDebited"
    and fl: "t_DebitPosted t" "\<not> t_CreditPosted t"
  shows "accounted initial (db w')"
proof -
  let ?req = "\<lparr>b_TransferID = t_ID t, b_SourceAccountID = t_SourceAccountID t, b_DestAccountID = t_DestAccountID t,
    b_Amount = t_Amount t, b_Description = ''transfer/'' @ TransferID_String U (t_ID t)\<rparr>"
  obtain answer x where bank: "ext_bank E ?req (ext w) = (answer, x)" by fastforce
  let ?w = "w\<lparr>ext := x\<rparr>"
  have w: "faults ?w = []" "holding initial t (\<lambda>a c. 0) (db ?w)" using nf h by simp_all
  show ?thesis
  proof (cases answer)
    case (Inl err)
    with run bank have "run U E (startCompensation U t (Error err)) ?w = (None, w')"
      by (simp add: callBank_def healthy_queries)
    from startCompensation_books [OF w(1) this w(2) s fl] show ?thesis .
  next
    case (Inr res)
    with run bank have "run U E (advance U (t\<lparr>t_ExternalRef := b_ExternalRef res\<rparr>) StateBankCalled
        EventTransferBankCalled) ?w = (None, w')"
      by (simp add: callBank_def healthy_queries)
    from advance_books [OF w(1) this, of initial "\<lambda>a c. 0"] w(2) s fl show ?thesis by (simp add: due_def)
  qed
qed

lemma Execute_books:
  assumes ok: "uuid_ok U" "db_wf (db w)" and nf: "faults w = []" and acc: "accounted initial (db w)"
    and run: "run U E (Execute U i) w = (None, w')"
  shows "accounted initial (db w')"
proof -
  obtain t where t: "fst (TransferRepo_FindByID U i w) = Inr t" and d: "run U E (dispatch U t) w = (None, w')"
    using run nf by (auto simp: Execute_def healthy_queries split: sum.splits)
  have row: "row_of t \<in> set (transfers (db w))" using find_learned [OF ok(1) t] .
  have m: "row_matches t (row_of t)"
    by (cases "t_SourceAccountID t"; cases "t_DestAccountID t") (simp add: row_matches_def row_of_def transfer_row_of_def)
  have h: "holding initial t (\<lambda>a c. 0) (db w)"
    using acc ok(2) row m unfolding holding_def accounted_def db_wf_def by blast
  have fl: "flagged (t_State t) (t_DebitPosted t) (t_CreditPosted t)"
    using acc row by (force simp: accounted_def list_all_iff row_of_def transfer_row_of_def)
  show ?thesis
  proof (cases "t_State t")
    case StateCredited
    with d have "run U E (advance U t StateCompleted EventTransferCompleted) w = (None, w')"
      by (simp add: dispatch_def complete_def)
    from advance_books [OF nf this h] StateCredited fl show ?thesis by (simp add: due_def)
  qed (use d fl acc reserveDebit_books [OF nf _ h] callBank_books [OF nf _ h] postCredit_books [OF nf _ h]
      compensate_books [OF nf _ h] in \<open>simp_all add: dispatch_def\<close>)
qed

text \<open>Under any faults: an answer without an error means that none got in the way.\<close>

lemma handler_books:
  assumes "uuid_ok U" and "db_wf (db w)" and "accounted initial (db w)"
    and run: "run U E (worker_handler U subject data) w = (None, w')"
  shows "accounted initial (db w')"
proof -
  obtain i where "worker_handler U subject data = Execute U i"
    using run by (auto simp: worker_handler_def split: sum.splits)
  with run have "run U E (Execute U i) w = (None, w')" by simp
  then have "run U E (Execute U i) (healthy w) = (None, healthy w')" by (rule sql.strict_run [OF Execute_strict]) simp
  from Execute_books [OF assms(1) _ _ _ this, of initial] assms(2,3) show ?thesis by simp
qed

section \<open>The system in operation\<close>

fun quiet_call :: "call \<Rightarrow> bool" where
  "quiet_call (C_PostEntries es) = False"
| "quiet_call (C_Transfers_UpdateState t) = False"
| "quiet_call (C_Transfers_Save t) = (t_State t = StatePending \<and> \<not> t_DebitPosted t \<and> \<not> t_CreditPosted t)"
| "quiet_call c = True"

lemma db_write_accounted: "db_write c d d' \<Longrightarrow> quiet_call c \<Longrightarrow> accounted initial d \<Longrightarrow> accounted initial d'"
  by (induction rule: db_write.induct)
    (auto simp: accounted_def off_by_def sum_balance_def insert_transfer_Inr transfer_row_of_def position_def due_def
      insert_event_def insert_outbox_def upsert_account_def split: option.splits if_splits)

interpretation quiet: world_invariant U E "\<lambda>w. accounted initial (db w)" quiet_call for U E initial
  by unfold_locales (use db_write_accounted [OF perform_db_write] in blast)

lemma ServeHTTP_quiet: "all_calls quiet_call (ServeHTTP U ch r)"
  by (intro ServeHTTP_calls top_handler_calls Handle_calls) simp_all

text \<open>What happens between two looks at the books: a request, a poll of the relay, an audit, a delivery that is
  acknowledged, or anything outside that does not write to the database: time passes, messages travel, the
  connection becomes better or worse.\<close>

inductive operates :: "uuid_lib \<Rightarrow> 's services \<Rightarrow> chi \<Rightarrow> 's world \<Rightarrow> 's world \<Rightarrow> bool"
  for U :: uuid_lib and E :: "'s services" and ch :: chi where
  operates_request: "operates U E ch w (snd (run U E (ServeHTTP U ch r) w))"
| operates_poll: "operates U E ch w (snd (run U E (relay n) w))"
| operates_audit: "operates U E ch w (snd (run U E reconcile w))"
| operates_deliver: "run U E (worker_handler U subject data) w = (None, w') \<Longrightarrow> operates U E ch w w'"
| operates_outside: "db w' = db w \<Longrightarrow> operates U E ch w w'"

lemma operates_books:
  assumes "operates U E ch w w'" and "uuid_ok U" and "db_wf (db w) \<and> accounted initial (db w)"
  shows "db_wf (db w') \<and> accounted initial (db w')"
  using assms(1,3)
proof (induction rule: operates.induct)
  case (operates_request w r)
  then show ?case by (simp add: schema.run_keeps quiet.run_keeps [OF ServeHTTP_quiet])
next
  case (operates_poll w n)
  then show ?case by (simp add: schema.run_keeps quiet.run_keeps [OF relay_calls])
next
  case (operates_audit w)
  then show ?case by (simp add: schema.run_keeps quiet.run_keeps [OF reconcile_calls])
next
  case (operates_deliver subject data w w')
  then show ?case
    using schema.run_keeps [of "worker_handler U subject data" w U E] handler_books [OF assms(2)] by auto
qed simp

text \<open>
  (C3) The books agree with the transfers: while requests are served, the relay polls, the reconciler
  audits and workers acknowledge messages, in any order and under any faults, every balance stays the
  opening balance plus what the states of the stored transfers account for: nothing for a PENDING or FAILED
  transfer, the amount on the float account from the debit until the credit or the refund, the amount with the
  recipient from the credit on. (A delivery that ends in an error is not covered: after one, the ledger can
  be ahead of the row.)
\<close>

theorem books_agree_with_transfers:
  assumes "uuid_ok U" and "db_wf (db w)" and "accounted initial (db w)" and "(operates U E ch)\<^sup>*\<^sup>* w w'"
  shows "sum_balance a c (db w') = initial a c + (\<Sum>r\<leftarrow>transfers (db w'). position r a c)"
proof -
  have "db_wf (db w') \<and> accounted initial (db w')"
    using assms(4)
  proof induction
    case (step v v')
    then show ?case using operates_books [OF step.hyps(2) assms(1), of initial] by blast
  qed (simp add: assms)
  then show ?thesis by (simp add: accounted_def off_by_def)
qed

theorem books_agree_with_transfers_witness:
  "\<exists>w'. run decimal_uuid demo_E (worker_handler decimal_uuid ''transfer.requested''
       (msg_Data (demo_notice ''transfer.requested''))) (demo_world [demo_row 20 ''k'' 300] []) = (None, w') \<and>
     sum_balance (AccountID 1) ''IDR'' (db w') = - 1000 + (\<Sum>r\<leftarrow>transfers (db w'). position r (AccountID 1) ''IDR'')"
proof -
  let ?r = "demo_row 20 ''k'' 300"
  let ?w = "demo_world [?r] []" and ?initial = "\<lambda>a c. sum_balance a c (demo_db [])"
  have st: "steady decimal_uuid (4 + 0) ?w" by (rule demo_steady [OF demo_row_ok]) simp
  have at: "transfer_at (db ?w) (TransferID 20) = Some ?r" by (simp add: demo_at)
  have acc: "accounted ?initial (db ?w)"
    by (simp add: accounted_def off_by_def sum_balance_def demo_db_def position_def due_def demo_row_def)
  have wf: "db_wf (db ?w)" using demo_wf [OF demo_row_ok] by simp
  obtain w' where run: "run decimal_uuid demo_E (Execute decimal_uuid (TransferID 20)) ?w = (None, w')"
    by (rule execute_debit [OF st at]) (auto simp: demo_facts int64_range_def)
  then have "operates decimal_uuid demo_E demo_chi ?w w'"
    by (intro operates_deliver [where subject = "''transfer.requested''" and data = "msg_Data (demo_notice ''transfer.requested'')"])
      (simp add: demo_notice_handler)
  then have steps: "(operates decimal_uuid demo_E demo_chi)\<^sup>*\<^sup>* ?w w'" by blast
  from books_agree_with_transfers [OF decimal_uuid_ok wf acc steps, of "AccountID 1" "''IDR''"] run
  have "sum_balance (AccountID 1) ''IDR'' (db w') = - 1000 + (\<Sum>r\<leftarrow>transfers (db w'). position r (AccountID 1) ''IDR'')"
    by (simp add: sum_balance_def demo_db_def demo_entry_def row_value_def)
  with run show ?thesis by (simp add: demo_notice_handler)
qed

end
