(* ===== verification/Spec2Isabelle.thy ===== *)
theory Spec2Isabelle
  imports Saga_Hazards Repositories Store Pipeline Accounting
begin

text \<open>
  A verification development of the Flip-style transfer engine (Go): money transfers between accounts
  by a saga over a double-entry ledger, with optimistic locking, a transactional outbox, idempotent
  requests and a circuit breaker in front of the bank.

  \<^bold>\<open>The program.\<close> The domain packages (\<open>internal/domain\<close>) are pure: amounts, accounts, ledger
  postings, the transfer with its state machine and events. The application layer
  (\<open>internal/application\<close>) is the command handler behind \<open>POST /v1/transfers\<close> and the saga that moves a
  transfer one step per message; both use the infrastructure only through the interfaces of
  \<open>internal/application/port\<close>. The infrastructure (\<open>internal/infrastructure\<close>) implements these on
  PostgreSQL, Redis, NATS and a simulated bank. Four processes share the database: the API
  (\<open>cmd/api\<close>), the worker (\<open>cmd/worker\<close>), the outbox relay (\<open>cmd/outbox-relay\<close>) and the reconciler
  (\<open>cmd/reconciler\<close>). The API stores a transfer and an outbox row; the relay publishes outbox rows; the
  worker runs a saga step for each message, which writes the next outbox row; the reconciler audits
  the ledger.

  \<^bold>\<open>The model.\<close> Domain functions are HOL functions on records and datatypes with the source's names;
  an \<open>int64\<close> is a 64-bit word, the version of a transfer an integer that wraps as a Go \<open>int\<close> does, a time
  nanoseconds, of which a \<open>TIMESTAMPTZ\<close> column keeps the microseconds. A function returning \<open>(T, error)\<close> has the type \<open>go_error + 'T\<close>. Stateful
  code is a program (\<open>prog\<close>, theory \<open>Ports\<close>) over port calls; \<open>perform\<close> (theory \<open>Runtime\<close>) says what a
  call does to the world: the database tables, the clock, the UUIDs, the outside services. A program
  runs alone (\<open>run\<close>) or in a pool whose threads interleave call by call (\<open>pool_steps\<close>), to which new
  threads may come at any time (\<open>live\<close>); every SQL statement may also fail, before or after it took
  effect (\<open>fault\<close>).

  \<^bold>\<open>The theories,\<close> in the order of their imports:
  \<^item> \<open>Prelude\<close>: scalars, errors, \<open>fmt\<close>, \<open>errors.Is\<close>, the UUID package as a parameter, list and word lemmas.
  \<^item> \<open>Money\<close>, \<open>Account\<close>, \<open>Ledger\<close>, \<open>Transfer_Domain\<close>: the four domain packages, one definition per function;
    bounds of the arithmetic, the injective printed form, what postings and reversals do, the
    termination of the state machine through the linear order of its states.
  \<^item> \<open>Json\<close>: how \<open>encoding/json\<close> maps the program's structs to documents and back.
  \<^item> \<open>Ports\<close>: the interfaces as calls, replies and programs; what a program may call (\<open>all_calls\<close>).
  \<^item> \<open>Postgres\<close>, \<open>External\<close>, \<open>Runtime\<close>: the repositories with the constraints of \<open>migrations/\<close>, the Redis
    and NATS adapters, the world and its two ways to run; the locale \<open>world_invariant\<close>.
  \<^item> \<open>Saga\<close>: \<open>transfer_saga.go\<close>, step by step.
  \<^item> \<open>Postgres_Laws\<close>, \<open>Invariants\<close>: what a call can write, fault or not (\<open>db_write\<close>), and the invariants of
    ledger and schema as interpretations of \<open>world_invariant\<close>.
  \<^item> \<open>Concurrency\<close>: no interleaving leaves the state machine. A thread writes only rows derived from rows
    it has read (\<open>tracks\<close>), and identity and version determine a row (\<open>hist_ok\<close>).
  \<^item> \<open>Book\<close>: the locale \<open>double_entry_book\<close>, what a client of the ledger relies on, provided by the tables.
  \<^item> \<open>Saga_Runs\<close>: every branch of every step on a healthy database, and the two outcomes of a transfer.
  \<^item> \<open>Demo\<close>: a concrete world, on which the hypotheses of the theorems are shown to hold.
  \<^item> \<open>Saga_Hazards\<close>: the double debit, the overdraft race and the missing float account.
  \<^item> \<open>Repositories\<close>: the locale \<open>versioned_store\<close> and the contracts of the repositories.
  \<^item> \<open>Circuit_Breaker\<close>, \<open>Bank_Mock\<close>: the breaker, sequential and interleaved, and the simulated bank.
  \<^item> \<open>Observability\<close>: contexts, the trace identity, the logger, the registered collectors.
  \<^item> \<open>Create_Transfer\<close>, \<open>Outbox_Relay\<close>, \<open>Worker\<close>, \<open>Reconciler\<close>, \<open>Http\<close>: the command handler, the relay, the
    consumer and its message handler, the audit, the HTTP handlers, middleware and router.
  \<^item> \<open>Contracts\<close>, \<open>Http_Contract\<close>: the locales \<open>reply_contract\<close> and \<open>reply_invariant\<close>, by which a property of
    the replies of the ports becomes one of the programs that use them, and what the HTTP interface
    promises with them: the trace identity, the endpoint of a transfer, the status codes.
  \<^item> \<open>Store\<close>: the abstract specification of the ports, a store of domain objects with its own steps
    (\<open>store_step\<close>, no tables and no statements), the abstraction \<open>store_of\<close> of the tables, the proof that
    \<open>perform\<close> refines it under every fault, and what follows for the versions of transfers.
  \<^item> \<open>Commands\<close>: the \<open>main\<close> and \<open>run\<close> functions of the four processes, the API's server and its shutdown.
    A loop whose observed events end is still running (\<open>running\<close>); it returns only when told to.
  \<^item> \<open>Interfaces\<close>: the port interfaces as method sets, the structs and constructors, the wiring of the
    \<open>main\<close> packages; every component is well typed against it, and writes only the tables of its role.
  \<^item> \<open>Live_System\<close>: threads that come and go, and what outbox and stream carry between them.
  \<^item> \<open>Pipeline\<close>: the relay process and the stream it fills, and the round from the outbox through the
    broker and the worker back to the outbox.
  \<^item> \<open>Acknowledged\<close>: the locale \<open>error_reporting\<close>, provided by the repositories, and programs that are
    \<open>strict\<close> about errors. What an acknowledgement of the worker and a status 202 of the API are worth.
  \<^item> \<open>Accounting\<close>: what each state of a transfer accounts for in the ledger, and that the books agree with it.
  \<^item> this theory: the properties of the running system.

  \<^bold>\<open>What is shown.\<close> For all interleavings of all processes under all faults: the ledger total of every
  currency is constant, ledger and events are append-only, the schema holds, and transfers move only
  along the state machine; a stored transfer is unchanged while its version is. Under all faults of one run at a time: a message that is acknowledged was
  handled as on a healthy database, a request that is answered 202 has left its transfer, event and
  message, and as long as deliveries are acknowledged every balance is what the states of the transfers
  account for. For one worker on a healthy database: four deliveries settle a transfer or undo it
  completely. For each component: its functional behaviour on every branch. And, as theorems too, where
  the program falls short of its documentation. Through relay, broker and worker: every transfer that is
  past its debit reaches its end in three rounds, however many are on their way; but no transfer made
  through the API ever gets that far, because its first message cannot be read.

  \<^bold>\<open>Bounds.\<close> No definition needs fuel: programs are finite trees, and loops run over lists or over the
  events a process observes. Four deliveries suffice because a transfer makes at most four forward
  moves. \<open>steady U k w\<close> asks for \<open>k\<close> fresh UUIDs; a step draws at most four, so sixteen cover four
  deliveries, and \<open>12 * p\<close> cover three rounds with \<open>p\<close> messages, as a round never adds to their number.

  \<^bold>\<open>Parameters and hypotheses.\<close> \<open>google/uuid\<close> (\<open>uuid_ok\<close>: parsing inverts printing), Redis (\<open>redis_keeps\<close>:
  a key keeps its value until its time to live is over; the server evicts nothing earlier, which is
  its default), the broker (\<open>js_rejects\<close>: a subject no stream has, \<open>stream_grows\<close>: a stream holds only what was
  published, \<open>stream_broker\<close>: it stores what is published to its subjects and refuses the rest), chi (\<open>routed\<close>, \<open>chi_methods\<close>,
  \<open>keeps_request_id\<close>), the errors of the libraries (\<open>foreign_errors\<close>: they wrap no sentinel of the program),
  the libraries at start-up (\<open>libraries\<close>). Each theorem with such a hypothesis is applied to a concrete
  instance after it.

  \<^bold>\<open>Not modelled.\<close> What the logger prints, the Prometheus page (the collectors of \<open>metrics.go\<close> appear as what
  is registered; no code updates them), the text of JSON documents and of driver errors, \<open>net/http\<close> itself
  (what \<open>ListenAndServe\<close> and \<open>Shutdown\<close> return is a parameter), panics (no handler raises one), and
  transaction isolation beyond single statements, which the program does not use outside
  \<open>PostEntries\<close>. Of the SQL migrations the tables appear as records and their keys, references and checks
  as the invariant \<open>db_wf\<close>; indexes and the table \<open>processed_events\<close>, which no code uses, do not. The field
  \<open>compensate\<close> of a saga step is kept but, as in the source, never read. Texts are byte strings that
  PostgreSQL accepts: valid UTF-8 without NUL; that the database would refuse others is not modelled.
  Times are printed in UTC: the processes run with that time zone, as pgx returns \<open>TIMESTAMPTZ\<close> values in
  the local one.
\<close>

section \<open>The services\<close>

text \<open>The processes of the system, as threads: the goroutines of the API's requests, and the worker, the
  relay and the reconciler from their start-up on, for as long as they run.\<close>

definition service :: "uuid_lib \<Rightarrow> chi \<Rightarrow> unit prog \<Rightarrow> bool" where
  "service U ch p \<longleftrightarrow> (\<exists>k. process U ch k p)"

lemma service_balanced: "service U ch p \<Longrightarrow> all_calls balanced_call p"
  by (auto simp: service_def thread_def all_calls_map api_threads_def ServeHTTP_balanced commands_balanced
      elim!: process.cases split: if_splits)

lemma service_tracks: "service U ch p \<Longrightarrow> tracks p K"
  by (auto simp: service_def thread_def api_threads_def ServeHTTP_tracks commands_track
      elim!: process.cases split: if_splits)

lemma services_balanced: "\<forall>p \<in> set ps. service U ch p \<Longrightarrow> list_all (all_calls balanced_call) ps"
  by (auto simp: list_all_iff service_balanced)

lemma services_track:
  "\<forall>p \<in> set ps. service U ch p \<Longrightarrow> db_wf (db w) \<Longrightarrow> pool_tracks (set (transfers (db w))) (ps, w)"
  by (auto simp: pool_tracks_def hist_ok_start list_all_iff service_tracks)

text \<open>A pool for the examples: a worker with a message about the pending transfer, the relay, the
  reconciler and a request to the API, and a schedule that lets them take turns.\<close>

definition demo_pool :: "unit prog list" where
  "demo_pool =
     [thread (worker_run decimal_uuid (\<lambda>_. []) demo_libraries
        [\<lparr>f_done = False, f_next = Inr \<lparr>msg_Subject = ''transfer.requested'',
           msg_Data = message_of decimal_uuid (demo_row 20 ''k'' 300) EventTransferRequested JNull\<rparr>, f_ctx_Err = False\<rparr>]),
      thread (relay_run (\<lambda>_. []) demo_libraries [Tick, Tick]),
      thread (reconciler_run (\<lambda>_. []) demo_libraries [Tick])] @
     api_threads decimal_uuid (\<lambda>_. []) demo_libraries demo_chi
       [demo_request ''POST'' ''/v1/transfers'' [(''Idempotency-Key'', ''n'')] demo_body]"

definition demo_schedule :: "nat list" where
  "demo_schedule = concat (replicate 9 [0, 3, 1, 3, 0, 2])"

definition demo_end :: "demo_cache system" where
  "demo_end = run_schedule decimal_uuid demo_E demo_schedule (demo_pool, demo_world [demo_row 20 ''k'' 300] [NotExecuted])"

lemma demo_services_all: "\<forall>p \<in> set demo_pool. service decimal_uuid demo_chi p"
  unfolding demo_pool_def service_def by (auto intro: process.intros)

lemma demo_pool_runs:
  "pool_steps decimal_uuid demo_E (demo_pool, demo_world [demo_row 20 ''k'' 300] [NotExecuted]) (fst demo_end, snd demo_end)"
  using run_schedule_steps [of decimal_uuid demo_E
      "(demo_pool, demo_world [demo_row 20 ''k'' 300] [NotExecuted])" demo_schedule]
  by (simp add: demo_end_def)

section \<open>Invariants of the running system\<close>

text \<open>
  (C1) Money is conserved: whatever the services do together, in any interleaving, with any faults of
  the database and any answers of the bank, the cache and the broker, the total of the ledger in every
  currency stays what it was.
\<close>

theorem money_is_conserved:
  assumes "\<forall>p \<in> set ps. service U ch p" and "pool_steps U E (ps, w) (ps', w')"
  shows "table_total cur (db w') = table_total cur (db w)"
  using ledger_total.pool_steps_keep [OF assms(2), of "\<lambda>cur. table_total cur (db w)"]
    services_balanced [OF assms(1)] by simp

theorem money_is_conserved_witness:
  "table_total ''IDR'' (db (snd demo_end)) = 0"
  using money_is_conserved [OF demo_services_all demo_pool_runs, of "''IDR''"]
  by (simp add: table_total_def demo_db_def demo_entry_def row_value_def)

text \<open>
  (C12) The history is append-only: under the same conditions no ledger entry and no transfer event is
  ever changed or removed, and every table keeps the keys, references and checks of the migrations.
\<close>

theorem history_is_append_only:
  assumes "pool_steps U E (ps, w) (ps', w')" and "db_wf (db w)"
  shows "prefix (ledger_entries (db w)) (ledger_entries (db w')) \<and>
    prefix (transfer_events (db w)) (transfer_events (db w')) \<and> db_wf (db w')"
  using append_only.pool_steps_keep [OF assms(1), of "ledger_entries (db w)" "transfer_events (db w)"]
    schema.pool_steps_keep [OF assms(1)] assms(2)
  by (simp add: list_all_iff)

theorem history_is_append_only_witness:
  "prefix [demo_entry 100 1 EntryTypeDebit, demo_entry 101 10 EntryTypeCredit] (ledger_entries (db (snd demo_end)))"
  using history_is_append_only [OF demo_pool_runs] by (simp add: demo_wf demo_row_ok) (simp add: demo_db_def)

text \<open>
  (C4) Every transfer follows the state machine: in any interleaving of the services and under any
  faults, the row of a transfer changes only along legal transitions, each taking one version, keeps
  its accounts and amount, makes at most five moves, and stays as it is once it is COMPLETED or FAILED;
  rows added meanwhile started in PENDING at version 1.
\<close>

theorem transfers_follow_machine:
  assumes "uuid_ok U" and "db_wf (db w)" and "\<forall>p \<in> set ps. service U ch p"
    and "pool_steps U E (ps, w) (ps', w')"
  shows "length (transfers (db w)) \<le> length (transfers (db w')) \<and>
    (\<forall>k < length (transfers (db w)).
       row_move\<^sup>*\<^sup>* (transfers (db w) ! k) (transfers (db w') ! k) \<and>
       tr_version (transfers (db w') ! k) \<le> tr_version (transfers (db w) ! k) + 5 \<and>
       (terminal (tr_state (transfers (db w) ! k)) \<longrightarrow> transfers (db w') ! k = transfers (db w) ! k)) \<and>
    (\<forall>k. length (transfers (db w)) \<le> k \<longrightarrow> k < length (transfers (db w')) \<longrightarrow>
       (\<exists>r. tr_state r = StatePending \<and> tr_version r = 1 \<and> row_move\<^sup>*\<^sup>* r (transfers (db w') ! k)))"
proof -
  have "rows_step\<^sup>*\<^sup>* (transfers (db w)) (transfers (db w'))"
    using pool_steps_tracks [OF assms(4,1) services_track [OF assms(3,2)]] by simp
  note row = rows_steps_row [OF this]
  have five: "moves_left s \<le> 5" for s by (cases s) simp_all
  have "tr_version r' \<le> tr_version r + 5" if "row_move\<^sup>*\<^sup>* r r'" for r r'
    using row_path_bound [OF that] five [of "tr_state r"] by simp
  with row row_path_terminal show ?thesis by blast
qed

theorem transfers_follow_machine_witness:
  "row_move\<^sup>*\<^sup>* (demo_row 20 ''k'' 300) (transfers (db (snd demo_end)) ! 0) \<and>
   tr_version (transfers (db (snd demo_end)) ! 0) \<le> 6"
  using transfers_follow_machine [OF decimal_uuid_ok _ demo_services_all demo_pool_runs]
  by (simp add: demo_wf demo_row_ok) (simp add: demo_db_def demo_row_def)

text \<open>
  (C13) The audit never raises a false alarm: from a ledger whose totals are zero, after anything the
  services do together, the reconciler's next audit on a healthy connection reports the ledger as sound.
\<close>

theorem audit_stays_ok:
  assumes "\<forall>p \<in> set ps. service U ch p" and "pool_steps U E (ps, w) (ps', w')"
    and "\<forall>cur. table_total cur (db w) = 0"
  shows "fst (run U E reconcile (w'\<lparr>faults := []\<rparr>)) = Inr [ReconciliationOK (length (ledger_entries (db w')))]"
proof -
  have "table_total cur (db w') = 0" for cur
    using ledger_total.pool_steps_keep [OF assms(2), of "\<lambda>cur. 0"] services_balanced [OF assms(1)] assms(3)
    by simp
  then show ?thesis
    using reconcile_ok [of "map (row_entry U) (sort_key lr_created_at (ledger_entries (db w')))"]
    by (simp add: reconcile_run all_entries_total)
qed

theorem audit_stays_ok_witness:
  "fst (run decimal_uuid demo_E reconcile ((snd demo_end)\<lparr>faults := []\<rparr>)) =
     Inr [ReconciliationOK (length (ledger_entries (db (snd demo_end))))]"
  using audit_stays_ok [OF demo_services_all demo_pool_runs]
  by (simp add: table_total_def demo_db_def demo_entry_def row_value_def)

text \<open>
  (C14) Processes are confined to their tables: as long as only processes of some kinds run, in any
  interleaving and under any faults, a table that none of these kinds may write stays exactly as it is.
  The API cannot touch the ledger, the relay writes only the outbox, the reconciler writes nothing, and
  no process at all changes an account.
\<close>

theorem processes_confined:
  assumes "\<forall>p \<in> set ps. \<exists>k \<in> K. process U ch k p" and "\<forall>k \<in> K. t \<notin> set (may_write k)"
    and "pool_steps U E (ps, w) (ps', w')"
  shows "same_table t (db w) (db w')"
proof -
  have "list_all (all_calls (\<lambda>c. t \<notin> set (writes c))) ps"
    using assms(1,2) process_writes by (fastforce simp: list_all_iff)
  then show ?thesis using table_frame.pool_steps_keep [OF assms(3), of t "db w"] by simp
qed

theorem processes_confined_witness:
  "accounts (db (snd demo_end)) = accounts (demo_db [demo_row 20 ''k'' 300])"
proof -
  have "\<forall>p \<in> set demo_pool. \<exists>k \<in> UNIV. process decimal_uuid demo_chi k p"
    using demo_services_all by (simp add: service_def)
  moreover have "\<forall>k \<in> UNIV. T_accounts \<notin> set (may_write k)"
    by (metis (full_types) may_write.simps empty_iff list.set table.distinct insert_iff process_kind.exhaust)
  ultimately have "same_table T_accounts (db (demo_world [demo_row 20 ''k'' 300] [NotExecuted])) (db (snd demo_end))"
    by (rule processes_confined [OF _ _ demo_pool_runs])
  then show ?thesis by simp
qed

section \<open>The outcome of a transfer\<close>

text \<open>
  (C2) A transfer ends, and ends right: on a healthy database, four deliveries bring a pending transfer
  to COMPLETED with its amount moved from the source to the destination, when the source account is
  active and funded and the bank accepts; and to FAILED with every balance as before, when not. Any
  further delivery changes nothing.
\<close>

theorem saga_outcome:
  assumes st: "steady U 16 w" and at: "transfer_at (db w) i = Some r" and s: "tr_state r = StatePending"
    and flag: "\<not> tr_credit_posted r"
    and range: "int64_range (sum_balance (row_src r) (tr_currency r) (db w))"
    and float: "has_account (db w) (acc_uuid (row_float r))" "row_float r \<noteq> row_src r" "row_float r \<noteq> row_dst r"
  shows "\<exists>r'. transfer_at (db (deliveries U E i (4 + n) w)) i = Some r' \<and>
    (if will_settle U E w r
     then tr_state r' = StateCompleted \<and> settled r (db w) (db (deliveries U E i (4 + n) w))
     else tr_state r' = StateFailed \<and> undisturbed (db w) (db (deliveries U E i (4 + n) w)))"
proof -
  have st16: "steady U (4 + (4 + (4 + (4 + 0)))) w" "steady U (4 + (4 + 8)) w" using st by simp_all
  have later: "deliveries U E i (4 + n) w = w'"
    if "deliveries U E i 4 w = w'" "steady U 0 w'" "transfer_at (db w') i = Some r'" "terminal (tr_state r')" for w' r'
    using deliveries_terminal [OF that(2-4), of E n] that(1) by (simp add: deliveries_add)
  show ?thesis
  proof (cases "will_settle U E w r")
    case True
    then show ?thesis using pending_completes [OF st16(1) at s range float True] later by fastforce
  next
    case False
    then show ?thesis using pending_fails [OF st16(2) at s flag range float(1,2) False] later by fastforce
  qed
qed

theorem saga_outcome_witness:
  "(\<exists>r'. transfer_at (db (deliveries decimal_uuid demo_E (TransferID 20) 4 (demo_world [demo_row 20 ''k'' 300] []))) (TransferID 20) = Some r' \<and>
     tr_state r' = StateFailed) \<and>
   (\<exists>r'. transfer_at (db (deliveries decimal_uuid (demo_services (Inr \<lparr>b_ExternalRef = ''R''\<rparr>) (\<lambda>_. True)) (TransferID 20) 4
       (demo_world [demo_row 20 ''k'' 300] []))) (TransferID 20) = Some r' \<and> tr_state r' = StateCompleted)"
proof -
  have st: "steady decimal_uuid 16 (demo_world [demo_row 20 ''k'' 300] [])"
    by (rule demo_steady [OF demo_row_ok]) simp
  show ?thesis
    using saga_outcome [OF st, of "TransferID 20" "demo_row 20 ''k'' 300" demo_E 0]
      saga_outcome [OF st, of "TransferID 20" "demo_row 20 ''k'' 300"
        "demo_services (Inr \<lparr>b_ExternalRef = ''R''\<rparr>) (\<lambda>_. True)" 0]
    by (auto simp: demo_at demo_facts int64_range_def will_settle_def bank_accepts_def)
qed

text \<open>
  As the worker is wired, an active and funded source is enough: with the simulated bank behind its
  circuit breaker in the state the worker starts with, the transfer is settled after four deliveries.
\<close>

lemma wired_transfer_completes:
  assumes st: "steady U 16 w" and at: "transfer_at (db w) i = Some r" and s: "tr_state r = StatePending"
    and range: "int64_range (sum_balance (row_src r) (tr_currency r) (db w))"
    and float: "has_account (db w) (acc_uuid (row_float r))" "row_float r \<noteq> row_src r" "row_float r \<noteq> row_dst r"
    and active: "status_at (db w) (row_src r) = Some StatusActive"
    and funds: "sint (tr_amount r) \<le> sum_balance (row_src r) (tr_currency r) (db w)"
    and bank: "ext_bank E = worker_bank U tie" "ext w = worker_ext_New ts"
  shows "map_option tr_state (transfer_at (db (deliveries U E i 4 w)) i) = Some StateCompleted \<and>
    settled r (db w) (db (deliveries U E i 4 w))"
proof -
  have st16: "steady U (4 + (4 + (4 + (4 + 0)))) w" using st by simp
  have "worker_ext_ok (ext w)"
    by (simp add: bank worker_ext_ok_def worker_ext_New_def breaker_New_def gateway_New_def)
  then have "bank_accepts U E w r" by (simp add: bank_accepts_def bank(1) worker_bank_ok)
  then have "will_settle U E w r" using active funds by (simp add: will_settle_def)
  from pending_completes [OF st16 at s range float this] show ?thesis by auto
qed

end
